(* ===== verification/Prelude.thy ===== *)
theory Prelude
  imports Main "HOL-Library.Word" "HOL-Library.Monad_Syntax"
begin

text \<open>
  Shared layer of the development: the C integer types, checked array access, counted
  loops, byte copies, little-endian half-words, and the lemmas the component theories
  use about them.

  Conventions. A C function that updates globals is a HOL function on the state record
  that returns the new state. Where the C code can step outside an array (or loop
  forever), the HOL function returns an \<open>option\<close>, and \<open>None\<close> stands for
  that undefined behaviour; \<open>do\<close> blocks thread it. An array is a list of the length
  the C declaration gives it.
\<close>

unbundle bit_operations_syntax

section \<open>Integer types\<close>

type_synonym u8 = "8 word"
type_synonym u16 = "16 word"
type_synonym u32 = "32 word"

text \<open>Collections that carry the component proofs: array accesses that are in range,
  loops, and the effect of an operation on the fields of the state.\<close>

named_theorems array_simps
named_theorems loop_simps
named_theorems frame_simps
named_theorems bit_tests

section \<open>Checked array access\<close>

definition idx :: "'a list \<Rightarrow> nat \<Rightarrow> 'a option" where
  "idx xs i = (if i < length xs then Some (xs ! i) else None)"

definition upd :: "'a list \<Rightarrow> nat \<Rightarrow> 'a \<Rightarrow> 'a list option" where
  "upd xs i v = (if i < length xs then Some (xs[i := v]) else None)"

text \<open>\<open>memcpy(dst + off, src, n)\<close> between two arrays: undefined when it would read
  past the end of the source or write past the end of the destination.\<close>

definition memcpy :: "'a list \<Rightarrow> nat \<Rightarrow> 'a list \<Rightarrow> nat \<Rightarrow> 'a list option" where
  "memcpy dst off src n =
     (if n \<le> length src \<and> off + n \<le> length dst
      then Some (take off dst @ take n src @ drop (off + n) dst) else None)"

lemma idx_Some [array_simps]: "i < length xs \<Longrightarrow> idx xs i = Some (xs ! i)"
  by (simp add: idx_def)

lemma upd_Some [array_simps]: "i < length xs \<Longrightarrow> upd xs i v = Some (xs[i := v])"
  by (simp add: upd_def)

lemma memcpy_Some [array_simps]:
  "n \<le> length src \<Longrightarrow> off + n \<le> length dst \<Longrightarrow>
     memcpy dst off src n = Some (take off dst @ take n src @ drop (off + n) dst)"
  by (simp add: memcpy_def)

lemma idx_None_iff: "idx xs i = None \<longleftrightarrow> length xs \<le> i"
  by (simp add: idx_def)

lemma idx_SomeD: "idx xs i = Some v \<Longrightarrow> i < length xs \<and> v = xs ! i"
  by (simp add: idx_def split: if_splits)

lemma upd_SomeD: "upd xs i v = Some ys \<Longrightarrow> i < length xs \<and> ys = xs[i := v]"
  by (auto simp: upd_def split: if_splits)

lemma memcpy_length: "memcpy dst off src n = Some dst' \<Longrightarrow> length dst' = length dst"
  by (auto simp: memcpy_def split: if_splits)

lemma memcpy_SomeD:
  "memcpy dst off src n = Some dst' \<Longrightarrow>
     n \<le> length src \<and> off + n \<le> length dst \<and>
     dst' = take off dst @ take n src @ drop (off + n) dst"
  by (auto simp: memcpy_def split: if_splits)

lemma memcpy_prefix:
  assumes "memcpy dst off src n = Some dst'" and "take off dst = pre" and "length pre = off"
  shows "take (off + n) dst' = pre @ take n src"
  using assms by (auto simp: memcpy_def split: if_splits)

lemma length_take_drop_upd:
  "off + n \<le> length dst \<Longrightarrow> n \<le> length src \<Longrightarrow>
     length (take off dst @ take n src @ drop (off + n) dst) = length dst"
  by simp

section \<open>Counted loops\<close>

text \<open>
  \<open>for (i = lo; i < hi; i++) body\<close>, where the body never writes \<open>i\<close> or what
  \<open>hi\<close> reads. \<open>for_u8\<close> is the loop with an 8-bit counter: it cannot reach a bound
  above 255, and then never ends. \<open>for_down\<close> counts from \<open>n\<close> down to 1.
\<close>

function for_up :: "nat \<Rightarrow> nat \<Rightarrow> (nat \<Rightarrow> 's \<Rightarrow> 's option) \<Rightarrow> 's \<Rightarrow> 's option" where
  "for_up lo hi body s =
     (if lo < hi then do { s' \<leftarrow> body lo s; for_up (Suc lo) hi body s' } else Some s)"
  by pat_completeness auto
termination
  by (relation "measure (\<lambda>(lo, hi, _). hi - lo)") auto

declare for_up.simps [simp del]

definition for_u8 :: "u16 \<Rightarrow> (nat \<Rightarrow> 's \<Rightarrow> 's option) \<Rightarrow> 's \<Rightarrow> 's option" where
  "for_u8 n body s = (if n \<le> 255 then for_up 0 (unat n) body s else None)"

primrec for_down :: "nat \<Rightarrow> (nat \<Rightarrow> 's \<Rightarrow> 's option) \<Rightarrow> 's \<Rightarrow> 's option" where
  "for_down 0 body s = Some s"
| "for_down (Suc n) body s = do { s' \<leftarrow> body (Suc n) s; for_down n body s' }"

lemma for_up_stop [loop_simps]: "hi \<le> lo \<Longrightarrow> for_up lo hi body s = Some s"
  by (subst for_up.simps) simp

lemma for_up_step [loop_simps]:
  "lo < hi \<Longrightarrow> for_up lo hi body s = do { s' \<leftarrow> body lo s; for_up (Suc lo) hi body s' }"
  by (subst for_up.simps) simp

lemma for_up_cong:
  assumes "\<And>i t. lo \<le> i \<Longrightarrow> i < hi \<Longrightarrow> body i t = body' i t"
  shows "for_up lo hi body s = for_up lo hi body' s"
  using assms
proof (induction lo hi body s rule: for_up.induct)
  case (1 lo hi body s)
  show ?case
  proof (cases "lo < hi")
    case True
    with 1 show ?thesis by (cases "body lo s") (simp_all add: for_up_step)
  next
    case False
    then show ?thesis by (simp add: for_up_stop)
  qed
qed

text \<open>The loop rule: an invariant indexed by the counter, kept by a body that is defined.\<close>

lemma for_up_rule:
  assumes "P lo s" and "lo \<le> hi"
    and "\<And>i t. lo \<le> i \<Longrightarrow> i < hi \<Longrightarrow> P i t \<Longrightarrow> \<exists>t'. body i t = Some t' \<and> P (Suc i) t'"
  shows "\<exists>s'. for_up lo hi body s = Some s' \<and> P hi s'"
  using assms
proof (induction lo hi body s rule: for_up.induct)
  case (1 lo hi body s)
  show ?case
  proof (cases "lo < hi")
    case True
    with "1.prems" obtain t where t: "body lo s = Some t" "P (Suc lo) t"
      by blast
    have "\<exists>s'. for_up (Suc lo) hi body t = Some s' \<and> P hi s'"
      using "1.IH" [OF True, of t] t True "1.prems"(3) by simp
    with t True show ?thesis by (simp add: for_up_step)
  next
    case False
    with "1.prems" have "lo = hi" by simp
    with "1.prems" show ?thesis by (simp add: for_up_stop)
  qed
qed

text \<open>A loop whose body is total is a fold over the counter values.\<close>

lemma for_up_fold:
  assumes "\<And>i t. lo \<le> i \<Longrightarrow> i < hi \<Longrightarrow> body i t = Some (f i t)"
  shows "for_up lo hi body s = Some (fold f [lo..<hi] s)"
  using assms
proof (induction lo hi body s rule: for_up.induct)
  case (1 lo hi body s)
  show ?case
  proof (cases "lo < hi")
    case True
    with "1.IH" [OF True, of "f lo s"] "1.prems" show ?thesis
      by (simp add: for_up_step upt_conv_Cons)
  next
    case False
    then show ?thesis by (simp add: for_up_stop)
  qed
qed

lemma for_down_rule:
  assumes "P n s"
    and "\<And>i t. i < n \<Longrightarrow> P (Suc i) t \<Longrightarrow> \<exists>t'. body (Suc i) t = Some t' \<and> P i t'"
  shows "\<exists>s'. for_down n body s = Some s' \<and> P 0 s'"
  using assms
proof (induction n arbitrary: s)
  case 0
  then show ?case by simp
next
  case (Suc n)
  then obtain t where t: "body (Suc n) s = Some t" "P n t"
    by blast
  from Suc.IH [OF t(2)] Suc.prems(2) have "\<exists>s'. for_down n body t = Some s' \<and> P 0 s'"
    by simp
  with t show ?case by simp
qed

lemma for_down_fold:
  assumes "\<And>i t. 0 < i \<Longrightarrow> i \<le> n \<Longrightarrow> body i t = Some (f i t)"
  shows "for_down n body s = Some (fold f (rev [1..<Suc n]) s)"
  using assms
proof (induction n arbitrary: s)
  case 0
  then show ?case by simp
next
  case (Suc n)
  then have "for_down n body (f (Suc n) s) = Some (fold f (rev [1..<Suc n]) (f (Suc n) s))"
    by simp
  with Suc.prems [of "Suc n" s] show ?case by simp
qed

text \<open>A fold that touches one component of the state only.\<close>

lemma fold_lens:
  assumes "\<And>i s. upd_s (f i) s = g i s"
    and "\<And>h k s. upd_s h (upd_s k s) = upd_s (h \<circ> k) s" and "\<And>s. upd_s id s = s"
  shows "fold g is s = upd_s (fold f is) s"
proof (induction "is" arbitrary: s)
  case Nil
  then show ?case using assms(3) by (simp add: id_def)
next
  case (Cons i "is")
  have "fold g (i # is) s = upd_s (fold f is) (upd_s (f i) s)"
    using Cons.IH assms(1) by simp
  also have "\<dots> = upd_s (fold f is \<circ> f i) s"
    by (rule assms(2))
  also have "fold f is \<circ> f i = fold f (i # is)"
    by (simp add: fun_eq_iff)
  finally show ?case .
qed

section \<open>Defined results\<close>

text \<open>\<open>returns r P\<close>: the operation is defined and its result satisfies \<open>P\<close>. The
  rules chain such facts through \<open>do\<close> blocks.\<close>

definition returns :: "'s option \<Rightarrow> ('s \<Rightarrow> bool) \<Rightarrow> bool" where
  "returns r P \<longleftrightarrow> (\<exists>t. r = Some t \<and> P t)"

lemma returns_Some [simp]: "returns (Some t) P = P t"
  by (simp add: returns_def)

lemma returns_None [simp]: "\<not> returns None P"
  by (simp add: returns_def)

lemma returns_bind:
  "returns r P \<Longrightarrow> (\<And>t. P t \<Longrightarrow> returns (f t) Q) \<Longrightarrow> returns (Option.bind r f) Q"
  by (auto simp: returns_def)

lemma returns_mono: "returns r P \<Longrightarrow> (\<And>t. P t \<Longrightarrow> Q t) \<Longrightarrow> returns r Q"
  by (auto simp: returns_def)

lemma returns_if:
  "(b \<Longrightarrow> returns r P) \<Longrightarrow> (\<not> b \<Longrightarrow> returns r' P) \<Longrightarrow> returns (if b then r else r') P"
  by simp

lemma returns_for_up:
  assumes "P s" "\<And>i t. lo \<le> i \<Longrightarrow> i < hi \<Longrightarrow> P t \<Longrightarrow> returns (body i t) P" "lo \<le> hi"
  shows "returns (for_up lo hi body s) P"
  using for_up_rule [of "\<lambda>_. P" lo s hi body] assms by (auto simp: returns_def)

section \<open>Bits and bytes\<close>

lemma bit_test_1 [bit_tests]: "(drop_bit n w AND 1 = (1 :: 'a::len word)) = bit w n"
  by (metis and_one_eq bit_iff_odd_drop_bit odd_iff_mod_2_eq_one)

lemma bit_test_0 [bit_tests]: "(drop_bit n w AND 1 = (0 :: 'a::len word)) = (\<not> bit w n)"
  by (metis and_one_eq bit_iff_odd_drop_bit even_iff_mod_2_eq_zero)

lemma bit_test_0_1 [bit_tests]: "(w AND 1 = (1 :: 'a::len word)) = bit w 0"
  using bit_test_1 [of 0 w] by simp

lemma bit_test_0_0 [bit_tests]: "(w AND 1 = (0 :: 'a::len word)) = (\<not> bit w 0)"
  using bit_test_0 [of 0 w] by simp

lemma bit_255 [simp]: "bit (255 :: 'a::len word) n = (n < min LENGTH('a) 8)"
proof -
  have "(255 :: 'a word) = mask 8"
    by (simp add: mask_eq_exp_minus_1)
  then show ?thesis by (simp only: bit_mask_iff) auto
qed

text \<open>The bytes of a half-word, and a half-word from its bytes (little endian).\<close>

definition lo8 :: "u16 \<Rightarrow> u8" where
  "lo8 w = ucast (w AND 0xFF)"

definition hi8 :: "u16 \<Rightarrow> u8" where
  "hi8 w = ucast (drop_bit 8 w AND 0xFF)"

definition le16 :: "u8 \<Rightarrow> u8 \<Rightarrow> u16" where
  "le16 lo hi = ucast lo OR push_bit 8 (ucast hi)"

lemma bit_lo8: "bit (lo8 w) n = (n < 8 \<and> bit w n)"
  unfolding lo8_def by (simp only: bit_unsigned_iff bit_and_iff bit_255) (auto simp: bit_simps)

lemma bit_hi8: "bit (hi8 w) n = (n < 8 \<and> bit w (8 + n))"
  unfolding hi8_def by (simp only: bit_unsigned_iff bit_and_iff bit_255) (auto simp: bit_simps)

lemma bit_le16: "bit (le16 lo hi) n = (if n < 8 then bit lo n else n < 16 \<and> bit hi (n - 8))"
  by (auto simp: le16_def bit_simps dest: bit_imp_le_length)

lemma le16_lo8_hi8 [simp]: "le16 (lo8 w) (hi8 w) = w"
  by (rule bit_word_eqI) (auto simp: bit_le16 bit_lo8 bit_hi8)

lemma lo8_le16 [simp]: "lo8 (le16 a b) = a"
  by (rule bit_word_eqI) (auto simp: bit_le16 bit_lo8)

lemma hi8_le16 [simp]: "hi8 (le16 a b) = b"
  by (rule bit_word_eqI) (auto simp: bit_le16 bit_hi8)

lemma le16_inject [simp]: "le16 a b = le16 c d \<longleftrightarrow> a = c \<and> b = d"
  by (metis hi8_le16 lo8_le16)

lemma lo8_ucast: "lo8 w = ucast w"
  by (rule bit_word_eqI) (auto simp: bit_lo8 bit_simps)

lemma hi8_small: "unat w < 256 \<Longrightarrow> hi8 w = 0"
proof -
  assume "unat w < 256"
  then have "drop_bit 8 w = 0" by (simp add: drop_bit_eq_div word_unat_eq_iff unat_div_distrib)
  then show ?thesis unfolding hi8_def by simp
qed

text \<open>The bytes of a half-word array in memory, and back.\<close>

fun u16s_bytes :: "u16 list \<Rightarrow> u8 list" where
  "u16s_bytes [] = []"
| "u16s_bytes (w # ws) = lo8 w # hi8 w # u16s_bytes ws"

fun bytes_u16s :: "u8 list \<Rightarrow> u16 list" where
  "bytes_u16s (a # b # bs) = le16 a b # bytes_u16s bs"
| "bytes_u16s _ = []"

lemma length_u16s_bytes [simp]: "length (u16s_bytes ws) = 2 * length ws"
  by (induction ws) auto

lemma bytes_u16s_bytes [simp]: "bytes_u16s (u16s_bytes ws) = ws"
  by (induction ws) auto

lemma length_bytes_u16s [simp]: "length (bytes_u16s bs) = length bs div 2"
  by (induction bs rule: bytes_u16s.induct) auto

lemma u16s_bytes_append: "u16s_bytes (xs @ ys) = u16s_bytes xs @ u16s_bytes ys"
  by (induction xs) auto

lemma drop_u16s_bytes: "drop (2 * n) (u16s_bytes ws) = u16s_bytes (drop n ws)"
proof (induction n arbitrary: ws)
  case 0
  then show ?case by simp
next
  case (Suc n)
  then show ?case by (cases ws) auto
qed

lemma take_u16s_bytes: "take (2 * n) (u16s_bytes ws) = u16s_bytes (take n ws)"
proof (induction n arbitrary: ws)
  case 0
  then show ?case by simp
next
  case (Suc n)
  then show ?case by (cases ws) auto
qed

section \<open>Lists and options\<close>

lemma bind_eq_SomeD: "Option.bind x f = Some y \<Longrightarrow> \<exists>z. x = Some z \<and> f z = Some y"
  by (cases x) auto

lemma list_all_update:
  "list_all P xs \<Longrightarrow> P v \<Longrightarrow> list_all P (xs[i := v])"
  by (auto simp: list_all_iff dest!: subsetD [OF set_update_subset_insert])

lemma list_all_nth_iff: "list_all P xs \<longleftrightarrow> (\<forall>i < length xs. P (xs ! i))"
  by (simp add: list_all_length)

lemma unat_less_256: "unat (b :: u8) < 256"
  using unsigned_less [of b] by simp

lemma unat_less_65536: "unat (w :: u16) < 65536"
  using unsigned_less [of w] by simp

lemma unat_ucast_u8_u16 [simp]: "unat (ucast (b :: u8) :: u16) = unat b"
proof -
  have "unat (ucast b :: u16) = unat b mod 2 ^ 16"
    by (simp add: unsigned_ucast_eq take_bit_eq_mod)
  also have "\<dots> = unat b" using unat_less_256 [of b] by simp
  finally show ?thesis .
qed

lemma ucast_u8_u16_u8 [simp]: "ucast (ucast (b :: u8) :: u16) = b"
  by (rule bit_word_eqI) (auto simp: bit_simps)

end
