(* ===== verification/Ring.thy ===== *)
theory Ring
  imports Prelude
begin

text \<open>
  The circular queues of the firmware. Four of them share one layout (\<open>queue\<close>,
  \<open>front\<close>, \<open>rear\<close>, \<open>len\<close>, \<open>maxSize\<close>) and one algorithm: the message queue
  of fun.c, the RS-485 command queue and the module-status queue of logic_ctrl.c, and the
  CAN frame queue of can_bus.c. fun.c writes the algorithm as functions of a queue
  pointer; the other three repeat the same statements on a global. The algorithm is
  modelled once here; each component instantiates it.

  The locale \<open>bounded_fifo\<close> is what the clients of a queue rely on. \<open>ring_list\<close>
  reads the queued elements off the array, and the refinement lemmas show that the array
  code implements the bounded first-in first-out queue of the locale.
\<close>

section \<open>The interface\<close>

locale bounded_fifo =
  fixes empty :: 'q
    and enq :: "'q \<Rightarrow> 'a \<Rightarrow> 'q"
    and deq :: "'q \<Rightarrow> 'a option \<times> 'q"
    and is_free :: "'q \<Rightarrow> bool"
    and contents :: "'q \<Rightarrow> 'a list"
    and invar :: "'q \<Rightarrow> bool"
    and cap :: nat
  assumes invar_empty: "invar empty"
    and contents_empty: "contents empty = []"
    and invar_enq: "invar q \<Longrightarrow> invar (enq q x)"
    and contents_enq: "invar q \<Longrightarrow>
      contents (enq q x) = (if length (contents q) < cap then contents q @ [x] else contents q)"
    and invar_deq: "invar q \<Longrightarrow> invar (snd (deq q))"
    and deq_empty: "invar q \<Longrightarrow> contents q = [] \<Longrightarrow> deq q = (None, q)"
    and deq_fst: "invar q \<Longrightarrow> contents q = x # xs \<Longrightarrow> fst (deq q) = Some x"
    and deq_snd: "invar q \<Longrightarrow> contents q = x # xs \<Longrightarrow> contents (snd (deq q)) = xs"
    and is_free_iff: "invar q \<Longrightarrow> is_free q = (contents q = [])"
    and contents_cap: "invar q \<Longrightarrow> length (contents q) \<le> cap"
begin

definition enq_all :: "'a list \<Rightarrow> 'q \<Rightarrow> 'q" where
  "enq_all xs q = fold (\<lambda>x q. enq q x) xs q"

lemma enq_all_simps [simp]:
  "enq_all [] q = q" "enq_all (x # xs) q = enq_all xs (enq q x)"
  by (simp_all add: enq_all_def)

lemma invar_enq_all: "invar q \<Longrightarrow> invar (enq_all xs q)"
  by (induction xs arbitrary: q) (auto simp: invar_enq)

text \<open>Adding a list keeps what was queued and appends as much of it as fits.\<close>

lemma contents_enq_all:
  "invar q \<Longrightarrow> contents (enq_all xs q) = contents q @ take (cap - length (contents q)) xs"
proof (induction xs arbitrary: q)
  case Nil
  then show ?case by simp
next
  case (Cons x xs)
  show ?case
  proof (cases "length (contents q) < cap")
    case True
    with Cons have "contents (enq_all (x # xs) q) =
        (contents q @ [x]) @ take (cap - length (contents q @ [x])) xs"
      by (simp add: contents_enq invar_enq)
    moreover from True have "cap - length (contents q) = Suc (cap - length (contents q @ [x]))"
      by simp
    ultimately show ?thesis by simp
  next
    case False
    with Cons show ?thesis by (simp add: contents_enq invar_enq)
  qed
qed

lemma list_all_enq:
  "invar q \<Longrightarrow> list_all P (contents q) \<Longrightarrow> P x \<Longrightarrow> list_all P (contents (enq q x))"
  by (simp add: contents_enq)

lemma list_all_enq_all:
  assumes "invar q" "list_all P (contents q)" "list_all P xs"
  shows "list_all P (contents (enq_all xs q))"
  using assms by (auto simp: contents_enq_all list_all_iff dest: in_set_takeD)

lemma deq_cases:
  assumes "invar q"
  obtains (empty) "contents q = []" "deq q = (None, q)"
    | (elem) x xs q' where "contents q = x # xs" "deq q = (Some x, q')" "contents q' = xs" "invar q'"
proof (cases "contents q")
  case Nil
  with assms deq_empty show ?thesis using that(1) by blast
next
  case (Cons x xs)
  with assms have "fst (deq q) = Some x" "contents (snd (deq q)) = xs" "invar (snd (deq q))"
    by (simp_all add: deq_fst deq_snd invar_deq)
  with Cons show ?thesis using that(2) [of x xs "snd (deq q)"]
    by (metis prod.collapse)
qed

lemma deq_list_all:
  assumes "invar q" "list_all P (contents q)"
  shows "list_all P (contents (snd (deq q))) \<and> (\<forall>x. fst (deq q) = Some x \<longrightarrow> P x)"
  using assms(1) by (cases rule: deq_cases) (use assms(2) in auto)

text \<open>Taking \<open>n\<close> elements out.\<close>

primrec deq_n :: "nat \<Rightarrow> 'q \<Rightarrow> 'a list \<times> 'q" where
  "deq_n 0 q = ([], q)"
| "deq_n (Suc n) q =
     (case deq q of (None, q') \<Rightarrow> ([], q')
      | (Some x, q') \<Rightarrow> (let (xs, q'') = deq_n n q' in (x # xs, q'')))"

lemma deq_n_contents:
  assumes "invar q"
  shows "fst (deq_n n q) = take n (contents q) \<and> contents (snd (deq_n n q)) = drop n (contents q)
    \<and> invar (snd (deq_n n q))"
  using assms
proof (induction n arbitrary: q)
  case 0
  then show ?case by simp
next
  case (Suc n)
  from Suc.prems show ?case
  proof (cases rule: deq_cases)
    case empty
    with Suc.prems show ?thesis by simp
  next
    case (elem x xs q')
    with Suc.IH [of q'] show ?thesis by (simp add: split_beta)
  qed
qed

text \<open>First in, first out, with nothing lost below the capacity.\<close>

lemma fifo_round_trip:
  assumes "invar q" "length (contents q) + length xs \<le> cap"
  shows "fst (deq_n (length (contents q) + length xs) (enq_all xs q)) = contents q @ xs"
  using assms by (simp add: deq_n_contents invar_enq_all contents_enq_all)

end

section \<open>The array code\<close>

text \<open>\<open>len\<close> of the C structs is never read or written; it is the field \<open>qlen\<close>.\<close>

record 'a ring =
  queue :: "'a list"
  front :: u16
  rear :: u16
  qlen :: u16
  maxSize :: u16

definition initQueue :: "'a list \<Rightarrow> u16 \<Rightarrow> 'a ring \<Rightarrow> 'a ring" where
  "initQueue buff ms q = q\<lparr>maxSize := ms, queue := buff, front := 0, rear := 0\<rparr>"

text \<open>The sums are computed in \<open>int\<close>, so the increment itself does not wrap.\<close>

definition enQueue :: "'a ring \<Rightarrow> 'a \<Rightarrow> 'a ring" where
  "enQueue q x =
     (if (unat (rear q) + 1) mod unat (maxSize q) = unat (front q) then q
      else let r = (of_nat ((unat (rear q) + 1) mod unat (maxSize q)) :: u16)
           in q\<lparr>rear := r, queue := (queue q)[unat r := x]\<rparr>)"

definition outQueue :: "'a ring \<Rightarrow> 'a option \<times> 'a ring" where
  "outQueue q =
     (if front q = rear q then (None, q)
      else let f = (of_nat ((unat (front q) + 1) mod unat (maxSize q)) :: u16)
           in (Some (queue q ! unat f), q\<lparr>front := f\<rparr>))"

definition IsQueueFree :: "'a ring \<Rightarrow> bool" where
  "IsQueueFree q = (front q = rear q)"

section \<open>Invariant and abstraction\<close>

text \<open>\<open>ring_inv N\<close>: initialised for an array of \<open>N\<close> slots, both indices inside it.\<close>

definition ring_inv :: "nat \<Rightarrow> 'a ring \<Rightarrow> bool" where
  "ring_inv N q \<longleftrightarrow> unat (maxSize q) = N \<and> length (queue q) = N \<and>
     unat (front q) < N \<and> unat (rear q) < N"

definition ring_count :: "nat \<Rightarrow> 'a ring \<Rightarrow> nat" where
  "ring_count N q =
     (if unat (front q) \<le> unat (rear q) then unat (rear q) - unat (front q)
      else unat (rear q) + N - unat (front q))"

definition ring_list :: "nat \<Rightarrow> 'a ring \<Rightarrow> 'a list" where
  "ring_list N q =
     map (\<lambda>k. queue q ! ((unat (front q) + 1 + k) mod N)) [0..<ring_count N q]"

lemma length_ring_list [simp]: "length (ring_list N q) = ring_count N q"
  by (simp add: ring_list_def)

lemma mod_once: "(a::nat) < m \<Longrightarrow> k < m \<Longrightarrow>
    Suc (a + k) mod m = (if Suc (a + k) < m then Suc (a + k) else Suc (a + k) - m)"
  by (simp add: mod_if)

lemma next_index: "(a::nat) < m \<Longrightarrow> Suc a mod m = (if Suc a < m then Suc a else 0)"
  by (auto simp: mod_if)

lemma unat_of_nat_small: "n < 65536 \<Longrightarrow> unat (of_nat n :: u16) = n"
  by (simp add: unat_of_nat take_bit_nat_eq_self)

lemma unat_next:
  "a < N \<Longrightarrow> N < 65536 \<Longrightarrow> unat (of_nat (Suc a mod N) :: u16) = Suc a mod N"
  by (intro unat_of_nat_small) (auto simp: mod_if)

lemma ring_inv_init:
  "1 < N \<Longrightarrow> N < 65536 \<Longrightarrow> length buff = N \<Longrightarrow> ring_inv N (initQueue buff (of_nat N) q)"
  by (simp add: ring_inv_def initQueue_def unat_of_nat_small)

lemma ring_list_init [simp]: "ring_list N (initQueue buff ms q) = []"
  by (simp add: ring_list_def ring_count_def initQueue_def)

lemma ring_count_less: "ring_inv N q \<Longrightarrow> ring_count N q < N"
  by (auto simp: ring_inv_def ring_count_def)

text \<open>The full test of the code is: one slot is left unused.\<close>

lemma ring_full_iff:
  assumes "ring_inv N q" "1 < N"
  shows "(unat (rear q) + 1) mod N = unat (front q) \<longleftrightarrow> ring_count N q = N - 1"
  using assms by (auto simp: ring_inv_def ring_count_def next_index)

lemma ring_empty_iff:
  assumes "ring_inv N q"
  shows "front q = rear q \<longleftrightarrow> ring_count N q = 0"
  using assms by (auto simp: ring_inv_def ring_count_def word_unat_eq_iff split: if_splits)

lemma ring_list_Nil_iff: "ring_list N q = [] \<longleftrightarrow> ring_count N q = 0"
  by (simp add: ring_list_def)

lemma enQueue_room:
  assumes "ring_inv N q" "N < 65536" "Suc (unat (rear q)) mod N \<noteq> unat (front q)"
  obtains R where "enQueue q x = q\<lparr>rear := R, queue := (queue q)[Suc (unat (rear q)) mod N := x]\<rparr>"
    and "unat R = Suc (unat (rear q)) mod N"
  using assms that [of "of_nat (Suc (unat (rear q)) mod N)"]
  by (simp add: ring_inv_def enQueue_def Let_def unat_next)

lemma enQueue_full:
  assumes "ring_inv N q" "Suc (unat (rear q)) mod N = unat (front q)"
  shows "enQueue q x = q"
  using assms by (simp add: ring_inv_def enQueue_def)

lemma enQueue_inv:
  assumes "ring_inv N q" "1 < N" "N < 65536"
  shows "ring_inv N (enQueue q x)"
  using assms by (auto simp: ring_inv_def enQueue_def Let_def unat_next)

lemma ring_count_enQueue:
  assumes "ring_inv N q" "1 < N" "N < 65536"
  shows "ring_count N (enQueue q x) = (if ring_count N q < N - 1 then ring_count N q + 1 else ring_count N q)"
proof (cases "Suc (unat (rear q)) mod N = unat (front q)")
  case True
  with assms ring_full_iff [OF assms(1,2)] show ?thesis
    by (simp add: enQueue_full)
next
  case False
  then have room: "ring_count N q < N - 1"
    using ring_full_iff [OF assms(1,2)] ring_count_less [OF assms(1)] by simp
  obtain R where "enQueue q x = q\<lparr>rear := R, queue := (queue q)[Suc (unat (rear q)) mod N := x]\<rparr>"
    and "unat R = Suc (unat (rear q)) mod N"
    using enQueue_room [OF assms(1,3) False] .
  with False room assms show ?thesis
    by (auto simp: ring_inv_def ring_count_def next_index)
qed

text \<open>The slot that \<open>enQueue\<close> writes is the one after the last queued element, and none
  of the queued elements is in it.\<close>

lemma ring_slot:
  assumes "ring_inv N q" "ring_count N q < N - 1" "k \<le> ring_count N q"
  shows "(unat (front q) + 1 + k) mod N = (unat (rear q) + 1) mod N \<longleftrightarrow> k = ring_count N q"
  using assms by (auto simp: ring_inv_def ring_count_def mod_once next_index split: if_splits)

lemma enQueue_list:
  assumes inv: "ring_inv N q" and N: "1 < N" "N < 65536"
  shows "ring_list N (enQueue q x) =
    (if length (ring_list N q) < N - 1 then ring_list N q @ [x] else ring_list N q)"
proof (cases "Suc (unat (rear q)) mod N = unat (front q)")
  case True
  with inv ring_full_iff [OF inv N(1)] show ?thesis
    by (simp add: enQueue_full)
next
  case False
  let ?r = "Suc (unat (rear q)) mod N"
  from False have c: "ring_count N q < N - 1"
    using ring_full_iff [OF inv N(1)] ring_count_less [OF inv] by simp
  obtain R where eq: "enQueue q x = q\<lparr>rear := R, queue := (queue q)[?r := x]\<rparr>" and "unat R = ?r"
    using enQueue_room [OF inv N(2) False] .
  have r: "?r < length (queue q)"
    using inv N by (simp add: ring_inv_def)
  have new: "ring_count N (enQueue q x) = Suc (ring_count N q)"
    using ring_count_enQueue [OF inv N] c by simp
  have keep: "queue (enQueue q x) ! ((unat (front q) + 1 + k) mod N) =
      (if k = ring_count N q then x else queue q ! ((unat (front q) + 1 + k) mod N))"
    if "k \<le> ring_count N q" for k
    using ring_slot [OF inv c that] r by (auto simp: eq nth_list_update)
  have "front (enQueue q x) = front q" by (simp add: eq)
  then show ?thesis
    using c keep by (auto simp: ring_list_def new intro!: nth_equalityI simp: nth_append)
qed

lemma outQueue_inv:
  assumes "ring_inv N q" "1 < N" "N < 65536"
  shows "ring_inv N (snd (outQueue q))"
  using assms by (auto simp: ring_inv_def outQueue_def Let_def unat_next)

lemma outQueue_empty:
  assumes "ring_inv N q" "ring_list N q = []"
  shows "outQueue q = (None, q)"
  using assms ring_empty_iff [OF assms(1)] by (simp add: outQueue_def ring_list_Nil_iff)

lemma outQueue_elem:
  assumes "ring_inv N q" "N < 65536" "0 < ring_count N q"
  obtains F where "outQueue q = (Some (queue q ! (Suc (unat (front q)) mod N)), q\<lparr>front := F\<rparr>)"
    and "unat F = Suc (unat (front q)) mod N"
proof -
  from assms ring_empty_iff [OF assms(1)] have "front q \<noteq> rear q" by auto
  with assms that [of "of_nat (Suc (unat (front q)) mod N)"] show ?thesis
    by (simp add: outQueue_def ring_inv_def Let_def unat_next)
qed

lemma ring_count_front:
  assumes "ring_inv N q" "0 < ring_count N q" "unat F = Suc (unat (front q)) mod N"
  shows "ring_count N (q\<lparr>front := F\<rparr>) = ring_count N q - 1"
  using assms by (auto simp: ring_inv_def ring_count_def next_index split: if_splits)

lemma outQueue_cons:
  assumes inv: "ring_inv N q" and N: "1 < N" "N < 65536" and c: "ring_list N q = x # xs"
  shows "fst (outQueue q) = Some x \<and> ring_list N (snd (outQueue q)) = xs"
proof -
  have len: "ring_count N q = Suc (length xs)"
    using c by (metis length_ring_list length_Cons)
  let ?f = "Suc (unat (front q)) mod N"
  obtain F where eq: "outQueue q = (Some (queue q ! ?f), q\<lparr>front := F\<rparr>)" and F: "unat F = ?f"
    using outQueue_elem [OF inv N(2)] len by (metis zero_less_Suc)
  have cnt: "ring_count N (q\<lparr>front := F\<rparr>) = length xs"
    using ring_count_front [OF inv _ F] len by simp
  have el: "queue q ! ((unat (front q) + 1 + k) mod N) = (x # xs) ! k" if "k < ring_count N q" for k
    using c [symmetric] that by (simp add: ring_list_def)
  from el [of 0] len have "queue q ! ?f = x" by simp
  moreover have "ring_list N (q\<lparr>front := F\<rparr>) ! k = xs ! k" if "k < length xs" for k
  proof -
    have "(?f + 1 + k) mod N = (unat (front q) + 1 + Suc k) mod N"
      by (metis Suc_eq_plus1 add.assoc add_Suc_shift mod_add_left_eq)
    then show ?thesis
      using el [of "Suc k"] that len cnt by (simp add: ring_list_def F)
  qed
  then have "ring_list N (q\<lparr>front := F\<rparr>) = xs"
    by (intro nth_equalityI) (simp_all add: cnt)
  ultimately show ?thesis by (simp add: eq)
qed

text \<open>The algorithm on an array of \<open>N\<close> slots is a bounded queue of capacity
  \<open>N - 1\<close>. The components interpret the locale with this lemma.\<close>

lemma ring_bounded_fifo:
  assumes N: "1 < N" "N < 65536" and buff: "length buff = N"
  shows "bounded_fifo (initQueue buff (of_nat N) q0) enQueue outQueue IsQueueFree
    (ring_list N) (ring_inv N) (N - 1)"
proof (rule bounded_fifo.intro, goal_cases)
  case 1
  then show ?case using N buff by (simp add: ring_inv_init)
next
  case 2
  then show ?case by simp
next
  case (3 q x)
  then show ?case using N by (rule enQueue_inv)
next
  case (4 q x)
  then show ?case using N by (rule enQueue_list)
next
  case (5 q)
  then show ?case using N by (rule outQueue_inv)
next
  case (6 q)
  then show ?case by (rule outQueue_empty)
next
  case (7 q x xs)
  then show ?case using outQueue_cons [OF 7(1) N 7(2)] by simp
next
  case (8 q x xs)
  then show ?case using outQueue_cons [OF 8(1) N 8(2)] by simp
next
  case (9 q)
  then show ?case
    using ring_empty_iff [of N q] by (simp add: IsQueueFree_def ring_list_Nil_iff)
next
  case (10 q)
  then show ?case using ring_count_less [of N q] by simp
qed

end
