(* ===== verification/Types.thy ===== *)
theory Types
  imports Ring
begin

text \<open>
  The structs of the firmware (logic_ctrl.h, can_bus.h, fun.h, udpclient.h) and their
  image in memory. All their fields are 8- or 16-bit, so none has padding, and the target
  is little endian: a struct of half-words is the byte sequence \<open>u16s_bytes\<close> of its
  fields in declaration order. The round-trip lemmas at the end are what the pointer
  casts of the code (\<open>*(USER_PARAS_T*)(pbuf+3)\<close>, \<open>memcpy((u8* )status, pbuf+3, n)\<close>)
  rely on.
\<close>

section \<open>Debounced inputs\<close>

record sInput_Info =
  input_state :: u8
  input_middle_state :: u8
  input_confirm_times :: u8
  input_trig_mode :: u8

record sButton_Info =
  input_info :: sInput_Info
  button_state :: u16
  button_hold_time :: u16
  trig_cnt :: u16

section \<open>User parameters\<close>

record BELT_PARAS_T =
  Func_Select_Switch :: u16
  Gear_1_Speed_Freq :: u16
  Gear_2_Speed_Freq :: u16
  Gear_3_Speed_Freq :: u16
  Gear_4_Speed_Freq :: u16
  Gear_5_Speed_Freq :: u16
  Sleep_Mode_Speed_Freq :: u16
  Start_Delay_Time :: u16
  Stop_Delay_Time :: u16
  Block_Check_Time :: u16
  Sleep_Check_Time :: u16

record USER_PARAS_T =
  Version_No_L :: u16
  Version_No_H :: u16
  Station_No :: u16
  Up_Stream_No :: u16
  Down_Stream_No :: u16
  Belt_Number :: u16
  belt_para :: "BELT_PARAS_T list"

section \<open>Status and commands\<close>

record INVERTER_STATUS_T =
  fault_code :: u16
  input_status :: u16
  line_speed :: u16
  electric_current :: u16
  inverter_freq :: u16

record MODULE_STATUS_T =
  station_no :: u16
  belt_number :: u16
  inverter_status :: "INVERTER_STATUS_T list"

record COMM_NODE_T =
  rw_flag :: u16
  inverter_no :: u16
  speed_gear :: u16
  comm_interval :: u16
  comm_retry :: u16

type_synonym MODULE_STATUS_QUEUE = "MODULE_STATUS_T ring"
type_synonym COMM_SEND_QUEUE = "COMM_NODE_T ring"
type_synonym MSG_SEND_QUEUE = "u16 ring"

section \<open>CAN frames\<close>

record sCanFrameExtID =
  seg_polo :: u8
  seg_num :: u8
  func_id :: u8
  src_id :: u8
  dst_id :: u8

record sCanFrameExt =
  extId :: sCanFrameExtID
  data_len :: u8
  frame_data :: "u8 list"

type_synonym sCAN_SEND_QUEUE = "sCanFrameExt ring"

text \<open>The driver's message structs (stm32f10x_can.h).\<close>

record CanTxMsg =
  Tx_StdId :: u32
  Tx_ExtId :: u32
  Tx_IDE :: u8
  Tx_RTR :: u8
  Tx_DLC :: u8
  Tx_Data :: "u8 list"

record CanRxMsg =
  Rx_StdId :: u32
  Rx_ExtId :: u32
  Rx_IDE :: u8
  Rx_RTR :: u8
  Rx_DLC :: u8
  Rx_Data :: "u8 list"
  Rx_FMI :: u8

section \<open>The UDP client\<close>

text \<open>\<open>echoclient_pcb\<close> is the lwIP control block: only whether it is \<open>NULL\<close> matters
  here.\<close>

record tcp_client_table =
  tcp_recv_buf :: "u8 list"
  tcp_send_buf :: "u8 list"
  tcp_send_en :: u8
  tcp_recv_len :: u16
  tcp_send_len :: u16
  tcp_client_statue :: u8
  tcp_client_Delay_reg :: u16
  echoclient_pcb :: bool
  dest_ip :: "u8 list"
  dest_port :: u16
  connect_is_ok :: u8
  connect_dely :: u8

section \<open>Constants of the headers\<close>

abbreviation (input) "UART1_BUFF_SIZE \<equiv> 50 :: nat"
abbreviation (input) "CAN_PACK_DATA_LEN \<equiv> 8 :: nat"
abbreviation (input) "CAN_TX_BUFF_SIZE \<equiv> 300 :: nat"
abbreviation (input) "CAN_RX_BUFF_SIZE \<equiv> 300 :: nat"
abbreviation (input) "UDP_RECV_BUFF_SIZE \<equiv> 300 :: nat"
abbreviation (input) "UDP_SEND_BUFF_SIZE \<equiv> 300 :: nat"
abbreviation (input) "USER_PARA_DATA_LEN \<equiv> 113 :: nat"
abbreviation (input) "sizeof_USER_PARAS_T \<equiv> 232 :: nat"
abbreviation (input) "sizeof_BELT_PARAS_T \<equiv> 22 :: nat"
abbreviation (input) "sizeof_INVERTER_STATUS_T \<equiv> 10 :: nat"
abbreviation (input) "EMERGENCY_STOP \<equiv> 0xEE :: u8"

abbreviation (input) "SEND_READY \<equiv> 0 :: u8"
abbreviation (input) "RECV_DATA \<equiv> 1 :: u8"
abbreviation (input) "SEND_DATA \<equiv> 2 :: u8"
abbreviation (input) "SENDING_DATA \<equiv> 3 :: u8"
abbreviation (input) "RECV_DATA_END \<equiv> 4 :: u8"

abbreviation (input) "CAN_FUNC_ID_PARA_DATA \<equiv> 0x1 :: u8"
abbreviation (input) "CAN_FUNC_ID_START_CMD \<equiv> 0x2 :: u8"
abbreviation (input) "CAN_FUNC_ID_MODULE_STATUS \<equiv> 0x3 :: u8"
abbreviation (input) "CAN_FUNC_ID_RESET_CMD \<equiv> 0x4 :: u8"
abbreviation (input) "CAN_FUNC_ID_FUNC_SELECT_CMD \<equiv> 0x5 :: u8"
abbreviation (input) "CAN_FUNC_ID_READ_MODULE_STATUS \<equiv> 0x6 :: u8"
abbreviation (input) "CAN_FUNC_ID_BOOT_MODE \<equiv> 0xF :: u8"

abbreviation (input) "CAN_SEG_POLO_NONE \<equiv> 0 :: u8"
abbreviation (input) "CAN_SEG_POLO_FIRST \<equiv> 1 :: u8"
abbreviation (input) "CAN_SEG_POLO_MIDDLE \<equiv> 2 :: u8"
abbreviation (input) "CAN_SEG_POLO_FINAL \<equiv> 3 :: u8"

abbreviation (input) "SEND_MSG_MODULE_STATUS_TYPE \<equiv> 0x1601 :: u16"
abbreviation (input) "RECV_MSG_READ_PARA_CMD_TYPE \<equiv> 0x1603 :: u16"
abbreviation (input) "RECV_MSG_WRITE_PARA_CMD_TYPE \<equiv> 0x1604 :: u16"
abbreviation (input) "RECV_MSG_START_CMD_TYPE \<equiv> 0x1610 :: u16"
abbreviation (input) "RECV_MSG_RESET_CMD_TYPE \<equiv> 0x1611 :: u16"
abbreviation (input) "RECV_MSG_FUNC_SELECT_CMD_TYPE \<equiv> 0x1612 :: u16"
abbreviation (input) "RECV_MSG_BOOT_CMD_TYPE \<equiv> 0x1F01 :: u16"
abbreviation (input) "REPLY_RECV_MSG_READ_PARA_CMD_TYPE \<equiv> 0x9603 :: u16"
abbreviation (input) "REPLY_RECV_MSG_WRITE_PARA_CMD_TYPE \<equiv> 0x9604 :: u16"

abbreviation (input) "CLIENT_DIS_CONNECT \<equiv> 0 :: u8"
abbreviation (input) "CLIENT_CONNECT_OK \<equiv> 1 :: u8"
abbreviation (input) "CLIENT_CONNECT_RECV \<equiv> 2 :: u8"

section \<open>Memory images\<close>

definition belt_u16s :: "BELT_PARAS_T \<Rightarrow> u16 list" where
  "belt_u16s b = [Func_Select_Switch b, Gear_1_Speed_Freq b, Gear_2_Speed_Freq b,
     Gear_3_Speed_Freq b, Gear_4_Speed_Freq b, Gear_5_Speed_Freq b, Sleep_Mode_Speed_Freq b,
     Start_Delay_Time b, Stop_Delay_Time b, Block_Check_Time b, Sleep_Check_Time b]"

definition u16s_belt :: "u16 list \<Rightarrow> BELT_PARAS_T" where
  "u16s_belt ws = \<lparr>Func_Select_Switch = ws ! 0, Gear_1_Speed_Freq = ws ! 1,
     Gear_2_Speed_Freq = ws ! 2, Gear_3_Speed_Freq = ws ! 3, Gear_4_Speed_Freq = ws ! 4,
     Gear_5_Speed_Freq = ws ! 5, Sleep_Mode_Speed_Freq = ws ! 6, Start_Delay_Time = ws ! 7,
     Stop_Delay_Time = ws ! 8, Block_Check_Time = ws ! 9, Sleep_Check_Time = ws ! 10\<rparr>"

text \<open>\<open>paras_u16s\<close> lists the 116 half-words of a parameter block; \<open>u16s_paras\<close> reads a
  block back from 116 half-words.\<close>

definition paras_u16s :: "USER_PARAS_T \<Rightarrow> u16 list" where
  "paras_u16s p = [Version_No_L p, Version_No_H p, Station_No p, Up_Stream_No p,
     Down_Stream_No p, Belt_Number p] @ concat (map belt_u16s (belt_para p))"

definition u16s_paras :: "u16 list \<Rightarrow> USER_PARAS_T" where
  "u16s_paras ws = \<lparr>Version_No_L = ws ! 0, Version_No_H = ws ! 1, Station_No = ws ! 2,
     Up_Stream_No = ws ! 3, Down_Stream_No = ws ! 4, Belt_Number = ws ! 5,
     belt_para = map (\<lambda>k. u16s_belt (take 11 (drop (6 + 11 * k) ws))) [0..<10]\<rparr>"

definition paras_bytes :: "USER_PARAS_T \<Rightarrow> u8 list" where
  "paras_bytes p = u16s_bytes (paras_u16s p)"

definition bytes_paras :: "u8 list \<Rightarrow> USER_PARAS_T" where
  "bytes_paras bs = u16s_paras (bytes_u16s bs)"

definition inverter_u16s :: "INVERTER_STATUS_T \<Rightarrow> u16 list" where
  "inverter_u16s v = [fault_code v, input_status v, line_speed v, electric_current v,
     inverter_freq v]"

definition u16s_inverter :: "u16 list \<Rightarrow> INVERTER_STATUS_T" where
  "u16s_inverter ws = \<lparr>fault_code = ws ! 0, input_status = ws ! 1, line_speed = ws ! 2,
     electric_current = ws ! 3, inverter_freq = ws ! 4\<rparr>"

definition inverters_bytes :: "INVERTER_STATUS_T list \<Rightarrow> u8 list" where
  "inverters_bytes vs = u16s_bytes (concat (map inverter_u16s vs))"

definition bytes_inverters :: "nat \<Rightarrow> u8 list \<Rightarrow> INVERTER_STATUS_T list" where
  "bytes_inverters n bs =
     map (\<lambda>k. u16s_inverter (take 5 (drop (5 * k) (bytes_u16s bs)))) [0..<n]"

text \<open>A parameter block as the C type has it: ten belts.\<close>

definition wf_paras :: "USER_PARAS_T \<Rightarrow> bool" where
  "wf_paras p \<longleftrightarrow> length (belt_para p) = 10"

lemma length_belt_u16s [simp]: "length (belt_u16s b) = 11"
  by (simp add: belt_u16s_def)

lemma u16s_belt_u16s [simp]: "u16s_belt (belt_u16s b) = b"
  by (simp add: u16s_belt_def belt_u16s_def)

lemma length_inverter_u16s [simp]: "length (inverter_u16s v) = 5"
  by (simp add: inverter_u16s_def)

lemma u16s_inverter_u16s [simp]: "u16s_inverter (inverter_u16s v) = v"
  by (simp add: u16s_inverter_def inverter_u16s_def)

text \<open>The \<open>k\<close>-th chunk of a concatenation of equal-length chunks.\<close>

lemma length_concat_chunks:
  "(\<And>x. length (f x) = w) \<Longrightarrow> length (concat (map f xs)) = w * length xs"
  by (induction xs) auto

lemma chunk_concat:
  assumes "\<And>x. length (f x) = w" "k < length xs"
  shows "take w (drop (w * k) (concat (map f xs))) = f (xs ! k)"
  using assms(2)
proof (induction xs arbitrary: k)
  case Nil
  then show ?case by simp
next
  case (Cons x xs)
  show ?case
  proof (cases k)
    case 0
    then show ?thesis using assms(1) by simp
  next
    case (Suc j)
    with Cons assms(1) show ?thesis by simp
  qed
qed

lemma length_paras_u16s [simp]: "wf_paras p \<Longrightarrow> length (paras_u16s p) = 116"
  by (simp add: paras_u16s_def wf_paras_def length_concat_chunks [where w = 11])

lemma length_paras_bytes [simp]: "wf_paras p \<Longrightarrow> length (paras_bytes p) = sizeof_USER_PARAS_T"
  by (simp add: paras_bytes_def)

lemma wf_u16s_paras [simp]: "wf_paras (u16s_paras ws)"
  by (simp add: wf_paras_def u16s_paras_def)

lemma wf_bytes_paras [simp]: "wf_paras (bytes_paras bs)"
  by (simp add: bytes_paras_def)

lemma drop_header_u16s: "drop (6 + n) (paras_u16s p) = drop n (concat (map belt_u16s (belt_para p)))"
  unfolding paras_u16s_def by (subst add.commute, subst drop_drop [symmetric]) simp

lemma u16s_paras_u16s: "wf_paras p \<Longrightarrow> u16s_paras (paras_u16s p) = p"
proof -
  assume wf: "wf_paras p"
  have "map (\<lambda>k. u16s_belt (take 11 (drop (6 + 11 * k) (paras_u16s p)))) [0..<10] = belt_para p"
    using wf by (intro nth_equalityI)
      (simp_all only: drop_header_u16s, simp_all add: wf_paras_def chunk_concat [where w = 11])
  then show ?thesis by (simp add: u16s_paras_def paras_u16s_def)
qed

lemma bytes_paras_bytes: "wf_paras p \<Longrightarrow> bytes_paras (paras_bytes p) = p"
  by (simp add: bytes_paras_def paras_bytes_def u16s_paras_u16s)

lemma length_inverters_bytes [simp]: "length (inverters_bytes vs) = 10 * length vs"
  by (simp add: inverters_bytes_def length_concat_chunks [where w = 5])

lemma length_bytes_inverters [simp]: "length (bytes_inverters n bs) = n"
  by (simp add: bytes_inverters_def)

lemma bytes_inverters_bytes:
  "n = length vs \<Longrightarrow> bytes_inverters n (inverters_bytes vs) = vs"
  by (intro nth_equalityI)
    (simp_all add: bytes_inverters_def inverters_bytes_def chunk_concat [where w = 5])

end
