(* ===== verification/State.thy ===== *)
theory State
  imports Types
begin

text \<open>
  The global variables of the firmware as one record, built up file by file, and the
  peripherals its macros touch. Each C global is a field of the same name.

  Outside the program's control, and so fields that only the environment changes: the
  input registers \<open>IDR\<close>, the flash controller (\<open>hw_erase\<close>, \<open>hw_program\<close>,
  \<open>hw_SR\<close>), the CAN transmit status \<open>TSR\<close>, lwIP's answers, and the \<open>uninit\<close>
  fields, which hold what a local variable contains before its first assignment. What the
  program sends is recorded in \<open>uart_tx\<close> (each byte with the level of the RS-485
  direction pin) and \<open>udp_tx\<close>. \<open>sys_reset\<close> is set by \<open>NVIC_SystemReset\<close>, which
  does not return.
\<close>

datatype gpio_port = GPIOA | GPIOB | GPIOC | GPIOD | GPIOE

record mailbox =
  TIR :: u32
  TDTR :: u32
  TDLR :: u32
  TDHR :: u32

record gpio_st =
  IDR :: "gpio_port \<Rightarrow> u16"
  ODR :: "gpio_port \<Rightarrow> u16"

record flash_st = gpio_st +
  flash_mem :: "u32 \<Rightarrow> u16"
  hw_erase :: "u32 \<Rightarrow> (u32 \<Rightarrow> u16) \<Rightarrow> (u32 \<Rightarrow> u16)"
  hw_program :: "u32 \<Rightarrow> u16 \<Rightarrow> (u32 \<Rightarrow> u16) \<Rightarrow> (u32 \<Rightarrow> u16)"
  hw_SR :: "nat \<Rightarrow> u32"
  sr_reads :: nat
  FLASH_KEYR :: u32
  FLASH_CR :: u32
  FLASH_AR :: u32

record io_st = flash_st +
  TSR :: u32
  sTxMailBox :: "mailbox list"
  uart_tx :: "(bool \<times> u8) list"
  udp_tx :: "u8 list list"
  sys_reset :: bool
  lwip_pcb_free :: bool
  lwip_connect_ok :: bool
  lwip_pbuf_free :: bool

record uninit_st = io_st +
  uninit_node :: COMM_NODE_T
  uninit_frame :: sCanFrameExt
  uninit_status :: MODULE_STATUS_T
  uninit_write_data :: "u16 list"
  uninit_tx_data :: "u8 list"
  uninit_m :: u16
  uninit_dip :: u8

text \<open>main.c\<close>

record main_st = uninit_st +
  LocalTime :: u32
  timingdelay :: u32
  sec_reg :: u16
  sec_flag :: u16
  half_sec_reg :: u16
  half_sec_flag :: u16
  heart_dely :: u8
  local_station :: u8
  isHost :: u8
  upload_time_delay :: u16
  mac_addr :: "u8 list"
  upload_runcnt :: u16
  msone_flag :: u8
  modulestate_readcnt :: u16
  modulestate_index :: u16

text \<open>logic_ctrl.c\<close>

record button_st = main_st +
  bPhoto1Info :: sButton_Info
  bPhoto2Info :: sButton_Info
  bPhoto3Info :: sButton_Info
  bPhoto4Info :: sButton_Info
  bPhoto5Info :: sButton_Info
  bResetInfo :: sButton_Info
  bStartInfo :: sButton_Info
  bStopInfo :: sButton_Info
  bStreamInfo :: sButton_Info
  bEmergencyInfo :: sButton_Info

record logic_st = button_st +
  user_paras_local :: USER_PARAS_T
  user_paras_slave :: USER_PARAS_T
  user_paras_temp :: USER_PARAS_T
  inverter_status_buffer :: "INVERTER_STATUS_T list"
  moduleStatusQueue :: MODULE_STATUS_QUEUE
  uartSendQueue :: COMM_SEND_QUEUE
  comm_node :: COMM_NODE_T
  comm_busy_flag :: u8
  polling_num :: u8
  g_link_up_stream_status :: u8
  g_link_down_stream_status :: u8
  g_speed_gear_status :: u8
  g_block_disable_flag :: u8
  block_check_time_cnt :: "u32 list"
  reset_start_time_cnt :: u16
  reset_start_flag :: u8

text \<open>modbus_rtu.c\<close>

record modbus_st = logic_st +
  uart1_send_buff :: "u8 list"
  uart1_recv_buff :: "u8 list"
  uart1_send_count :: u16
  uart1_recv_count :: u16
  uart1_commu_state :: u8
  uart1_tmr :: u16
  g_speed_set_sta :: u8
  stopspeed_default :: "u16 list"
  freq_check_cnt :: u16

text \<open>can_bus.c, fun.c, udpclient.c. \<open>tcp_client_list\<close> has one element
  (\<open>TCP_CLIENT_MAX_NUM\<close> is 1) and is always indexed by 0.\<close>

record fw = modbus_st +
  canSendQueue :: sCAN_SEND_QUEUE
  can_send_buff :: "u8 list"
  can_send_len :: u16
  can_recv_buff :: "u8 list"
  can_recv_len :: u16
  g_SegPolo :: u8
  g_SegNum :: u8
  g_SegBytes :: u16
  msgSendQueue :: MSG_SEND_QUEUE
  tcp_client :: tcp_client_table

end
