(* ===== verification/Checksum.thy ===== *)
theory Checksum
  imports Prelude
begin

text \<open>
  What the two checksums of the firmware (the CRC of the Modbus frames and the exclusive-or of
  the server messages) have in common: the bytes are folded into a value one by one, and
  neither a byte nor the value before it can be changed without changing the value after it.
  From these two laws it follows that a single changed byte always changes the checksum.
\<close>

locale checksum =
  fixes init :: 's and step :: "'s \<Rightarrow> u8 \<Rightarrow> 's"
  assumes inj_state: "step w b = step w' b \<Longrightarrow> w = w'"
    and inj_byte: "step w b = step w b' \<Longrightarrow> b = b'"
begin

definition digest_from :: "'s \<Rightarrow> u8 list \<Rightarrow> 's" where
  "digest_from w bs = fold (\<lambda>b w. step w b) bs w"

definition digest :: "u8 list \<Rightarrow> 's" where
  "digest bs = digest_from init bs"

lemma digest_from_simps [simp]:
  "digest_from w [] = w" "digest_from w (b # bs) = digest_from (step w b) bs"
  "digest_from w (xs @ ys) = digest_from (digest_from w xs) ys"
  by (simp_all add: digest_from_def)

lemma digest_from_inj: "digest_from w bs = digest_from w' bs \<longleftrightarrow> w = w'"
  by (induction bs arbitrary: w w') (auto dest: inj_state)

lemma digest_append: "digest (xs @ ys) = digest_from (digest xs) ys"
  by (simp add: digest_def)

text \<open>The checksums of two messages that agree outside a middle part.\<close>

lemma digest_middle: "digest (pre @ m @ post) = digest (pre @ m' @ post) \<longleftrightarrow> digest (pre @ m) = digest (pre @ m')"
  by (simp add: digest_append digest_from_inj)

lemma single_byte_detected:
  assumes "a \<noteq> a'"
  shows "digest (pre @ [a] @ post) \<noteq> digest (pre @ [a'] @ post)"
  using assms by (subst digest_middle) (auto simp: digest_append dest: inj_byte)

end

end
