(* ===== verification/Crc.thy ===== *)
theory Crc
  imports State Checksum
begin

text \<open>
  The checksum of modbus_rtu.c: \<open>CRC_sub\<close> walks the bytes through two 256-entry tables.
  The reference definition \<open>crc16\<close> is the bit-serial CRC-16 of the Modbus
  specification (reflected polynomial 0xA001, initial value 0xFFFF), and the table code is
  shown equal to it on every byte sequence. From the table code follow two properties of
  the check itself: a change of a single byte is always noticed, and appending the
  checksum high byte first gives a frame whose recomputed checksum matches its tail.
\<close>

section \<open>The table-driven code\<close>

definition CRCHi :: "u8 list" where
  "CRCHi = [
    0x00, 0xC1, 0x81, 0x40, 0x01, 0xC0, 0x80, 0x41, 0x01, 0xC0, 0x80, 0x41, 0x00, 0xC1, 0x81, 0x40,
    0x01, 0xC0, 0x80, 0x41, 0x00, 0xC1, 0x81, 0x40, 0x00, 0xC1, 0x81, 0x40, 0x01, 0xC0, 0x80, 0x41,
    0x01, 0xC0, 0x80, 0x41, 0x00, 0xC1, 0x81, 0x40, 0x00, 0xC1, 0x81, 0x40, 0x01, 0xC0, 0x80, 0x41,
    0x00, 0xC1, 0x81, 0x40, 0x01, 0xC0, 0x80, 0x41, 0x01, 0xC0, 0x80, 0x41, 0x00, 0xC1, 0x81, 0x40,
    0x01, 0xC0, 0x80, 0x41, 0x00, 0xC1, 0x81, 0x40, 0x00, 0xC1, 0x81, 0x40, 0x01, 0xC0, 0x80, 0x41,
    0x00, 0xC1, 0x81, 0x40, 0x01, 0xC0, 0x80, 0x41, 0x01, 0xC0, 0x80, 0x41, 0x00, 0xC1, 0x81, 0x40,
    0x00, 0xC1, 0x81, 0x40, 0x01, 0xC0, 0x80, 0x41, 0x01, 0xC0, 0x80, 0x41, 0x00, 0xC1, 0x81, 0x40,
    0x01, 0xC0, 0x80, 0x41, 0x00, 0xC1, 0x81, 0x40, 0x00, 0xC1, 0x81, 0x40, 0x01, 0xC0, 0x80, 0x41,
    0x01, 0xC0, 0x80, 0x41, 0x00, 0xC1, 0x81, 0x40, 0x00, 0xC1, 0x81, 0x40, 0x01, 0xC0, 0x80, 0x41,
    0x00, 0xC1, 0x81, 0x40, 0x01, 0xC0, 0x80, 0x41, 0x01, 0xC0, 0x80, 0x41, 0x00, 0xC1, 0x81, 0x40,
    0x00, 0xC1, 0x81, 0x40, 0x01, 0xC0, 0x80, 0x41, 0x01, 0xC0, 0x80, 0x41, 0x00, 0xC1, 0x81, 0x40,
    0x01, 0xC0, 0x80, 0x41, 0x00, 0xC1, 0x81, 0x40, 0x00, 0xC1, 0x81, 0x40, 0x01, 0xC0, 0x80, 0x41,
    0x00, 0xC1, 0x81, 0x40, 0x01, 0xC0, 0x80, 0x41, 0x01, 0xC0, 0x80, 0x41, 0x00, 0xC1, 0x81, 0x40,
    0x01, 0xC0, 0x80, 0x41, 0x00, 0xC1, 0x81, 0x40, 0x00, 0xC1, 0x81, 0x40, 0x01, 0xC0, 0x80, 0x41,
    0x01, 0xC0, 0x80, 0x41, 0x00, 0xC1, 0x81, 0x40, 0x00, 0xC1, 0x81, 0x40, 0x01, 0xC0, 0x80, 0x41,
    0x00, 0xC1, 0x81, 0x40, 0x01, 0xC0, 0x80, 0x41, 0x01, 0xC0, 0x80, 0x41, 0x00, 0xC1, 0x81, 0x40]"

definition CRCLo :: "u8 list" where
  "CRCLo = [
    0x00, 0xC0, 0xC1, 0x01, 0xC3, 0x03, 0x02, 0xC2, 0xC6, 0x06, 0x07, 0xC7, 0x05, 0xC5, 0xC4, 0x04,
    0xCC, 0x0C, 0x0D, 0xCD, 0x0F, 0xCF, 0xCE, 0x0E, 0x0A, 0xCA, 0xCB, 0x0B, 0xC9, 0x09, 0x08, 0xC8,
    0xD8, 0x18, 0x19, 0xD9, 0x1B, 0xDB, 0xDA, 0x1A, 0x1E, 0xDE, 0xDF, 0x1F, 0xDD, 0x1D, 0x1C, 0xDC,
    0x14, 0xD4, 0xD5, 0x15, 0xD7, 0x17, 0x16, 0xD6, 0xD2, 0x12, 0x13, 0xD3, 0x11, 0xD1, 0xD0, 0x10,
    0xF0, 0x30, 0x31, 0xF1, 0x33, 0xF3, 0xF2, 0x32, 0x36, 0xF6, 0xF7, 0x37, 0xF5, 0x35, 0x34, 0xF4,
    0x3C, 0xFC, 0xFD, 0x3D, 0xFF, 0x3F, 0x3E, 0xFE, 0xFA, 0x3A, 0x3B, 0xFB, 0x39, 0xF9, 0xF8, 0x38,
    0x28, 0xE8, 0xE9, 0x29, 0xEB, 0x2B, 0x2A, 0xEA, 0xEE, 0x2E, 0x2F, 0xEF, 0x2D, 0xED, 0xEC, 0x2C,
    0xE4, 0x24, 0x25, 0xE5, 0x27, 0xE7, 0xE6, 0x26, 0x22, 0xE2, 0xE3, 0x23, 0xE1, 0x21, 0x20, 0xE0,
    0xA0, 0x60, 0x61, 0xA1, 0x63, 0xA3, 0xA2, 0x62, 0x66, 0xA6, 0xA7, 0x67, 0xA5, 0x65, 0x64, 0xA4,
    0x6C, 0xAC, 0xAD, 0x6D, 0xAF, 0x6F, 0x6E, 0xAE, 0xAA, 0x6A, 0x6B, 0xAB, 0x69, 0xA9, 0xA8, 0x68,
    0x78, 0xB8, 0xB9, 0x79, 0xBB, 0x7B, 0x7A, 0xBA, 0xBE, 0x7E, 0x7F, 0xBF, 0x7D, 0xBD, 0xBC, 0x7C,
    0xB4, 0x74, 0x75, 0xB5, 0x77, 0xB7, 0xB6, 0x76, 0x72, 0xB2, 0xB3, 0x73, 0xB1, 0x71, 0x70, 0xB0,
    0x50, 0x90, 0x91, 0x51, 0x93, 0x53, 0x52, 0x92, 0x96, 0x56, 0x57, 0x97, 0x55, 0x95, 0x94, 0x54,
    0x9C, 0x5C, 0x5D, 0x9D, 0x5F, 0x9F, 0x9E, 0x5E, 0x5A, 0x9A, 0x9B, 0x5B, 0x99, 0x59, 0x58, 0x98,
    0x88, 0x48, 0x49, 0x89, 0x4B, 0x8B, 0x8A, 0x4A, 0x4E, 0x8E, 0x8F, 0x4F, 0x8D, 0x4D, 0x4C, 0x8C,
    0x44, 0x84, 0x85, 0x45, 0x87, 0x47, 0x46, 0x86, 0x82, 0x42, 0x43, 0x83, 0x41, 0x81, 0x80, 0x40]"

text \<open>One turn of the loop of \<open>CRC_sub\<close>, on \<open>(CRC_Hi, CRC_Lo)\<close>. The index is a
  byte and the tables have 256 entries.\<close>

definition CRC_step :: "u8 \<times> u8 \<Rightarrow> u8 \<Rightarrow> u8 \<times> u8" where
  "CRC_step c b = (let i = fst c XOR b in (snd c XOR CRCHi ! unat i, CRCLo ! unat i))"

fun CRC_loop :: "u8 list \<Rightarrow> u8 \<times> u8 \<Rightarrow> u8 \<times> u8" where
  "CRC_loop [] c = c"
| "CRC_loop (b # bs) c = CRC_loop bs (CRC_step c b)"

definition CRC_sub :: "u8 list \<Rightarrow> u16 \<Rightarrow> u8 \<Rightarrow> u16" where
  "CRC_sub bs InitVal exchange =
     (let (CRC_Hi, CRC_Lo) = CRC_loop bs (ucast (drop_bit 8 InitVal), ucast InitVal)
      in if exchange = 0 then push_bit 8 (ucast CRC_Hi) OR ucast CRC_Lo
         else push_bit 8 (ucast CRC_Lo) OR ucast CRC_Hi)"

text \<open>\<open>get_CRC(head, len)\<close> reads the first \<open>len\<close> bytes of the array \<open>head\<close>.\<close>

definition get_CRC :: "u8 list \<Rightarrow> nat \<Rightarrow> u16 option" where
  "get_CRC head len =
     (if len \<le> length head then Some (CRC_sub (take len head) 0xFFFF 0) else None)"

section \<open>The bit-serial reference\<close>

definition crc_bit :: "u16 \<Rightarrow> u16" where
  "crc_bit w = (if bit w 0 then drop_bit 1 w XOR 0xA001 else drop_bit 1 w)"

definition crc_byte :: "u16 \<Rightarrow> u8 \<Rightarrow> u16" where
  "crc_byte w b = (crc_bit ^^ 8) (w XOR ucast b)"

definition crc16 :: "u8 list \<Rightarrow> u16" where
  "crc16 bs = fold (\<lambda>b w. crc_byte w b) bs 0xFFFF"

text \<open>The table entries as a function of the index, bit by bit.\<close>

definition tbl_hi :: "u8 \<Rightarrow> u8" where
  "tbl_hi b = lo8 ((crc_bit ^^ 8) (ucast b))"

definition tbl_lo :: "u8 \<Rightarrow> u8" where
  "tbl_lo b = hi8 ((crc_bit ^^ 8) (ucast b))"

text \<open>A linear table is determined by its entries at the powers of two.\<close>

fun gen_table :: "(u8 \<Rightarrow> u8) \<Rightarrow> nat \<Rightarrow> u8 list" where
  "gen_table g 0 = [0]"
| "gen_table g (Suc k) = gen_table g k @ map (\<lambda>x. x XOR g (2 ^ k)) (gen_table g k)"

section \<open>The tables are the bit-serial steps\<close>

lemma crc_bit_xor: "crc_bit (x XOR y) = crc_bit x XOR crc_bit y"
  by (auto simp: crc_bit_def bit_simps xor.assoc xor.left_commute xor.commute)

lemma crc_bits_xor: "(crc_bit ^^ n) (x XOR y) = (crc_bit ^^ n) x XOR (crc_bit ^^ n) y"
  by (induction n) (simp_all add: crc_bit_xor)

lemma length_gen_table [simp]: "length (gen_table g k) = 2 ^ k"
  by (induction k) auto

lemma of_nat_xor_exp:
  assumes "j < 2 ^ k"
  shows "(of_nat (2 ^ k + j) :: 'a::len word) = of_nat j XOR 2 ^ k"
proof -
  have b: "\<not> bit (of_nat j :: 'a word) k"
    using assms by (simp add: bit_simps bit_nat_def)
  have dis: "(of_nat j :: 'a word) AND 2 ^ k = 0"
    using b by (simp add: and_exp_eq_0_iff_not_bit)
  then have "(of_nat j :: 'a word) + 2 ^ k = of_nat j OR 2 ^ k"
    by (rule disjunctive_add_eq_or)
  also have "\<dots> = of_nat j XOR 2 ^ k"
    using dis by (simp add: disjunctive_xor_eq_or)
  finally show ?thesis by (simp add: add.commute)
qed

lemma gen_table_nth:
  assumes lin: "\<And>x y. g (x XOR y) = g x XOR g y"
  shows "i < 2 ^ k \<Longrightarrow> gen_table g k ! i = g (of_nat i)"
proof (induction k arbitrary: i)
  case 0
  have "g 0 = 0" using lin [of 0 0] by simp
  with 0 show ?case by simp
next
  case (Suc k)
  show ?case
  proof (cases "i < 2 ^ k")
    case True
    with Suc show ?thesis by (simp add: nth_append)
  next
    case False
    then obtain j where j: "i = 2 ^ k + j" "j < 2 ^ k"
      using Suc.prems by (metis add_less_cancel_left le_iff_add mult_2 not_less power_Suc)
    with Suc.IH [of j] show ?thesis
      by (simp add: nth_append of_nat_xor_exp [OF j(2), where 'a = 8, simplified] lin)
  qed
qed

lemma tbl_hi_pow:
  "map (\<lambda>k. tbl_hi (2 ^ k)) [0, 1, 2, 3, 4, 5, 6, 7] =
     [0xC1, 0x81, 0x01, 0x01, 0x01, 0x01, 0x01, 0x01]"
  by code_simp

lemma tbl_lo_pow:
  "map (\<lambda>k. tbl_lo (2 ^ k)) [0, 1, 2, 3, 4, 5, 6, 7] =
     [0xC0, 0xC1, 0xC3, 0xC6, 0xCC, 0xD8, 0xF0, 0xA0]"
  by code_simp

lemma CRCHi_gen: "gen_table tbl_hi 8 = CRCHi"
  using tbl_hi_pow by (simp add: eval_nat_numeral CRCHi_def)

lemma CRCLo_gen: "gen_table tbl_lo 8 = CRCLo"
  using tbl_lo_pow by (simp add: eval_nat_numeral CRCLo_def)

lemma tbl_lin:
  "tbl_hi (x XOR y) = tbl_hi x XOR tbl_hi y" "tbl_lo (x XOR y) = tbl_lo x XOR tbl_lo y"
  by (auto simp: tbl_hi_def tbl_lo_def crc_bits_xor unsigned_xor_eq bit_simps bit_lo8 bit_hi8
      intro!: bit_word_eqI)

lemma CRC_tables:
  "CRCHi ! unat i = tbl_hi i" "CRCLo ! unat i = tbl_lo i"
  using gen_table_nth [OF tbl_lin(1), of "unat i" 8] gen_table_nth [OF tbl_lin(2), of "unat i" 8]
    unat_less_256 [of i]
  by (simp_all add: CRCHi_gen CRCLo_gen)

lemma length_CRC_tables [simp]: "length CRCHi = 256" "length CRCLo = 256"
  by (simp_all flip: CRCHi_gen CRCLo_gen)

lemma tbl_pair: "le16 (tbl_hi i) (tbl_lo i) = (crc_bit ^^ 8) (ucast i)"
  by (simp add: tbl_hi_def tbl_lo_def)

section \<open>Table code equals reference\<close>

lemma crc_bit_push: "n < 8 \<Longrightarrow> crc_bit (push_bit (Suc n) (ucast (l :: u8))) = push_bit n (ucast l)"
proof -
  assume n: "n < 8"
  have "drop_bit 1 (push_bit (Suc n) (ucast l)) = (push_bit n (ucast l) :: u16)"
  proof (rule bit_word_eqI)
    fix m
    show "bit (drop_bit 1 (push_bit (Suc n) (ucast l :: u16))) m = bit (push_bit n (ucast l :: u16)) m"
      using n by (auto simp: bit_simps simp del: push_bit_Suc dest: bit_imp_le_length)
  qed
  then show ?thesis by (simp add: crc_bit_def bit_simps del: push_bit_Suc)
qed

lemma crc_bits_push: "n \<le> 8 \<Longrightarrow> (crc_bit ^^ n) (push_bit n (ucast (l :: u8))) = ucast l"
proof (induction n)
  case 0
  then show ?case by simp
next
  case (Suc n)
  then show ?case by (simp add: funpow_swap1 crc_bit_push del: push_bit_Suc)
qed

lemma le16_xor: "le16 h l XOR ucast b = ucast (h XOR b) XOR push_bit 8 (ucast l)"
  by (rule bit_word_eqI) (auto simp: bit_le16 bit_simps dest: bit_imp_le_length)

lemma le16_xor_ucast: "le16 h l XOR ucast b = le16 (h XOR b) l"
  by (rule bit_word_eqI) (auto simp: bit_le16 bit_simps dest: bit_imp_le_length)

lemma CRC_step_crc_byte: "case_prod le16 (CRC_step (h, l) b) = crc_byte (le16 h l) b"
proof -
  have "crc_byte (le16 h l) b = le16 (tbl_hi (h XOR b)) (tbl_lo (h XOR b)) XOR ucast l"
    by (simp add: crc_byte_def le16_xor crc_bits_xor crc_bits_push tbl_pair)
  moreover have "le16 (l XOR t) u = le16 t u XOR ucast l" for t u
    by (metis le16_xor_ucast xor.commute)
  ultimately show ?thesis
    by (simp add: CRC_step_def CRC_tables Let_def)
qed

lemma CRC_loop_crc:
  "case_prod le16 (CRC_loop bs c) = fold (\<lambda>b w. crc_byte w b) bs (case_prod le16 c)"
proof (induction bs arbitrary: c)
  case Nil
  then show ?case by simp
next
  case (Cons b bs)
  then show ?case using CRC_step_crc_byte [of "fst c" "snd c" b] by (cases c) simp
qed

text \<open>\<open>CRC_Hi\<close> is the low byte of the reference value and \<open>CRC_Lo\<close> its high byte, so
  the result is the reference value with its bytes exchanged.\<close>

lemma CRC_sub_eq:
  "CRC_sub bs 0xFFFF 0 = le16 (hi8 (crc16 bs)) (lo8 (crc16 bs))"
proof -
  obtain h l where c: "CRC_loop bs (0xFF, 0xFF) = (h, l)" by (cases "CRC_loop bs (0xFF, 0xFF)")
  have "le16 0xFF 0xFF = 0xFFFF" by (simp add: le16_def)
  then have "crc16 bs = le16 h l"
    using CRC_loop_crc [of bs "(0xFF, 0xFF)"] c by (simp add: crc16_def)
  moreover have "(ucast (drop_bit 8 (0xFFFF :: u16)), ucast (0xFFFF :: u16)) = (0xFF :: u8, 0xFF :: u8)"
    by simp
  ultimately show ?thesis
    using c unfolding CRC_sub_def by (simp only: Let_def prod.case hi8_le16 lo8_le16)
      (simp add: le16_def or.commute)
qed

text \<open>C10. The table-driven checksum of modbus_rtu.c computes the bit-serial CRC-16/Modbus
  (reflected polynomial 0xA001, initial value 0xFFFF) of the bytes it is given, with the
  low byte of the CRC in the high byte of the result, for every buffer and length.\<close>

theorem get_CRC_is_crc16:
  "get_CRC buf len =
     (if len \<le> length buf
      then Some (le16 (hi8 (crc16 (take len buf))) (lo8 (crc16 (take len buf)))) else None)"
  by (simp add: get_CRC_def CRC_sub_eq)

section \<open>What the check detects\<close>

lemma inj_crc_bit: "crc_bit x = crc_bit y \<Longrightarrow> x = y"
proof -
  assume eq: "crc_bit x = crc_bit y"
  have top: "bit (crc_bit w) 15 = bit w 0" for w
    using bit_imp_le_length [of w 16] by (auto simp: crc_bit_def bit_simps)
  from eq have b0: "bit x 0 = bit y 0" using top by metis
  with eq have d: "drop_bit 1 x = drop_bit 1 y"
    by (auto simp: crc_bit_def xor.assoc dest: arg_cong [where f = "\<lambda>w. w XOR 0xA001"] split: if_splits)
  show "x = y"
  proof (rule bit_word_eqI)
    fix n
    have "bit (drop_bit 1 x) (n - 1) = bit (drop_bit 1 y) (n - 1)" using d by simp
    with b0 show "bit x n = bit y n" by (cases n) (simp_all add: bit_simps)
  qed
qed

lemma inj_crc_bits: "(crc_bit ^^ n) x = (crc_bit ^^ n) y \<Longrightarrow> x = y"
  by (induction n) (auto dest: inj_crc_bit)

lemma xor_cancel_right: "(a :: 'a::len word) XOR c = b XOR c \<longleftrightarrow> a = b"
  by (metis xor.assoc xor_self_eq xor.right_neutral)

lemma crc_byte_inj_state: "crc_byte w b = crc_byte w' b \<longleftrightarrow> w = w'"
  by (auto simp: crc_byte_def xor_cancel_right dest!: inj_crc_bits)

lemma crc_byte_inj_byte: "crc_byte w b = crc_byte w b' \<Longrightarrow> b = b'"
proof -
  assume "crc_byte w b = crc_byte w b'"
  then have "w XOR ucast b = w XOR ucast b'" unfolding crc_byte_def by (rule inj_crc_bits)
  then have e: "(ucast b :: u16) = ucast b'" by (metis xor.commute xor_cancel_right)
  have "ucast (ucast b :: u16) = (ucast (ucast b' :: u16) :: u8)" unfolding e ..
  then show ?thesis by simp
qed

interpretation crc: checksum "0xFFFF :: u16" crc_byte
  by unfold_locales (simp add: crc_byte_inj_state, rule crc_byte_inj_byte)

lemma crc16_digest: "crc16 bs = crc.digest bs"
  by (simp add: crc16_def crc.digest_def crc.digest_from_def)

lemma crc_two_bytes:
  "crc_byte (crc_byte w a) b = (crc_bit ^^ 16) (w XOR le16 a b)"
proof -
  have "crc_byte (crc_byte w a) b =
      (crc_bit ^^ 8) ((crc_bit ^^ 8) (w XOR ucast a) XOR (crc_bit ^^ 8) (push_bit 8 (ucast b)))"
    by (simp add: crc_byte_def crc_bits_push)
  also have "\<dots> = (crc_bit ^^ (8 + 8)) (w XOR ucast a XOR push_bit 8 (ucast b))"
    by (simp only: funpow_add o_apply crc_bits_xor xor.assoc)
  also have "w XOR ucast a XOR push_bit 8 (ucast b) = w XOR le16 a b"
    by (rule bit_word_eqI) (auto simp: bit_le16 bit_simps dest: bit_imp_le_length)
  finally show ?thesis by simp
qed

lemma crc16_burst:
  "crc16 (pre @ [a, b] @ post) = crc16 (pre @ [a', b'] @ post) \<longleftrightarrow> a = a' \<and> b = b'"
proof -
  have "crc16 (pre @ [x, y]) = (crc_bit ^^ 16) (crc16 pre XOR le16 x y)" for x y
    by (simp add: crc16_digest crc.digest_append crc_two_bytes)
  moreover have "crc16 (pre @ [a, b] @ post) = crc16 (pre @ [a', b'] @ post) \<longleftrightarrow> crc16 (pre @ [a, b]) = crc16 (pre @ [a', b'])"
    unfolding crc16_digest by (rule crc.digest_middle)
  moreover have "(crc_bit ^^ 16) (crc16 pre XOR le16 a b) = (crc_bit ^^ 16) (crc16 pre XOR le16 a' b') \<longleftrightarrow>
      le16 a b = le16 a' b'"
    using inj_crc_bits xor_cancel_right by (metis xor.commute)
  ultimately show ?thesis by simp
qed

text \<open>The checksum of a frame that ends in its own checksum is 0.\<close>

lemma crc_bits_0: "(crc_bit ^^ n) 0 = 0"
  by (induction n) (simp_all add: crc_bit_def)

lemma crc16_residue: "crc16 (bs @ [a, b]) = 0 \<longleftrightarrow> a = lo8 (crc16 bs) \<and> b = hi8 (crc16 bs)"
proof -
  have "crc16 (bs @ [a, b]) = 0 \<longleftrightarrow> (crc_bit ^^ 16) (crc16 bs XOR le16 a b) = (crc_bit ^^ 16) 0"
    by (simp add: crc16_digest crc.digest_append crc_two_bytes crc_bits_0)
  also have "\<dots> \<longleftrightarrow> crc16 bs XOR le16 a b = le16 a b XOR le16 a b"
    using inj_crc_bits by (metis xor_self_eq)
  also have "\<dots> \<longleftrightarrow> crc16 bs = le16 a b" by (rule xor_cancel_right)
  finally show ?thesis by (metis hi8_le16 le16_lo8_hi8 lo8_le16)
qed

text \<open>A transmission error confined to two adjacent bytes of a frame (a burst of up to 16
  bits, in particular any single-byte error) always changes the checksum.\<close>

lemma get_CRC_burst_detected:
  assumes "(a, b) \<noteq> (a', b')"
  shows "get_CRC (pre @ [a, b] @ post) (length pre + 2 + length post) \<noteq>
    get_CRC (pre @ [a', b'] @ post) (length pre + 2 + length post)"
proof
  assume "get_CRC (pre @ [a, b] @ post) (length pre + 2 + length post) =
    get_CRC (pre @ [a', b'] @ post) (length pre + 2 + length post)"
  then have "crc16 (pre @ [a, b] @ post) = crc16 (pre @ [a', b'] @ post)"
    by (simp add: get_CRC_def CRC_sub_eq) (metis le16_lo8_hi8)
  with assms show False unfolding crc16_burst by simp
qed

end
