(* ===== verification/Drivers.thy ===== *)
theory Drivers
  imports State
begin

text \<open>
  The peripheral-driver functions the firmware calls (stm32f10x_gpio.c,
  stm32f10x_flash.c) and the input and output macros of main.h and logic_ctrl.h built on
  them. \<open>assert_param\<close> expands to nothing in this build (\<open>USE_FULL_ASSERT\<close> is not
  defined).

  The flash controller is hardware. Its effect on the array is the pair of functions
  \<open>hw_erase\<close> and \<open>hw_program\<close> of the state, its status register the sequence
  \<open>hw_SR\<close> of values successive reads see; nothing is assumed of them here. The driver's
  waiting loop is bounded by its time-out argument, so it always returns.
\<close>

section \<open>GPIO\<close>

abbreviation (input) "Bit_RESET \<equiv> 0 :: u8"
abbreviation (input) "Bit_SET \<equiv> 1 :: u8"

definition GPIO_Pin :: "nat \<Rightarrow> u16" where
  "GPIO_Pin n = push_bit n 1"

definition GPIO_ReadInputDataBit :: "gpio_port \<Rightarrow> u16 \<Rightarrow> fw \<Rightarrow> u8" where
  "GPIO_ReadInputDataBit GPIOx Pin s =
     (if IDR s GPIOx AND Pin \<noteq> 0 then Bit_SET else Bit_RESET)"

definition GPIO_ReadOutputDataBit :: "gpio_port \<Rightarrow> u16 \<Rightarrow> fw \<Rightarrow> u8" where
  "GPIO_ReadOutputDataBit GPIOx Pin s =
     (if ODR s GPIOx AND Pin \<noteq> 0 then Bit_SET else Bit_RESET)"

text \<open>Writing a pin mask to \<open>BSRR\<close> sets those bits of the output register, writing it to
  \<open>BRR\<close> clears them.\<close>

definition GPIO_SetBits :: "gpio_port \<Rightarrow> u16 \<Rightarrow> fw \<Rightarrow> fw" where
  "GPIO_SetBits GPIOx Pin s = s\<lparr>ODR := (ODR s)(GPIOx := ODR s GPIOx OR Pin)\<rparr>"

definition GPIO_ResetBits :: "gpio_port \<Rightarrow> u16 \<Rightarrow> fw \<Rightarrow> fw" where
  "GPIO_ResetBits GPIOx Pin s = s\<lparr>ODR := (ODR s)(GPIOx := ODR s GPIOx AND NOT Pin)\<rparr>"

definition GPIO_WriteBit :: "gpio_port \<Rightarrow> u16 \<Rightarrow> u8 \<Rightarrow> fw \<Rightarrow> fw" where
  "GPIO_WriteBit GPIOx Pin BitVal s =
     (if BitVal \<noteq> Bit_RESET
      then s\<lparr>ODR := (ODR s)(GPIOx := ODR s GPIOx OR Pin)\<rparr>
      else s\<lparr>ODR := (ODR s)(GPIOx := ODR s GPIOx AND NOT Pin)\<rparr>)"

text \<open>The level of an output pin.\<close>

definition pin_level :: "gpio_port \<Rightarrow> nat \<Rightarrow> fw \<Rightarrow> bool" where
  "pin_level p n s = bit (ODR s p) n"

lemma bit_GPIO_Pin: "bit (GPIO_Pin n) k \<longleftrightarrow> k = n \<and> n < 16"
  by (auto simp: GPIO_Pin_def bit_simps)

lemma pin_level_write:
  "n < 16 \<Longrightarrow> pin_level p k (GPIO_WriteBit q (GPIO_Pin n) v s) =
     (if p = q \<and> k = n then v \<noteq> 0 else pin_level p k s)"
  by (auto simp: pin_level_def GPIO_WriteBit_def bit_simps bit_GPIO_Pin dest: bit_imp_le_length)

lemma read_output_pin:
  "n < 16 \<Longrightarrow> (GPIO_ReadOutputDataBit p (GPIO_Pin n) s \<noteq> 0) = pin_level p n s"
  by (simp add: GPIO_ReadOutputDataBit_def pin_level_def GPIO_Pin_def push_bit_eq_mult
      and_exp_eq_0_iff_not_bit)

text \<open>GPIO writes change the output register and nothing else.\<close>

lemma GPIO_WriteBit_frame [frame_simps]:
  "GPIO_WriteBit p m v s = s\<lparr>ODR := ODR (GPIO_WriteBit p m v s)\<rparr>"
  by (simp add: GPIO_WriteBit_def)

section \<open>Inputs\<close>

text \<open>The inputs are active low: each macro inverts the pin level.\<close>

definition input_bit :: "gpio_port \<Rightarrow> nat \<Rightarrow> fw \<Rightarrow> u8" where
  "input_bit p n s = NOT (GPIO_ReadInputDataBit p (GPIO_Pin n) s) AND 1"

definition B_START_IN_STATE :: "fw \<Rightarrow> u8" where "B_START_IN_STATE = input_bit GPIOE 8"
definition B_STOP_IN_STATE :: "fw \<Rightarrow> u8" where "B_STOP_IN_STATE = input_bit GPIOE 10"
definition B_EMERGENCY_IN_STATE :: "fw \<Rightarrow> u8" where "B_EMERGENCY_IN_STATE = input_bit GPIOE 12"
definition B_PHOTO_1_IN_STATE :: "fw \<Rightarrow> u8" where "B_PHOTO_1_IN_STATE = input_bit GPIOC 9"
definition B_PHOTO_2_IN_STATE :: "fw \<Rightarrow> u8" where "B_PHOTO_2_IN_STATE = input_bit GPIOC 8"
definition B_PHOTO_3_IN_STATE :: "fw \<Rightarrow> u8" where "B_PHOTO_3_IN_STATE = input_bit GPIOC 7"
definition B_PHOTO_4_IN_STATE :: "fw \<Rightarrow> u8" where "B_PHOTO_4_IN_STATE = input_bit GPIOC 6"
definition B_PHOTO_5_IN_STATE :: "fw \<Rightarrow> u8" where "B_PHOTO_5_IN_STATE = input_bit GPIOD 15"
definition B_RESET_IN_STATE :: "fw \<Rightarrow> u8" where "B_RESET_IN_STATE = input_bit GPIOD 14"
definition B_STREAM_IN_STATE :: "fw \<Rightarrow> u8" where "B_STREAM_IN_STATE = input_bit GPIOD 13"

text \<open>The eight address switches, read without inversion.\<close>

definition DIP_STATE :: "nat \<Rightarrow> fw \<Rightarrow> u8" where
  "DIP_STATE k s =
     (if k = 1 then GPIO_ReadInputDataBit GPIOB (GPIO_Pin 14) s
      else if k = 2 then GPIO_ReadInputDataBit GPIOA (GPIO_Pin 12) s
      else if k = 3 then GPIO_ReadInputDataBit GPIOA (GPIO_Pin 7) s
      else if k = 4 then GPIO_ReadInputDataBit GPIOA (GPIO_Pin 6) s
      else if k = 5 then GPIO_ReadInputDataBit GPIOA (GPIO_Pin 5) s
      else if k = 6 then GPIO_ReadInputDataBit GPIOA (GPIO_Pin 4) s
      else if k = 7 then GPIO_ReadInputDataBit GPIOD (GPIO_Pin 2) s
      else GPIO_ReadInputDataBit GPIOD (GPIO_Pin 3) s)"

lemma input_bit_cases: "input_bit p n s = 0 \<or> input_bit p n s = 1"
  by (simp add: input_bit_def GPIO_ReadInputDataBit_def)

section \<open>Outputs\<close>

definition B_RUN_1_OUT :: "u8 \<Rightarrow> fw \<Rightarrow> fw" where "B_RUN_1_OUT = GPIO_WriteBit GPIOB (GPIO_Pin 9)"
definition B_RUN_2_OUT :: "u8 \<Rightarrow> fw \<Rightarrow> fw" where "B_RUN_2_OUT = GPIO_WriteBit GPIOE (GPIO_Pin 0)"
definition B_RUN_3_OUT :: "u8 \<Rightarrow> fw \<Rightarrow> fw" where "B_RUN_3_OUT = GPIO_WriteBit GPIOE (GPIO_Pin 1)"
definition B_RUN_4_OUT :: "u8 \<Rightarrow> fw \<Rightarrow> fw" where "B_RUN_4_OUT = GPIO_WriteBit GPIOE (GPIO_Pin 2)"
definition B_RUN_5_OUT :: "u8 \<Rightarrow> fw \<Rightarrow> fw" where "B_RUN_5_OUT = GPIO_WriteBit GPIOE (GPIO_Pin 3)"
definition B_STREAM_OUT :: "u8 \<Rightarrow> fw \<Rightarrow> fw" where "B_STREAM_OUT = GPIO_WriteBit GPIOE (GPIO_Pin 4)"
definition L_ALARM_OUT :: "u8 \<Rightarrow> fw \<Rightarrow> fw" where "L_ALARM_OUT = GPIO_WriteBit GPIOE (GPIO_Pin 5)"
definition B_RUN_STA_OUT :: "u8 \<Rightarrow> fw \<Rightarrow> fw" where "B_RUN_STA_OUT = GPIO_WriteBit GPIOE (GPIO_Pin 6)"

lemmas out_defs = B_RUN_1_OUT_def B_RUN_2_OUT_def B_RUN_3_OUT_def B_RUN_4_OUT_def
  B_RUN_5_OUT_def B_STREAM_OUT_def L_ALARM_OUT_def B_RUN_STA_OUT_def

definition LED_STATE :: "fw \<Rightarrow> u8" where
  "LED_STATE = GPIO_ReadOutputDataBit GPIOD (GPIO_Pin 4)"

definition LED_ON :: "fw \<Rightarrow> fw" where "LED_ON = GPIO_ResetBits GPIOD (GPIO_Pin 4)"
definition LED_OFF :: "fw \<Rightarrow> fw" where "LED_OFF = GPIO_SetBits GPIOD (GPIO_Pin 4)"
definition UART1_RX_485 :: "fw \<Rightarrow> fw" where "UART1_RX_485 = GPIO_ResetBits GPIOA (GPIO_Pin 11)"
definition UART1_TX_485 :: "fw \<Rightarrow> fw" where "UART1_TX_485 = GPIO_SetBits GPIOA (GPIO_Pin 11)"

section \<open>Flash\<close>

datatype FLASH_Status = FLASH_BUSY | FLASH_ERROR_PG | FLASH_ERROR_WRP | FLASH_COMPLETE | FLASH_TIMEOUT

abbreviation (input) "FLASH_FLAG_BSY \<equiv> 0x01 :: u32"
abbreviation (input) "FLASH_FLAG_PGERR \<equiv> 0x04 :: u32"
abbreviation (input) "FLASH_FLAG_WRPRTERR \<equiv> 0x10 :: u32"
abbreviation (input) "EraseTimeout \<equiv> 0xFFF :: nat"
abbreviation (input) "ProgramTimeout \<equiv> 0xF :: nat"
abbreviation (input) "UserParaStartAddress \<equiv> 0x8027800 :: u32"
abbreviation (input) "UserAppEnFlagAddress \<equiv> 0x800F800 :: u32"

text \<open>Each evaluation of \<open>FLASH->SR\<close> sees the next value of \<open>hw_SR\<close>. The
  register is read once, twice or three times per call, as the conditions need it.\<close>

definition FLASH_GetStatus :: "fw \<Rightarrow> FLASH_Status \<times> fw" where
  "FLASH_GetStatus s =
     (let k = sr_reads s in
      if hw_SR s k AND FLASH_FLAG_BSY = FLASH_FLAG_BSY
      then (FLASH_BUSY, s\<lparr>sr_reads := k + 1\<rparr>)
      else if hw_SR s (k + 1) AND FLASH_FLAG_PGERR \<noteq> 0
      then (FLASH_ERROR_PG, s\<lparr>sr_reads := k + 2\<rparr>)
      else if hw_SR s (k + 2) AND FLASH_FLAG_WRPRTERR \<noteq> 0
      then (FLASH_ERROR_WRP, s\<lparr>sr_reads := k + 3\<rparr>)
      else (FLASH_COMPLETE, s\<lparr>sr_reads := k + 3\<rparr>))"

text \<open>The loop returns the last status and what is left of the time-out.\<close>

fun FLASH_wait_loop :: "nat \<Rightarrow> FLASH_Status \<Rightarrow> fw \<Rightarrow> FLASH_Status \<times> nat \<times> fw" where
  "FLASH_wait_loop 0 status s = (status, 0, s)"
| "FLASH_wait_loop (Suc Timeout) status s =
     (if status = FLASH_BUSY
      then (let (status', s') = FLASH_GetStatus s in FLASH_wait_loop Timeout status' s')
      else (status, Suc Timeout, s))"

definition FLASH_WaitForLastOperation :: "nat \<Rightarrow> fw \<Rightarrow> FLASH_Status \<times> fw" where
  "FLASH_WaitForLastOperation Timeout s =
     (let (status, s1) = FLASH_GetStatus s;
          (status', left, s2) = FLASH_wait_loop Timeout status s1
      in (if left = 0 then FLASH_TIMEOUT else status', s2))"

definition FLASH_Unlock :: "fw \<Rightarrow> fw" where
  "FLASH_Unlock s = s\<lparr>FLASH_KEYR := 0xCDEF89AB\<rparr>"

definition FLASH_Lock :: "fw \<Rightarrow> fw" where
  "FLASH_Lock s = s\<lparr>FLASH_CR := FLASH_CR s OR 0x80\<rparr>"

text \<open>Setting \<open>STRT\<close> starts the erase of the page at \<open>AR\<close>; the half-word store of
  \<open>FLASH_ProgramHalfWord\<close> starts the programming.\<close>

definition FLASH_ErasePage :: "u32 \<Rightarrow> fw \<Rightarrow> FLASH_Status \<times> fw" where
  "FLASH_ErasePage Page_Address s =
     (let (status, s1) = FLASH_WaitForLastOperation EraseTimeout s in
      if status = FLASH_COMPLETE then
        let s2 = s1\<lparr>FLASH_CR := FLASH_CR s1 OR 0x02, FLASH_AR := Page_Address\<rparr>;
            s3 = s2\<lparr>FLASH_CR := FLASH_CR s2 OR 0x40,
                    flash_mem := hw_erase s2 Page_Address (flash_mem s2)\<rparr>;
            (status', s4) = FLASH_WaitForLastOperation EraseTimeout s3
        in (status', if status' \<noteq> FLASH_TIMEOUT
                     then s4\<lparr>FLASH_CR := FLASH_CR s4 AND 0x1FFD\<rparr> else s4)
      else (status, s1))"

definition FLASH_ProgramHalfWord :: "u32 \<Rightarrow> u16 \<Rightarrow> fw \<Rightarrow> FLASH_Status \<times> fw" where
  "FLASH_ProgramHalfWord Address Data s =
     (let (status, s1) = FLASH_WaitForLastOperation ProgramTimeout s in
      if status = FLASH_COMPLETE then
        let s2 = s1\<lparr>FLASH_CR := FLASH_CR s1 OR 0x01\<rparr>;
            s3 = s2\<lparr>flash_mem := hw_program s2 Address Data (flash_mem s2)\<rparr>;
            (status', s4) = FLASH_WaitForLastOperation ProgramTimeout s3
        in (status', if status' \<noteq> FLASH_TIMEOUT
                     then s4\<lparr>FLASH_CR := FLASH_CR s4 AND 0x1FFE\<rparr> else s4)
      else (status, s1))"

text \<open>A flash operation changes only the controller fields and the array.\<close>

definition flash_frame :: "fw \<Rightarrow> fw \<Rightarrow> bool" where
  "flash_frame s t \<longleftrightarrow> t = s\<lparr>flash_mem := flash_mem t, sr_reads := sr_reads t,
     FLASH_KEYR := FLASH_KEYR t, FLASH_CR := FLASH_CR t, FLASH_AR := FLASH_AR t\<rparr>"

lemma flash_frame_refl [simp]: "flash_frame s s"
  by (simp add: flash_frame_def)

lemma flash_frame_trans: "flash_frame s t \<Longrightarrow> flash_frame t u \<Longrightarrow> flash_frame s u"
  unfolding flash_frame_def
proof -
  assume "t = s\<lparr>flash_mem := flash_mem t, sr_reads := sr_reads t,
     FLASH_KEYR := FLASH_KEYR t, FLASH_CR := FLASH_CR t, FLASH_AR := FLASH_AR t\<rparr>"
    and u: "u = t\<lparr>flash_mem := flash_mem u, sr_reads := sr_reads u,
     FLASH_KEYR := FLASH_KEYR u, FLASH_CR := FLASH_CR u, FLASH_AR := FLASH_AR u\<rparr>"
  then obtain m r k c a where "t = s\<lparr>flash_mem := m, sr_reads := r,
     FLASH_KEYR := k, FLASH_CR := c, FLASH_AR := a\<rparr>" by blast
  then show "u = s\<lparr>flash_mem := flash_mem u, sr_reads := sr_reads u,
     FLASH_KEYR := FLASH_KEYR u, FLASH_CR := FLASH_CR u, FLASH_AR := FLASH_AR u\<rparr>"
    by (subst u) simp
qed

text \<open>A controller that is never busy and reports no error when its status is read.\<close>

definition flash_quiet :: "fw \<Rightarrow> bool" where
  "flash_quiet s \<longleftrightarrow> (\<forall>k. hw_SR s k AND (FLASH_FLAG_BSY OR FLASH_FLAG_PGERR OR FLASH_FLAG_WRPRTERR) = 0)"

end
