(* ===== verification/Queues.thy ===== *)
theory Queues
  imports Drivers
begin

text \<open>
  The four queues of the firmware as operations on the state, and the interpretation of
  \<open>bounded_fifo\<close> for each. The backing arrays are statically allocated with the size the
  \<open>Init\<close> function stores in \<open>maxSize\<close>, and are not cleared by it, so the \<open>queue\<close>
  field is the array itself. \<open>uart_nodes\<close>, \<open>status_msgs\<close>, \<open>server_msgs\<close> and
  \<open>can_frames\<close> name the queued elements, oldest first; the \<open>Add\<close> and \<open>Get\<close>
  lemmas of this theory are what the other components use.
\<close>

section \<open>Queue operations\<close>

abbreviation (input) "uartSendQueueSize \<equiv> 30 :: u16"
abbreviation (input) "moduleStatusQueueSize \<equiv> 20 :: u16"
abbreviation (input) "msgSendQueueSize \<equiv> 100 :: u16"
abbreviation (input) "canSendQueueSize \<equiv> 50 :: u16"

definition InitUartSendQueue :: "fw \<Rightarrow> fw" where
  "InitUartSendQueue s =
     s\<lparr>uartSendQueue := initQueue (queue (uartSendQueue s)) uartSendQueueSize (uartSendQueue s)\<rparr>"

definition AddUartSendData2Queue :: "COMM_NODE_T \<Rightarrow> fw \<Rightarrow> fw" where
  "AddUartSendData2Queue x s = s\<lparr>uartSendQueue := enQueue (uartSendQueue s) x\<rparr>"

definition GetUartSendDataFromQueue :: "fw \<Rightarrow> COMM_NODE_T option \<times> fw" where
  "GetUartSendDataFromQueue s =
     (let (x, q) = outQueue (uartSendQueue s) in (x, s\<lparr>uartSendQueue := q\<rparr>))"

definition IsUartSendQueueFree :: "fw \<Rightarrow> u8" where
  "IsUartSendQueueFree s = (if IsQueueFree (uartSendQueue s) then 1 else 0)"

definition InitModuleStatusQueue :: "fw \<Rightarrow> fw" where
  "InitModuleStatusQueue s =
     s\<lparr>moduleStatusQueue :=
         initQueue (queue (moduleStatusQueue s)) moduleStatusQueueSize (moduleStatusQueue s)\<rparr>"

definition AddModuleStatusData2Queue :: "MODULE_STATUS_T \<Rightarrow> fw \<Rightarrow> fw" where
  "AddModuleStatusData2Queue x s = s\<lparr>moduleStatusQueue := enQueue (moduleStatusQueue s) x\<rparr>"

definition GetModuleStatusDataFromQueue :: "fw \<Rightarrow> MODULE_STATUS_T option \<times> fw" where
  "GetModuleStatusDataFromQueue s =
     (let (x, q) = outQueue (moduleStatusQueue s) in (x, s\<lparr>moduleStatusQueue := q\<rparr>))"

definition IsModuleStatusQueueFree :: "fw \<Rightarrow> u8" where
  "IsModuleStatusQueueFree s = (if IsQueueFree (moduleStatusQueue s) then 1 else 0)"

definition InitSendMsgQueue :: "fw \<Rightarrow> fw" where
  "InitSendMsgQueue s =
     s\<lparr>msgSendQueue := initQueue (queue (msgSendQueue s)) msgSendQueueSize (msgSendQueue s)\<rparr>"

definition AddSendMsgToQueue :: "u16 \<Rightarrow> fw \<Rightarrow> fw" where
  "AddSendMsgToQueue msg s = s\<lparr>msgSendQueue := enQueue (msgSendQueue s) msg\<rparr>"

text \<open>\<open>outQueue\<close> of fun.c returns 0 (\<open>MSG_NULL_TYPE\<close>) for an empty queue.\<close>

definition GetSendMsgFromQueue :: "fw \<Rightarrow> u16 \<times> fw" where
  "GetSendMsgFromQueue s =
     (case outQueue (msgSendQueue s) of
        (None, q) \<Rightarrow> (0, s\<lparr>msgSendQueue := q\<rparr>)
      | (Some m, q) \<Rightarrow> (m, s\<lparr>msgSendQueue := q\<rparr>))"

definition InitCanSendQueue :: "fw \<Rightarrow> fw" where
  "InitCanSendQueue s =
     s\<lparr>canSendQueue := initQueue (queue (canSendQueue s)) canSendQueueSize (canSendQueue s)\<rparr>"

definition AddCanSendData2Queue :: "sCanFrameExt \<Rightarrow> fw \<Rightarrow> fw" where
  "AddCanSendData2Queue x s = s\<lparr>canSendQueue := enQueue (canSendQueue s) x\<rparr>"

section \<open>Abstraction and interpretations\<close>

definition zero_node :: COMM_NODE_T where
  "zero_node = \<lparr>rw_flag = 0, inverter_no = 0, speed_gear = 0, comm_interval = 0, comm_retry = 0\<rparr>"

definition zero_inverter :: INVERTER_STATUS_T where
  "zero_inverter = \<lparr>fault_code = 0, input_status = 0, line_speed = 0, electric_current = 0,
     inverter_freq = 0\<rparr>"

definition zero_status :: MODULE_STATUS_T where
  "zero_status = \<lparr>station_no = 0, belt_number = 0, inverter_status = replicate 10 zero_inverter\<rparr>"

definition zero_frame :: sCanFrameExt where
  "zero_frame = \<lparr>extId = \<lparr>seg_polo = 0, seg_num = 0, func_id = 0, src_id = 0, dst_id = 0\<rparr>,
     data_len = 0, frame_data = replicate 8 0\<rparr>"

text \<open>A queue as the C start-up code leaves it (zeroed) and as its \<open>Init\<close> function then
  sets it up.\<close>

definition fresh_ring :: "nat \<Rightarrow> 'a \<Rightarrow> 'a ring" where
  "fresh_ring n x = \<lparr>queue = replicate n x, front = 0, rear = 0, qlen = 0, maxSize = 0\<rparr>"

definition ready_ring :: "nat \<Rightarrow> 'a \<Rightarrow> 'a ring" where
  "ready_ring n x = initQueue (replicate n x) (of_nat n) (fresh_ring n x)"

interpretation uartq: bounded_fifo "ready_ring 30 zero_node" enQueue outQueue IsQueueFree
  "ring_list 30" "ring_inv 30" 29
  unfolding ready_ring_def using ring_bounded_fifo [of 30 "replicate 30 zero_node" "fresh_ring 30 zero_node"]
  by simp

interpretation statusq: bounded_fifo "ready_ring 20 zero_status" enQueue outQueue IsQueueFree
  "ring_list 20" "ring_inv 20" 19
  unfolding ready_ring_def using ring_bounded_fifo [of 20 "replicate 20 zero_status" "fresh_ring 20 zero_status"]
  by simp

interpretation msgq: bounded_fifo "ready_ring 100 (0 :: u16)" enQueue outQueue IsQueueFree
  "ring_list 100" "ring_inv 100" 99
  unfolding ready_ring_def using ring_bounded_fifo [of 100 "replicate 100 (0 :: u16)" "fresh_ring 100 (0 :: u16)"]
  by simp

interpretation canq: bounded_fifo "ready_ring 50 zero_frame" enQueue outQueue IsQueueFree
  "ring_list 50" "ring_inv 50" 49
  unfolding ready_ring_def using ring_bounded_fifo [of 50 "replicate 50 zero_frame" "fresh_ring 50 zero_frame"]
  by simp

abbreviation uart_nodes :: "fw \<Rightarrow> COMM_NODE_T list" where
  "uart_nodes s \<equiv> ring_list 30 (uartSendQueue s)"

abbreviation status_msgs :: "fw \<Rightarrow> MODULE_STATUS_T list" where
  "status_msgs s \<equiv> ring_list 20 (moduleStatusQueue s)"

abbreviation server_msgs :: "fw \<Rightarrow> u16 list" where
  "server_msgs s \<equiv> ring_list 100 (msgSendQueue s)"

abbreviation can_frames :: "fw \<Rightarrow> sCanFrameExt list" where
  "can_frames s \<equiv> ring_list 50 (canSendQueue s)"

text \<open>All four queues initialised, with their indices inside their arrays.\<close>

definition queues_inv :: "fw \<Rightarrow> bool" where
  "queues_inv s \<longleftrightarrow> ring_inv 30 (uartSendQueue s) \<and> ring_inv 20 (moduleStatusQueue s) \<and>
     ring_inv 100 (msgSendQueue s) \<and> ring_inv 50 (canSendQueue s)"

lemma queues_invD:
  assumes "queues_inv s"
  shows "ring_inv 30 (uartSendQueue s)" "ring_inv 20 (moduleStatusQueue s)"
    "ring_inv 100 (msgSendQueue s)" "ring_inv 50 (canSendQueue s)"
  using assms by (auto simp: queues_inv_def)

lemma Add_queues_inv [simp]:
  "queues_inv s \<Longrightarrow> queues_inv (AddUartSendData2Queue x s)"
  "queues_inv s \<Longrightarrow> queues_inv (AddModuleStatusData2Queue y s)"
  "queues_inv s \<Longrightarrow> queues_inv (AddSendMsgToQueue m s)"
  "queues_inv s \<Longrightarrow> queues_inv (AddCanSendData2Queue f s)"
  by (simp_all add: queues_inv_def AddUartSendData2Queue_def AddModuleStatusData2Queue_def
      AddSendMsgToQueue_def AddCanSendData2Queue_def uartq.invar_enq statusq.invar_enq
      msgq.invar_enq canq.invar_enq)

lemma InitUartSendQueue_inv [simp]: "queues_inv s \<Longrightarrow> queues_inv (InitUartSendQueue s)"
  using ring_inv_init [of 30 "queue (uartSendQueue s)" "uartSendQueue s"]
  by (simp add: queues_inv_def InitUartSendQueue_def ring_inv_def)

lemma uart_nodes_Init [simp]: "uart_nodes (InitUartSendQueue s) = []"
  by (simp add: InitUartSendQueue_def)

lemma uart_nodes_Add:
  "queues_inv s \<Longrightarrow> uart_nodes (AddUartSendData2Queue x s) =
     (if length (uart_nodes s) < 29 then uart_nodes s @ [x] else uart_nodes s)"
  unfolding AddUartSendData2Queue_def
  by (simp add: queues_invD uartq.contents_enq del: length_ring_list)

text \<open>Adding a list of nodes, as the loops over the belts do.\<close>

definition AddUartNodes :: "COMM_NODE_T list \<Rightarrow> fw \<Rightarrow> fw" where
  "AddUartNodes xs s = s\<lparr>uartSendQueue := uartq.enq_all xs (uartSendQueue s)\<rparr>"

lemma AddUartNodes_Nil [simp]: "AddUartNodes [] s = s"
  by (simp add: AddUartNodes_def)

lemma AddUartNodes_Cons: "AddUartNodes (x # xs) s = AddUartNodes xs (AddUartSendData2Queue x s)"
  by (simp add: AddUartNodes_def AddUartSendData2Queue_def)

lemma AddUartNodes_append: "AddUartNodes (xs @ ys) s = AddUartNodes ys (AddUartNodes xs s)"
  by (simp add: AddUartNodes_def uartq.enq_all_def)

lemma AddUartNodes_single: "AddUartNodes [x] s = AddUartSendData2Queue x s"
  by (simp add: AddUartNodes_Cons)

lemma fold_AddUart:
  "fold (\<lambda>i. AddUartSendData2Queue (f i)) is s = AddUartNodes (map f is) s"
  by (induction "is" arbitrary: s) (simp_all add: AddUartNodes_Cons)

lemma uart_nodes_AddUartNodes:
  "queues_inv s \<Longrightarrow>
     uart_nodes (AddUartNodes xs s) = uart_nodes s @ take (29 - length (uart_nodes s)) xs"
  unfolding AddUartNodes_def
  by (simp add: queues_invD uartq.contents_enq_all del: length_ring_list)

lemma AddUartNodes_inv [simp]: "queues_inv s \<Longrightarrow> queues_inv (AddUartNodes xs s)"
  by (simp add: queues_inv_def AddUartNodes_def uartq.invar_enq_all)

section \<open>The state at power-on\<close>

text \<open>The globals of the program as the C start-up code leaves them when \<open>main\<close> starts (zero
  where there is no initialiser); the hardware fields are
  those of an idle board whose inputs read high (inactive), with an erased flash that obeys
  every command at once.\<close>

definition zero_input :: sInput_Info where
  "zero_input = \<lparr>input_state = 0, input_middle_state = 0, input_confirm_times = 0, input_trig_mode = 0\<rparr>"

definition zero_button :: sButton_Info where
  "zero_button = \<lparr>input_info = zero_input, button_state = 0, button_hold_time = 0, trig_cnt = 0\<rparr>"

definition zero_paras :: USER_PARAS_T where
  "zero_paras = u16s_paras (replicate 116 0)"

definition zero_client :: tcp_client_table where
  "zero_client = \<lparr>tcp_recv_buf = replicate 300 0, tcp_send_buf = replicate 300 0, tcp_send_en = 0,
     tcp_recv_len = 0, tcp_send_len = 0, tcp_client_statue = 0, tcp_client_Delay_reg = 0,
     echoclient_pcb = False, dest_ip = replicate 4 0, dest_port = 0, connect_is_ok = 0,
     connect_dely = 0\<rparr>"

definition power_on :: fw where
  "power_on = \<lparr>IDR = (\<lambda>_. 0xFFFF), ODR = (\<lambda>_. 0),
     flash_mem = (\<lambda>_. 0xFFFF), hw_erase = (\<lambda>page m a. if drop_bit 11 a = drop_bit 11 page then 0xFFFF else m a),
     hw_program = (\<lambda>a v m. m(a := v)), hw_SR = (\<lambda>_. 0), sr_reads = 0,
     FLASH_KEYR = 0, FLASH_CR = 0, FLASH_AR = 0,
     TSR = 0x1C000000, sTxMailBox = replicate 3 \<lparr>TIR = 0, TDTR = 0, TDLR = 0, TDHR = 0\<rparr>,
     uart_tx = [], udp_tx = [], sys_reset = False,
     lwip_pcb_free = True, lwip_connect_ok = True, lwip_pbuf_free = True,
     uninit_node = zero_node, uninit_frame = zero_frame, uninit_status = zero_status,
     uninit_write_data = replicate 4 0, uninit_tx_data = replicate 8 0, uninit_m = 0, uninit_dip = 0,
     LocalTime = 0, timingdelay = 0, sec_reg = 1000, sec_flag = 0, half_sec_reg = 500, half_sec_flag = 0,
     heart_dely = 0, local_station = 0, isHost = 0, upload_time_delay = 10, mac_addr = replicate 6 0,
     upload_runcnt = 0, msone_flag = 0, modulestate_readcnt = 0, modulestate_index = 1,
     bPhoto1Info = zero_button, bPhoto2Info = zero_button, bPhoto3Info = zero_button,
     bPhoto4Info = zero_button, bPhoto5Info = zero_button, bResetInfo = zero_button,
     bStartInfo = zero_button, bStopInfo = zero_button, bStreamInfo = zero_button,
     bEmergencyInfo = zero_button,
     user_paras_local = zero_paras, user_paras_slave = zero_paras, user_paras_temp = zero_paras,
     inverter_status_buffer = replicate 10 zero_inverter,
     moduleStatusQueue = fresh_ring 20 zero_status, uartSendQueue = fresh_ring 30 zero_node,
     comm_node = zero_node, comm_busy_flag = 0, polling_num = 0,
     g_link_up_stream_status = 0, g_link_down_stream_status = 0, g_speed_gear_status = 0,
     g_block_disable_flag = 0, block_check_time_cnt = replicate 10 0, reset_start_time_cnt = 0,
     reset_start_flag = 0,
     uart1_send_buff = replicate 50 0, uart1_recv_buff = replicate 50 0, uart1_send_count = 0,
     uart1_recv_count = 0, uart1_commu_state = 0, uart1_tmr = 0, g_speed_set_sta = 0,
     stopspeed_default = replicate 10 0, freq_check_cnt = 0,
     canSendQueue = fresh_ring 50 zero_frame, can_send_buff = replicate 300 0, can_send_len = 0,
     can_recv_buff = replicate 300 0, can_recv_len = 0, g_SegPolo = 0, g_SegNum = 0, g_SegBytes = 0,
     msgSendQueue = fresh_ring 100 0, tcp_client = zero_client\<rparr>"

text \<open>The state after the four queue initialisations of \<open>main\<close>.\<close>

definition queues_ready :: "fw \<Rightarrow> fw" where
  "queues_ready s = InitModuleStatusQueue (InitSendMsgQueue (InitCanSendQueue (InitUartSendQueue s)))"

lemma queues_inv_ready: "queues_inv (queues_ready power_on)"
  using uartq.invar_empty statusq.invar_empty msgq.invar_empty canq.invar_empty
  by (simp add: queues_ready_def queues_inv_def InitModuleStatusQueue_def InitSendMsgQueue_def
      InitCanSendQueue_def InitUartSendQueue_def power_on_def ready_ring_def fresh_ring_def)

end
