(* ===== verification/Logic.thy ===== *)
theory Logic
  imports Queues
begin

text \<open>
  Belt control (logic_ctrl.c from \<open>Speed_Ctrl_Process\<close> on): which inverter commands the
  handlers put into the UART queue. A command node \<open>write_node n g d\<close> asks inverter
  \<open>n\<close> to run at gear \<open>g\<close> (0 is stop) after \<open>d\<close> ticks; \<open>reset_node n\<close> clears
  its fault.

  Accesses of \<open>belt_para\<close>, \<open>inverter_status_buffer\<close> and
  \<open>block_check_time_cnt\<close> are checked, so the handlers return an option; the lemmas
  show that they are defined, with the stated effect, whenever the parameters hold at most
  ten belts (\<open>belts_ok\<close>).
\<close>

section \<open>Command nodes\<close>

definition write_node :: "u16 \<Rightarrow> u16 \<Rightarrow> u16 \<Rightarrow> COMM_NODE_T" where
  "write_node n g d = \<lparr>rw_flag = 1, inverter_no = n, speed_gear = g, comm_interval = d, comm_retry = 3\<rparr>"

definition reset_node :: "u16 \<Rightarrow> COMM_NODE_T" where
  "reset_node n = \<lparr>rw_flag = 2, inverter_no = n, speed_gear = 0, comm_interval = 20, comm_retry = 3\<rparr>"

section \<open>The handlers\<close>

definition Speed_Ctrl_Process :: "u8 \<Rightarrow> fw \<Rightarrow> fw option" where
  "Speed_Ctrl_Process gear s =
     (let p = user_paras_local s; n = Belt_Number p in
      if gear = EMERGENCY_STOP then do {
        s1 \<leftarrow> for_u8 n (\<lambda>i t. Some (AddUartSendData2Queue (write_node (of_nat i + 1) 0 20) t))
               (InitUartSendQueue s);
        Some (B_RUN_STA_OUT Bit_RESET (s1\<lparr>g_speed_gear_status := 0\<rparr>))
      }
      else if g_speed_gear_status s = 0 \<and> gear > 0 then do {
        s1 \<leftarrow> for_u8 n (\<lambda>i t. do {
                 b \<leftarrow> idx (belt_para p) (unat n - i - 1);
                 Some (AddUartSendData2Queue
                   (write_node (n - of_nat i) (ucast gear) (Start_Delay_Time b)) t) }) s;
        Some (B_RUN_STA_OUT Bit_SET (s1\<lparr>g_speed_gear_status := gear\<rparr>))
      }
      else if gear = 0 then do {
        s1 \<leftarrow> for_u8 n (\<lambda>i t. do {
                 b \<leftarrow> idx (belt_para p) i;
                 Some (AddUartSendData2Queue
                   (write_node (of_nat i + 1) (ucast gear) (Stop_Delay_Time b)) t) })
               (InitUartSendQueue s);
        Some (B_RUN_STA_OUT Bit_RESET (s1\<lparr>g_speed_gear_status := gear\<rparr>))
      }
      else if g_speed_gear_status s \<noteq> 0 \<and> gear \<noteq> 0 then do {
        s1 \<leftarrow> for_u8 n (\<lambda>i t. Some (AddUartSendData2Queue
                   (write_node (of_nat i + 1) (ucast gear) 20) t)) s;
        Some (B_RUN_STA_OUT Bit_SET (s1\<lparr>g_speed_gear_status := gear\<rparr>))
      }
      else Some s)"

definition get_photo_input_status :: "u8 \<Rightarrow> fw \<Rightarrow> u8" where
  "get_photo_input_status belt_index s =
     (if belt_index = 0 then B_PHOTO_1_IN_STATE s
      else if belt_index = 1 then B_PHOTO_2_IN_STATE s
      else if belt_index = 2 then B_PHOTO_3_IN_STATE s
      else if belt_index = 3 then B_PHOTO_4_IN_STATE s
      else if belt_index = 4 then B_PHOTO_5_IN_STATE s
      else 0)"

definition get_inverter_fault_status :: "INVERTER_STATUS_T \<Rightarrow> u8" where
  "get_inverter_fault_status v =
     (if fault_code v AND 1 \<noteq> 0 then 1
      else if drop_bit 1 (fault_code v) AND 1 \<noteq> 0 then 1
      else if drop_bit 8 (fault_code v) AND 0xFF \<noteq> 0 then 1
      else 0)"

text \<open>The loop of \<open>Linkage_Stop_Photo_Ctrl_Handle\<close> that breaks at the first belt with
  the downstream-signal function enabled, and returns its assignment to
  \<open>link_down_status\<close>.\<close>

function stream_signal_loop :: "nat \<Rightarrow> fw \<Rightarrow> u8 \<Rightarrow> u8 option" where
  "stream_signal_loop i s link_down_status =
     (if i < unat (Belt_Number (user_paras_local s)) then do {
        b \<leftarrow> idx (belt_para (user_paras_local s)) i;
        if drop_bit 4 (Func_Select_Switch b) AND 1 \<noteq> 0 then
          Some (if Down_Stream_No (user_paras_local s) = 0
                     \<and> input_state (input_info (bStreamInfo s)) = 0 then 0
                else if Down_Stream_No (user_paras_local s) = 0
                     \<and> input_state (input_info (bStreamInfo s)) = 1 then 1
                else g_link_down_stream_status s)
        else stream_signal_loop (Suc i) s link_down_status
      } else Some link_down_status)"
  by pat_completeness auto
termination
  by (relation "measure (\<lambda>(i, s, _). unat (Belt_Number (user_paras_local s)) - i)") auto

declare stream_signal_loop.simps [simp del]

definition Linkage_Stop_Photo_Ctrl_Handle :: "u8 \<Rightarrow> fw \<Rightarrow> fw option" where
  "Linkage_Stop_Photo_Ctrl_Handle photo_index s =
     (let p = user_paras_local s; k = unat photo_index in
      if Belt_Number p = 0 then Some s
      else do {
        b \<leftarrow> idx (belt_para p) k;
        if drop_bit 3 (Func_Select_Switch b) AND 1 = 0 then Some s
        else do {
          link_down_status \<leftarrow>
            (if k + 1 = unat (Belt_Number p) then do {
               l \<leftarrow> stream_signal_loop 0 s 1;
               Some (if Down_Stream_No p \<noteq> 0 then g_link_down_stream_status s else l)
             } else do {
               v \<leftarrow> idx (inverter_status_buffer s) (k + 1);
               Some (ucast (drop_bit 4 (fault_code v) AND 1))
             });
          if drop_bit 1 (Func_Select_Switch b) AND 1 \<noteq> 0 then do {
            v \<leftarrow> idx (inverter_status_buffer s) k;
            if drop_bit 4 (fault_code v) AND 1 \<noteq> 0 \<and> link_down_status = 0
            then Some (AddUartSendData2Queue (write_node (ucast photo_index + 1) 0 10) s)
            else Some s
          } else Some s
        }
      })"

function Linkage_stream_extra_loop :: "nat \<Rightarrow> u8 \<Rightarrow> u8 \<Rightarrow> fw \<Rightarrow> fw option" where
  "Linkage_stream_extra_loop i inverter_index start_flag s =
     (let p = user_paras_local s; k = unat inverter_index in
      if i < unat (Belt_Number p) then do {
        b \<leftarrow> idx (belt_para p) i;
        if drop_bit 4 (Func_Select_Switch b) AND 1 \<noteq> 0 then do {
          c \<leftarrow> idx (belt_para p) k;
          if drop_bit 1 (Func_Select_Switch c) AND 1 \<noteq> 0 then do {
            v \<leftarrow> idx (inverter_status_buffer s) k;
            if start_flag = 1 then
              if drop_bit 4 (fault_code v) AND 1 = 0 \<and> get_inverter_fault_status v \<noteq> 1
              then Some (AddUartSendData2Queue
                (write_node (ucast inverter_index + 1) (ucast (g_speed_gear_status s)) (Start_Delay_Time c)) s)
              else Some s
            else if drop_bit 4 (fault_code v) AND 1 \<noteq> 0
            then Some (AddUartSendData2Queue (write_node (ucast inverter_index + 1) 0 10) s)
            else Some s
          } else Some s
        } else Linkage_stream_extra_loop (Suc i) inverter_index start_flag s
      } else Some s)"
  by pat_completeness auto
termination
  by (relation "measure (\<lambda>(i, _, _, s). unat (Belt_Number (user_paras_local s)) - i)") auto

declare Linkage_stream_extra_loop.simps [simp del]

definition Linkage_stream_extra_signal :: "u8 \<Rightarrow> u8 \<Rightarrow> fw \<Rightarrow> fw option" where
  "Linkage_stream_extra_signal = Linkage_stream_extra_loop 0"

definition Linkage_Stream_Ctrl_Handle :: "u8 \<Rightarrow> u8 \<Rightarrow> fw \<Rightarrow> fw option" where
  "Linkage_Stream_Ctrl_Handle inverter_index start_flag s =
     (let p = user_paras_local s; k = unat inverter_index in do {
        c \<leftarrow> idx (belt_para p) k;
        if drop_bit 1 (Func_Select_Switch c) AND 1 \<noteq> 0 then do {
          v \<leftarrow> idx (inverter_status_buffer s) k;
          if start_flag = 1 then
            if drop_bit 4 (fault_code v) AND 1 = 0 \<and> get_inverter_fault_status v \<noteq> 1
            then Some (AddUartSendData2Queue
              (write_node (ucast inverter_index + 1) (ucast (g_speed_gear_status s)) (Start_Delay_Time c)) s)
            else Some s
          else if drop_bit 3 (Func_Select_Switch c) AND 1 = 1 then Some s
          else if drop_bit 4 (fault_code v) AND 1 \<noteq> 0
          then Some (AddUartSendData2Queue (write_node (ucast inverter_index + 1) 0 10) s)
          else Some s
        } else Some s
      })"

text \<open>\<open>Block_Check_belt i\<close> is the body of the loop of \<open>Block_Check_Ctrl_Handle\<close>.\<close>

definition Block_Check_belt :: "nat \<Rightarrow> fw \<Rightarrow> fw option" where
  "Block_Check_belt i t = do {
     b \<leftarrow> idx (belt_para (user_paras_local t)) i;
     if drop_bit 2 (Func_Select_Switch b) AND 1 \<noteq> 0 then do {
       v \<leftarrow> idx (inverter_status_buffer t) i;
       if drop_bit 4 (fault_code v) AND 1 \<noteq> 0 then
         if get_photo_input_status (of_nat i) t = 1 then do {
           c \<leftarrow> idx (block_check_time_cnt t) i;
           if c + 1 \<ge> ucast (Block_Check_Time b) then do {
             cnt \<leftarrow> upd (block_check_time_cnt t) i 0;
             let t1 = t\<lparr>block_check_time_cnt := cnt\<rparr>;
             let t2 = AddUartSendData2Queue (write_node (of_nat i + 1) 0 10) t1;
             let t3 = L_ALARM_OUT Bit_SET t2;
             buf \<leftarrow> upd (inverter_status_buffer t3) i (v\<lparr>fault_code := fault_code v OR 2\<rparr>);
             Some (t3\<lparr>inverter_status_buffer := buf\<rparr>)
           } else do {
             cnt \<leftarrow> upd (block_check_time_cnt t) i (c + 1);
             Some (t\<lparr>block_check_time_cnt := cnt\<rparr>)
           }
         } else do {
           cnt \<leftarrow> upd (block_check_time_cnt t) i 0;
           Some (t\<lparr>block_check_time_cnt := cnt\<rparr>)
         }
       else Some t
     } else Some t
   }"

definition Block_Check_Ctrl_Handle :: "fw \<Rightarrow> fw option" where
  "Block_Check_Ctrl_Handle s =
     (if g_block_disable_flag s = 1 then Some s
      else for_u8 (Belt_Number (user_paras_local s)) Block_Check_belt s)"

definition Reset_Ctrl_belt :: "nat \<Rightarrow> fw \<Rightarrow> fw option" where
  "Reset_Ctrl_belt i t = do {
     v \<leftarrow> idx (inverter_status_buffer t) i;
     let fc = (if drop_bit 1 (fault_code v) AND 1 \<noteq> 0
               then fault_code v AND NOT 2 else fault_code v);
     buf \<leftarrow> upd (inverter_status_buffer t) i (v\<lparr>fault_code := fc\<rparr>);
     let t1 = t\<lparr>inverter_status_buffer := buf\<rparr>;
     Some (if drop_bit 8 fc AND 0xFF \<noteq> 0
           then AddUartSendData2Queue (reset_node (of_nat i + 1)) t1 else t1)
   }"

definition Reset_Ctrl_Handle :: "fw \<Rightarrow> fw option" where
  "Reset_Ctrl_Handle s = do {
     s1 \<leftarrow> for_u8 (Belt_Number (user_paras_local s)) Reset_Ctrl_belt s;
     Some ((L_ALARM_OUT Bit_RESET s1)\<lparr>reset_start_time_cnt := 500\<rparr>)
   }"

text \<open>The 8-bit counter starts at the low byte of \<open>Belt_Number\<close>.\<close>

definition Reset_Start_belt :: "nat \<Rightarrow> fw \<Rightarrow> fw option" where
  "Reset_Start_belt i t = do {
     v \<leftarrow> idx (inverter_status_buffer t) (i - 1);
     if drop_bit 4 (fault_code v) AND 1 = 0 then do {
       b \<leftarrow> idx (belt_para (user_paras_local t)) (i - 1);
       Some (AddUartSendData2Queue
         (write_node (of_nat i) (ucast (g_speed_gear_status t)) (Start_Delay_Time b)) t)
     } else Some t
   }"

definition Reset_Start_Inverter_Handle :: "fw \<Rightarrow> fw option" where
  "Reset_Start_Inverter_Handle s =
     (if Belt_Number (user_paras_local s) = 0 then Some s
      else if g_speed_gear_status s = 0 then Some s
      else if reset_start_flag s \<noteq> 1 then Some s
      else
        let s1 = s\<lparr>reset_start_flag := 0\<rparr> in
        if input_state (input_info (bStreamInfo s1)) = 0
        then for_down (unat (ucast (Belt_Number (user_paras_local s1)) :: u8)) Reset_Start_belt s1
        else Some s1)"

definition logic_upstream_io_allow_output :: "fw \<Rightarrow> fw option" where
  "logic_upstream_io_allow_output s = do {
     v \<leftarrow> idx (inverter_status_buffer s) 0;
     Some (if drop_bit 4 (fault_code v) AND 1 = 1
           then B_STREAM_OUT Bit_SET s else B_STREAM_OUT Bit_RESET s)
   }"

section \<open>Well-formed states\<close>

text \<open>The arrays have the sizes of their declarations and the local parameters name at most
  ten belts.\<close>

definition belts_ok :: "fw \<Rightarrow> bool" where
  "belts_ok s \<longleftrightarrow> wf_paras (user_paras_local s) \<and> Belt_Number (user_paras_local s) \<le> 10 \<and>
     length (inverter_status_buffer s) = 10 \<and> length (block_check_time_cnt s) = 10"

abbreviation belts :: "fw \<Rightarrow> nat" where
  "belts s \<equiv> unat (Belt_Number (user_paras_local s))"

lemma belts_okD:
  assumes "belts_ok s"
  shows "length (belt_para (user_paras_local s)) = 10" "belts s \<le> 10"
    "length (inverter_status_buffer s) = 10" "length (block_check_time_cnt s) = 10"
    "Belt_Number (user_paras_local s) \<le> 255"
proof -
  show "belts s \<le> 10"
    using assms word_le_nat_alt [of "Belt_Number (user_paras_local s)" 10]
    by (simp add: belts_ok_def)
  then show "Belt_Number (user_paras_local s) \<le> 255"
    using word_le_nat_alt [of "Belt_Number (user_paras_local s)" 255] by simp
qed (use assms in \<open>auto simp: belts_ok_def wf_paras_def\<close>)

lemma for_u8_belts [loop_simps]:
  "belts_ok s \<Longrightarrow> for_u8 (Belt_Number (user_paras_local s)) body t = for_up 0 (belts s) body t"
  using belts_okD(5) [of s] by (simp add: for_u8_def)

section \<open>Commanding all belts\<close>

text \<open>What \<open>Speed_Ctrl_Process\<close> queues: on a stop (and an emergency stop) one stop command
  per belt from the first belt to the last, on a start one command per belt from the last
  belt to the first, on a gear change one command per belt in order.\<close>

definition stop_nodes :: "USER_PARAS_T \<Rightarrow> COMM_NODE_T list" where
  "stop_nodes p = map (\<lambda>i. write_node (of_nat i + 1) 0 (Stop_Delay_Time (belt_para p ! i)))
     [0..<unat (Belt_Number p)]"

definition emergency_nodes :: "USER_PARAS_T \<Rightarrow> COMM_NODE_T list" where
  "emergency_nodes p = map (\<lambda>i. write_node (of_nat i + 1) 0 20) [0..<unat (Belt_Number p)]"

definition start_nodes :: "u8 \<Rightarrow> USER_PARAS_T \<Rightarrow> COMM_NODE_T list" where
  "start_nodes g p = rev (map (\<lambda>i. write_node (of_nat i + 1) (ucast g)
     (Start_Delay_Time (belt_para p ! i))) [0..<unat (Belt_Number p)])"

definition regear_nodes :: "u8 \<Rightarrow> USER_PARAS_T \<Rightarrow> COMM_NODE_T list" where
  "regear_nodes g p = map (\<lambda>i. write_node (of_nat i + 1) (ucast g) 20) [0..<unat (Belt_Number p)]"

lemma for_up_AddUart:
  assumes "\<And>i t. i < n \<Longrightarrow> body i t = Some (AddUartSendData2Queue (f i) t)"
  shows "for_up 0 n body s = Some (AddUartNodes (map f [0..<n]) s)"
  using for_up_fold [of 0 n body "\<lambda>i. AddUartSendData2Queue (f i)"] assms
  by (simp add: fold_AddUart)

lemma rev_upt_map: "rev (map f [0..<n]) = map (\<lambda>i. f (n - i - 1)) [0..<n]"
  by (rule nth_equalityI) (simp_all add: rev_nth)

lemma start_nodes_loop:
  assumes "belts_ok s"
  shows "for_u8 (Belt_Number (user_paras_local s)) (\<lambda>i t. do {
           b \<leftarrow> idx (belt_para (user_paras_local s)) (belts s - i - 1);
           Some (AddUartSendData2Queue
             (write_node (Belt_Number (user_paras_local s) - of_nat i) g (Start_Delay_Time b)) t) }) t
         = Some (AddUartNodes (rev (map (\<lambda>i. write_node (of_nat i + 1) g
             (Start_Delay_Time (belt_para (user_paras_local s) ! i))) [0..<belts s])) t)"
proof -
  have no: "of_nat (belts s - i - 1) + 1 = Belt_Number (user_paras_local s) - of_nat i"
    if "i < belts s" for i
  proof -
    from that obtain d where d: "belts s = Suc (i + d)"
      by (auto simp: less_iff_Suc_add)
    have "Belt_Number (user_paras_local s) = of_nat (belts s)" by simp
    with d show ?thesis by (simp del: of_nat_unat)
  qed
  show ?thesis
    using belts_okD [OF assms] unfolding rev_upt_map for_u8_belts [OF assms]
    by (intro for_up_AddUart) (simp add: idx_Some no)
qed

theorem Speed_Ctrl_Process_eq:
  assumes "belts_ok s"
  shows "Speed_Ctrl_Process g s = Some (
    if g = EMERGENCY_STOP then
      B_RUN_STA_OUT Bit_RESET ((AddUartNodes (emergency_nodes (user_paras_local s))
        (InitUartSendQueue s))\<lparr>g_speed_gear_status := 0\<rparr>)
    else if g = 0 then
      B_RUN_STA_OUT Bit_RESET ((AddUartNodes (stop_nodes (user_paras_local s))
        (InitUartSendQueue s))\<lparr>g_speed_gear_status := 0\<rparr>)
    else if g_speed_gear_status s = 0 then
      B_RUN_STA_OUT Bit_SET ((AddUartNodes (start_nodes g (user_paras_local s)) s)
        \<lparr>g_speed_gear_status := g\<rparr>)
    else
      B_RUN_STA_OUT Bit_SET ((AddUartNodes (regear_nodes g (user_paras_local s)) s)
        \<lparr>g_speed_gear_status := g\<rparr>))"
proof -
  note d = belts_okD [OF assms]
  have stop: "for_u8 (Belt_Number (user_paras_local s)) (\<lambda>i t. do {
       b \<leftarrow> idx (belt_para (user_paras_local s)) i;
       Some (AddUartSendData2Queue (write_node (of_nat i + 1) 0 (Stop_Delay_Time b)) t) }) t
     = Some (AddUartNodes (stop_nodes (user_paras_local s)) t)" for t
    unfolding stop_nodes_def for_u8_belts [OF assms]
    using d by (intro for_up_AddUart) (simp add: idx_Some)
  have all: "for_u8 (Belt_Number (user_paras_local s)) (\<lambda>i t.
       Some (AddUartSendData2Queue (write_node (of_nat i + 1) h 20) t)) t
     = Some (AddUartNodes (map (\<lambda>i. write_node (of_nat i + 1) h 20) [0..<belts s]) t)" for h t
    unfolding for_u8_belts [OF assms] by (intro for_up_AddUart) simp
  show ?thesis
    unfolding Speed_Ctrl_Process_def Let_def start_nodes_loop [OF assms]
    by (simp add: stop all emergency_nodes_def regear_nodes_def start_nodes_def word_gt_0)
qed

lemma AddUartNodes_frame [simp]:
  "user_paras_local (AddUartNodes xs s) = user_paras_local s"
  "inverter_status_buffer (AddUartNodes xs s) = inverter_status_buffer s"
  "block_check_time_cnt (AddUartNodes xs s) = block_check_time_cnt s"
  "g_speed_gear_status (AddUartNodes xs s) = g_speed_gear_status s"
  "ODR (AddUartNodes xs s) = ODR s"
  "IDR (AddUartNodes xs s) = IDR s"
  "reset_start_flag (AddUartNodes xs s) = reset_start_flag s"
  by (simp_all add: AddUartNodes_def)

lemma length_speed_nodes [simp]:
  "length (stop_nodes p) = unat (Belt_Number p)"
  "length (emergency_nodes p) = unat (Belt_Number p)"
  "length (start_nodes g p) = unat (Belt_Number p)"
  "length (regear_nodes g p) = unat (Belt_Number p)"
  by (simp_all add: stop_nodes_def emergency_nodes_def start_nodes_def regear_nodes_def)

section \<open>Linkage between belts\<close>

text \<open>What the linkage handlers may queue: a stop command, or a command at the station's
  current gear to a belt that is not running, always for one of its belts.\<close>

definition linkage_node :: "fw \<Rightarrow> COMM_NODE_T \<Rightarrow> bool" where
  "linkage_node s x \<longleftrightarrow> 0 < inverter_no x \<and> inverter_no x \<le> 10 \<and> rw_flag x = 1 \<and> comm_retry x = 3 \<and>
     (speed_gear x = 0 \<or>
      speed_gear x = ucast (g_speed_gear_status s) \<and>
      \<not> bit (fault_code (inverter_status_buffer s ! (unat (inverter_no x) - 1))) 4)"

lemma inverter_no_of_belt:
  assumes "unat (w :: u16) < 10"
  shows "unat (w + 1) = Suc (unat w)" "0 < w + 1" "w + 1 \<le> 10"
proof -
  show *: "unat (w + 1) = Suc (unat w)"
    using assms by (simp add: unat_plus_if')
  from * show "0 < w + 1" by (metis nat.distinct(1) unat_0 word_gt_0)
  from * assms show "w + 1 \<le> 10" by (simp add: word_le_nat_alt)
qed

lemma stream_signal_loop_defined:
  "belts_ok s \<Longrightarrow> \<exists>l. stream_signal_loop i s l0 = Some l"
proof (induction i s l0 rule: stream_signal_loop.induct)
  case (1 i s l0)
  then show ?case
    using belts_okD [OF "1.prems"] by (subst stream_signal_loop.simps) (auto simp: idx_def)
qed

text \<open>An outcome of a linkage handler: nothing, or one command appended.\<close>

definition linkage_outcome :: "fw \<Rightarrow> fw option \<Rightarrow> bool" where
  "linkage_outcome s r \<longleftrightarrow>
     (\<exists>xs. r = Some (AddUartNodes xs s) \<and> list_all (linkage_node s) xs \<and> length xs \<le> 1)"

lemma linkage_outcome_none [intro, simp]: "linkage_outcome s (Some s)"
  unfolding linkage_outcome_def by (rule exI [of _ "[]"]) simp

lemma linkage_outcome_stop [intro]:
  "unat (k :: u8) < 10 \<Longrightarrow>
   linkage_outcome s (Some (AddUartSendData2Queue (write_node (ucast k + 1) 0 d) s))"
  unfolding linkage_outcome_def
  by (rule exI [of _ "[write_node (ucast k + 1) 0 d]"])
    (simp add: AddUartNodes_single linkage_node_def write_node_def inverter_no_of_belt)

lemma linkage_outcome_start [intro]:
  "unat (k :: u8) < 10 \<Longrightarrow> \<not> bit (fault_code (inverter_status_buffer s ! unat k)) 4 \<Longrightarrow>
   linkage_outcome s (Some (AddUartSendData2Queue
     (write_node (ucast k + 1) (ucast (g_speed_gear_status s)) d) s))"
  unfolding linkage_outcome_def
  by (rule exI [of _ "[write_node (ucast k + 1) (ucast (g_speed_gear_status s)) d]"])
    (simp add: AddUartNodes_single linkage_node_def write_node_def inverter_no_of_belt)

lemma linkage_photo:
  assumes "belts_ok s" "unat k < 9"
  shows "linkage_outcome s (Linkage_Stop_Photo_Ctrl_Handle k s)"
proof -
  note d = belts_okD [OF assms(1)]
  obtain l where "stream_signal_loop 0 s 1 = Some l"
    using stream_signal_loop_defined [OF assms(1)] by blast
  then show ?thesis
    using d assms(2) linkage_outcome_stop [of k s 10]
    unfolding Linkage_Stop_Photo_Ctrl_Handle_def Let_def
    by (auto simp: idx_Some)
qed

lemma linkage_extra_loop:
  "belts_ok s \<Longrightarrow> belts s \<noteq> 0 \<longrightarrow> unat k < 10 \<Longrightarrow>
     linkage_outcome s (Linkage_stream_extra_loop i k f s)"
proof (induction i k f s rule: Linkage_stream_extra_loop.induct)
  case (1 i k f s)
  note d = belts_okD [OF "1.prems"(1)]
  show ?case
    using d 1 linkage_outcome_stop [of k s 10] linkage_outcome_start [of k s]
    by (subst Linkage_stream_extra_loop.simps) (simp add: Let_def idx_Some bit_tests bit_drop_bit_eq)
qed

lemma linkage_stream:
  assumes "belts_ok s" "unat k < 10"
  shows "linkage_outcome s (Linkage_Stream_Ctrl_Handle k f s)"
  using belts_okD [OF assms(1)] assms(2) linkage_outcome_stop [of k s 10]
    linkage_outcome_start [of k s]
  unfolding Linkage_Stream_Ctrl_Handle_def Let_def
  by (simp add: idx_Some bit_tests bit_drop_bit_eq)

lemma belt_index_u8:
  "belts_ok s \<Longrightarrow> belts s \<noteq> 0 \<Longrightarrow>
     unat (ucast (Belt_Number (user_paras_local s) - 1) :: u8) = belts s - 1"
proof -
  assume ok: "belts_ok s" and n: "belts s \<noteq> 0"
  then have "unat (Belt_Number (user_paras_local s) - 1) = belts s - 1"
    by (metis unat_eq_zero unat_minus_one)
  with belts_okD(2) [OF ok] show ?thesis
    by (simp add: unsigned_ucast_eq take_bit_eq_mod)
qed

lemma linkage_extra:
  assumes "belts_ok s"
  shows "linkage_outcome s
    (Linkage_stream_extra_signal (ucast (Belt_Number (user_paras_local s) - 1)) f s)"
  unfolding Linkage_stream_extra_signal_def
  using belts_okD(2) [OF assms] belt_index_u8 [OF assms] by (intro linkage_extra_loop assms) auto

section \<open>Jam detection and fault reset\<close>

text \<open>Arrays processed up to index \<open>k\<close>.\<close>

definition upto_map :: "nat \<Rightarrow> (nat \<Rightarrow> 'a) \<Rightarrow> 'a list \<Rightarrow> 'a list" where
  "upto_map k f xs = map (\<lambda>i. if i < k then f i else xs ! i) [0..<length xs]"

lemma upto_map_0 [simp]: "upto_map 0 f xs = xs"
  by (simp add: upto_map_def map_nth)

lemma length_upto_map [simp]: "length (upto_map k f xs) = length xs"
  by (simp add: upto_map_def)

lemma nth_upto_map [simp]: "i < length xs \<Longrightarrow> upto_map k f xs ! i = (if i < k then f i else xs ! i)"
  by (simp add: upto_map_def)

lemma upto_map_update:
  "k < length xs \<Longrightarrow> (upto_map k f xs)[k := f k] = upto_map (Suc k) f xs"
  by (rule nth_equalityI) (auto simp: nth_list_update)

lemma upto_map_same:
  "f k = xs ! k \<Longrightarrow> upto_map (Suc k) f xs = upto_map k f xs"
  by (rule nth_equalityI) (auto simp: less_Suc_eq)

text \<open>Belt \<open>i\<close> is watched when its jam detection is on and it runs; while its photo
  sensor is covered its counter counts, and at the configured time the belt is stopped.\<close>

definition block_watched :: "fw \<Rightarrow> nat \<Rightarrow> bool" where
  "block_watched s i \<longleftrightarrow> bit (Func_Select_Switch (belt_para (user_paras_local s) ! i)) 2 \<and>
     bit (fault_code (inverter_status_buffer s ! i)) 4"

definition block_fires :: "fw \<Rightarrow> nat \<Rightarrow> bool" where
  "block_fires s i \<longleftrightarrow> block_watched s i \<and> get_photo_input_status (of_nat i) s = 1 \<and>
     ucast (Block_Check_Time (belt_para (user_paras_local s) ! i)) \<le> block_check_time_cnt s ! i + 1"

definition block_cnt :: "fw \<Rightarrow> nat \<Rightarrow> u32" where
  "block_cnt s i = (if \<not> block_watched s i then block_check_time_cnt s ! i
     else if get_photo_input_status (of_nat i) s = 1 \<and> \<not> block_fires s i
     then block_check_time_cnt s ! i + 1 else 0)"

definition block_status :: "fw \<Rightarrow> nat \<Rightarrow> INVERTER_STATUS_T" where
  "block_status s i = (let v = inverter_status_buffer s ! i in
     if block_fires s i then v\<lparr>fault_code := fault_code v OR 2\<rparr> else v)"

definition block_nodes :: "nat \<Rightarrow> fw \<Rightarrow> COMM_NODE_T list" where
  "block_nodes k s = map (\<lambda>i. write_node (of_nat i + 1) 0 10) (filter (block_fires s) [0..<k])"

definition block_upto :: "nat \<Rightarrow> fw \<Rightarrow> fw" where
  "block_upto k s = (AddUartNodes (block_nodes k s) s)
     \<lparr>ODR := (if \<exists>i<k. block_fires s i then ODR (L_ALARM_OUT Bit_SET s) else ODR s),
      block_check_time_cnt := upto_map k (block_cnt s) (block_check_time_cnt s),
      inverter_status_buffer := upto_map k (block_status s) (inverter_status_buffer s)\<rparr>"

lemma get_photo_IDR: "IDR s = IDR t \<Longrightarrow> get_photo_input_status k s = get_photo_input_status k t"
  by (simp add: get_photo_input_status_def B_PHOTO_1_IN_STATE_def B_PHOTO_2_IN_STATE_def
      B_PHOTO_3_IN_STATE_def B_PHOTO_4_IN_STATE_def B_PHOTO_5_IN_STATE_def input_bit_def
      GPIO_ReadInputDataBit_def)

lemma block_upto_fields [simp]:
  "user_paras_local (block_upto k s) = user_paras_local s"
  "inverter_status_buffer (block_upto k s) = upto_map k (block_status s) (inverter_status_buffer s)"
  "block_check_time_cnt (block_upto k s) = upto_map k (block_cnt s) (block_check_time_cnt s)"
  "get_photo_input_status i (block_upto k s) = get_photo_input_status i s"
  by (auto simp: block_upto_def intro: get_photo_IDR)

lemma block_nodes_Suc:
  "block_nodes (Suc k) s =
     block_nodes k s @ (if block_fires s k then [write_node (of_nat k + 1) 0 10] else [])"
  by (simp add: block_nodes_def)

lemma L_ALARM_set:
  "L_ALARM_OUT Bit_SET s = s\<lparr>ODR := (ODR s)(GPIOE := ODR s GPIOE OR GPIO_Pin 5)\<rparr>"
  by (simp add: L_ALARM_OUT_def GPIO_WriteBit_def)

lemma block_upto_Suc_quiet:
  "k < length (inverter_status_buffer s) \<Longrightarrow> k < length (block_check_time_cnt s) \<Longrightarrow>
   \<not> block_fires s k \<Longrightarrow> block_upto (Suc k) s =
     (block_upto k s)\<lparr>block_check_time_cnt := upto_map (Suc k) (block_cnt s) (block_check_time_cnt s)\<rparr>"
  by (simp add: block_upto_def block_nodes_Suc upto_map_same block_status_def less_Suc_eq
      ex_disj_distrib conj_disj_distribR)

lemma AddUartNodes_snoc: "AddUartNodes (xs @ [x]) s = AddUartSendData2Queue x (AddUartNodes xs s)"
  by (simp add: AddUartNodes_append AddUartNodes_single)

lemma block_upto_Suc_fires:
  assumes "block_fires s k"
  shows "block_upto (Suc k) s =
    (L_ALARM_OUT Bit_SET (AddUartSendData2Queue (write_node (of_nat k + 1) 0 10) (block_upto k s)))
      \<lparr>block_check_time_cnt := upto_map (Suc k) (block_cnt s) (block_check_time_cnt s),
       inverter_status_buffer := upto_map (Suc k) (block_status s) (inverter_status_buffer s)\<rparr>"
proof -
  have "\<exists>i<Suc k. block_fires s i" using assms by blast
  then show ?thesis
    using assms unfolding block_upto_def L_ALARM_set
    by (simp add: block_nodes_Suc AddUartNodes_snoc AddUartSendData2Queue_def AddUartNodes_def
        or.assoc uartq.enq_all_def)
qed

lemma Block_Check_belt_quiet:
  assumes "belts_ok s" "i < belts s" "\<not> block_fires s i"
  shows "Block_Check_belt i (block_upto i s) = Some (block_upto (Suc i) s)"
proof -
  note d = belts_okD [OF assms(1)]
  have eq: "block_upto (Suc i) s =
      (block_upto i s)\<lparr>block_check_time_cnt := upto_map (Suc i) (block_cnt s) (block_check_time_cnt s)\<rparr>"
    using d assms by (intro block_upto_Suc_quiet) auto
  show ?thesis
  proof (cases "block_watched s i")
    case True
    then have "upto_map (Suc i) (block_cnt s) (block_check_time_cnt s) =
        (upto_map i (block_cnt s) (block_check_time_cnt s))[i := block_cnt s i]"
      using d assms(2) by (simp add: upto_map_update)
    with True assms d show ?thesis
      unfolding Block_Check_belt_def eq
      by (simp add: array_simps bit_tests bit_drop_bit_eq block_watched_def block_cnt_def block_fires_def)
  next
    case False
    then have "block_upto (Suc i) s = block_upto i s"
      unfolding eq by (simp add: upto_map_same block_cnt_def block_upto_def)
    with False assms(2) d show ?thesis
      unfolding Block_Check_belt_def
      by (simp add: array_simps bit_tests bit_drop_bit_eq block_watched_def)
  qed
qed

lemma Block_Check_belt_fires:
  assumes "belts_ok s" "i < belts s" "block_fires s i"
  shows "Block_Check_belt i (block_upto i s) = Some (block_upto (Suc i) s)"
proof -
  note d = belts_okD [OF assms(1)]
  have c: "upto_map (Suc i) (block_cnt s) (block_check_time_cnt s) =
        (upto_map i (block_cnt s) (block_check_time_cnt s))[i := 0]"
    using d assms upto_map_update [of i "block_check_time_cnt s" "block_cnt s"]
    by (simp add: block_cnt_def block_fires_def)
  have v: "upto_map (Suc i) (block_status s) (inverter_status_buffer s) =
        (upto_map i (block_status s) (inverter_status_buffer s))
          [i := (inverter_status_buffer s ! i)
            \<lparr>fault_code := fault_code (inverter_status_buffer s ! i) OR 2\<rparr>]"
    using d assms upto_map_update [of i "inverter_status_buffer s" "block_status s"]
    by (simp add: block_status_def Let_def)
  show ?thesis
    using d assms(2,3)
    unfolding Block_Check_belt_def block_upto_Suc_fires [OF assms(3)] L_ALARM_set
      AddUartSendData2Queue_def c v Let_def
    by (simp add: array_simps bit_tests bit_drop_bit_eq block_watched_def block_fires_def)
qed

theorem Block_Check_Ctrl_Handle_eq:
  assumes "belts_ok s" "g_block_disable_flag s \<noteq> 1"
  shows "Block_Check_Ctrl_Handle s = Some (block_upto (belts s) s)"
proof -
  have "block_upto 0 s = s"
    by (simp add: block_upto_def block_nodes_def)
  then have "\<exists>s'. for_up 0 (belts s) Block_Check_belt s = Some s' \<and> s' = block_upto (belts s) s"
    by (intro for_up_rule [where P = "\<lambda>i t. t = block_upto i s"])
      (use assms Block_Check_belt_quiet Block_Check_belt_fires in auto)
  then show ?thesis
    using assms unfolding Block_Check_Ctrl_Handle_def for_u8_belts [OF assms(1)] by simp
qed

text \<open>The reset clears the jam bit of every belt, queues a fault reset for every inverter
  that reports a fault code, and switches the alarm lamp off.\<close>

definition clear_block :: "INVERTER_STATUS_T \<Rightarrow> INVERTER_STATUS_T" where
  "clear_block v = v\<lparr>fault_code := fault_code v AND NOT 2\<rparr>"

definition reset_nodes :: "nat \<Rightarrow> fw \<Rightarrow> COMM_NODE_T list" where
  "reset_nodes k s = map (\<lambda>i. reset_node (of_nat i + 1))
     (filter (\<lambda>i. hi8 (fault_code (inverter_status_buffer s ! i)) \<noteq> 0) [0..<k])"

definition reset_upto :: "nat \<Rightarrow> fw \<Rightarrow> fw" where
  "reset_upto k s = (AddUartNodes (reset_nodes k s) s)\<lparr>inverter_status_buffer :=
     upto_map k (\<lambda>i. clear_block (inverter_status_buffer s ! i)) (inverter_status_buffer s)\<rparr>"

lemma bit_2: "bit (2 :: u16) n = (n = 1)"
  using bit_exp_iff [of 1 n, where ?'a = u16] by auto

lemma NOT_2: "NOT 2 = (- 3 :: u16)"
  by simp

lemma bit_clear: "bit (w AND - 3 :: u16) n = (bit w n \<and> n \<noteq> 1)"
  unfolding NOT_2 [symmetric] bit_and_iff bit_not_iff bit_2
  by (auto dest: bit_imp_le_length)

lemma bit_1_clear:
  "(if drop_bit 1 w AND 1 \<noteq> 0 then w AND NOT 2 else w) = (w AND - 3 :: u16)"
proof -
  have "w AND - 3 = w" if "\<not> bit w 1"
    using that by (auto simp: bit_eq_iff [of "w AND - 3"] bit_clear)
  then show ?thesis by (simp add: bit_tests bit_drop_bit_eq)
qed

lemma hi8_eq_0: "(drop_bit 8 w AND 0xFF = 0) = (hi8 (w :: u16) = 0)"
proof
  assume *: "drop_bit 8 w AND 0xFF = 0"
  show "hi8 w = 0" unfolding hi8_def * by simp
next
  assume "hi8 w = 0"
  then have "\<not> bit w (8 + n)" if "n < 8" for n
    using bit_hi8 [of w n] that by simp
  then show "drop_bit 8 w AND 0xFF = 0"
    by (intro bit_word_eqI) (simp only: bit_and_iff bit_drop_bit_eq bit_255, auto)
qed

lemma Reset_Ctrl_belt_step:
  assumes "belts_ok s" "i < belts s"
  shows "Reset_Ctrl_belt i (reset_upto i s) = Some (reset_upto (Suc i) s)"
proof -
  note d = belts_okD [OF assms(1)]
  have v: "upto_map (Suc i) (\<lambda>i. clear_block (inverter_status_buffer s ! i)) (inverter_status_buffer s)
      = (upto_map i (\<lambda>i. clear_block (inverter_status_buffer s ! i)) (inverter_status_buffer s))
          [i := clear_block (inverter_status_buffer s ! i)]"
    using d assms(2) upto_map_update [of i "inverter_status_buffer s"
        "\<lambda>i. clear_block (inverter_status_buffer s ! i)"] by simp
  show ?thesis
    using d assms(2)
    unfolding Reset_Ctrl_belt_def reset_upto_def v bit_1_clear Let_def
    by (simp add: array_simps AddUartSendData2Queue_def AddUartNodes_def reset_nodes_def
        clear_block_def hi8_eq_0 uartq.enq_all_def)
qed

theorem Reset_Ctrl_Handle_eq:
  assumes "belts_ok s"
  shows "Reset_Ctrl_Handle s =
    Some ((L_ALARM_OUT Bit_RESET (reset_upto (belts s) s))\<lparr>reset_start_time_cnt := 500\<rparr>)"
proof -
  have "reset_upto 0 s = s"
    by (simp add: reset_upto_def reset_nodes_def)
  then have "\<exists>s'. for_up 0 (belts s) Reset_Ctrl_belt s = Some s' \<and> s' = reset_upto (belts s) s"
    by (intro for_up_rule [where P = "\<lambda>i t. t = reset_upto i s"])
      (use assms Reset_Ctrl_belt_step in auto)
  then show ?thesis
    unfolding Reset_Ctrl_Handle_def for_u8_belts [OF assms] by auto
qed

text \<open>After the reset delay the belts that do not run are started again at the current
  gear, the last one first.\<close>

definition restart_nodes :: "fw \<Rightarrow> COMM_NODE_T list" where
  "restart_nodes s = map (\<lambda>i. write_node (of_nat i + 1) (ucast (g_speed_gear_status s))
       (Start_Delay_Time (belt_para (user_paras_local s) ! i)))
     (filter (\<lambda>i. \<not> bit (fault_code (inverter_status_buffer s ! i)) 4) (rev [0..<belts s]))"

lemma Reset_Start_loop:
  assumes "belts_ok s" "n \<le> 10"
  shows "for_down n Reset_Start_belt s = Some (AddUartNodes
     (map (\<lambda>i. write_node (of_nat i + 1) (ucast (g_speed_gear_status s))
       (Start_Delay_Time (belt_para (user_paras_local s) ! i)))
     (filter (\<lambda>i. \<not> bit (fault_code (inverter_status_buffer s ! i)) 4) (rev [0..<n]))) s)"
  using assms
proof (induction n arbitrary: s)
  case 0
  then show ?case by simp
next
  case (Suc n)
  note d = belts_okD [OF Suc.prems(1)]
  show ?case
  proof (cases "bit (fault_code (inverter_status_buffer s ! n)) 4")
    case True
    with Suc d show ?thesis
      by (simp add: Reset_Start_belt_def array_simps bit_tests bit_drop_bit_eq)
  next
    case False
    let ?s' = "AddUartSendData2Queue (write_node (of_nat n + 1) (ucast (g_speed_gear_status s))
       (Start_Delay_Time (belt_para (user_paras_local s) ! n))) s"
    have "belts_ok ?s'"
      using Suc.prems(1) by (simp add: belts_ok_def AddUartSendData2Queue_def)
    from Suc.IH [OF this] Suc.prems(2) False d show ?thesis
      by (simp add: Reset_Start_belt_def array_simps bit_tests bit_drop_bit_eq AddUartNodes_Cons
          AddUartSendData2Queue_def add.commute)
  qed
qed

theorem Reset_Start_Inverter_Handle_eq:
  assumes "belts_ok s"
  shows "Reset_Start_Inverter_Handle s = Some (
     if belts s \<noteq> 0 \<and> g_speed_gear_status s \<noteq> 0 \<and> reset_start_flag s = 1 then
       if input_state (input_info (bStreamInfo s)) = 0
       then AddUartNodes (restart_nodes s) (s\<lparr>reset_start_flag := 0\<rparr>)
       else s\<lparr>reset_start_flag := 0\<rparr>
     else s)"
proof -
  note d = belts_okD [OF assms]
  have n: "unat (ucast (Belt_Number (user_paras_local s)) :: u8) = belts s"
    using d(2) by (simp add: unsigned_ucast_eq take_bit_eq_mod)
  have "belts_ok (s\<lparr>reset_start_flag := 0\<rparr>)"
    using assms by (simp add: belts_ok_def)
  from Reset_Start_loop [OF this d(2)] show ?thesis
    unfolding Reset_Start_Inverter_Handle_def
    by (simp add: n restart_nodes_def Let_def unat_eq_0)
qed

section \<open>Properties\<close>

text \<open>A station with three belts, used by the witnesses: belt \<open>i\<close> (from 0) has all
  functions enabled, a start delay of \<open>100 + i\<close> and a stop delay of \<open>200 + i\<close>.\<close>

definition demo_belt :: "nat \<Rightarrow> BELT_PARAS_T" where
  "demo_belt i = \<lparr>Func_Select_Switch = 0x0F, Gear_1_Speed_Freq = 1000, Gear_2_Speed_Freq = 2000,
     Gear_3_Speed_Freq = 3000, Gear_4_Speed_Freq = 4000, Gear_5_Speed_Freq = 5000,
     Sleep_Mode_Speed_Freq = 500, Start_Delay_Time = 100 + of_nat i, Stop_Delay_Time = 200 + of_nat i,
     Block_Check_Time = 5, Sleep_Check_Time = 0\<rparr>"

definition demo_paras :: USER_PARAS_T where
  "demo_paras = \<lparr>Version_No_L = 4, Version_No_H = 0x1000, Station_No = 2, Up_Stream_No = 1,
     Down_Stream_No = 3, Belt_Number = 3, belt_para = map demo_belt [0..<10]\<rparr>"

definition demo :: fw where
  "demo = (queues_ready power_on)\<lparr>user_paras_local := demo_paras\<rparr>"

lemma demo_ok [simp]: "belts_ok demo" "queues_inv demo" "user_paras_local demo = demo_paras"
    "uart_nodes demo = []" "g_speed_gear_status demo = 0" "g_block_disable_flag demo = 0"
proof -
  show "queues_inv demo"
    using queues_inv_ready by (simp add: demo_def queues_inv_def)
qed (simp_all add: demo_def queues_ready_def power_on_def InitModuleStatusQueue_def
      InitSendMsgQueue_def InitCanSendQueue_def InitUartSendQueue_def belts_ok_def demo_paras_def
      wf_paras_def)

lemma B_RUN_STA_level:
  "pin_level GPIOE 6 (B_RUN_STA_OUT v s) = (v \<noteq> 0)"
  by (simp add: B_RUN_STA_OUT_def pin_level_write)

lemma B_RUN_STA_frame [simp]:
  "uartSendQueue (B_RUN_STA_OUT v s) = uartSendQueue s"
  "g_speed_gear_status (B_RUN_STA_OUT v s) = g_speed_gear_status s"
  by (simp_all add: B_RUN_STA_OUT_def GPIO_WriteBit_def)

lemma inverter_no_map:
  "map inverter_no (map (\<lambda>i. write_node (of_nat i + 1) (g i) (f i)) is) = map (\<lambda>i. of_nat i + 1) is"
  by (simp add: write_node_def)

text \<open>C8. A stop command (gear 0) or an emergency stop (gear 0xEE) discards every command
  that was still queued and leaves in the UART queue exactly one stop command per belt, for
  inverters 1, 2, ... in this order; the recorded gear becomes 0 and the run output is
  switched off.\<close>

theorem stop_flushes_and_stops_all:
  assumes "belts_ok s" "queues_inv s" "g = 0 \<or> g = EMERGENCY_STOP"
  shows "\<exists>s'. Speed_Ctrl_Process g s = Some s' \<and>
    uart_nodes s' = (if g = 0 then stop_nodes (user_paras_local s)
                     else emergency_nodes (user_paras_local s)) \<and>
    map inverter_no (uart_nodes s') = map (\<lambda>i. of_nat i + 1) [0..<belts s] \<and>
    list_all (\<lambda>x. rw_flag x = 1 \<and> speed_gear x = 0) (uart_nodes s') \<and>
    g_speed_gear_status s' = 0 \<and> \<not> pin_level GPIOE 6 s'"
proof -
  have n: "belts s \<le> 29" using belts_okD(2) [OF assms(1)] by simp
  have q: "uart_nodes (AddUartNodes xs (InitUartSendQueue s)) = xs" if "length xs \<le> 29" for xs
    using that assms(2) by (simp add: uart_nodes_AddUartNodes)
  show ?thesis
    using assms(3) n by (auto simp: Speed_Ctrl_Process_eq [OF assms(1)] q B_RUN_STA_level
        stop_nodes_def emergency_nodes_def write_node_def list_all_iff)
qed

theorem stop_flushes_and_stops_all_witness:
  "\<exists>s'. Speed_Ctrl_Process EMERGENCY_STOP demo = Some s' \<and>
    uart_nodes s' = [write_node 1 0 20, write_node 2 0 20, write_node 3 0 20] \<and>
    \<not> pin_level GPIOE 6 s'"
  using stop_flushes_and_stops_all [of demo EMERGENCY_STOP]
  by (auto simp: emergency_nodes_def demo_paras_def upt_rec)

text \<open>C20. Starting a stopped station at gear \<open>g\<close> queues one command per belt, the last
  belt (furthest downstream) first, each with its own start delay; changing the gear of a
  running station queues one command per belt in order. Commands already queued stay in
  front, and commands beyond the queue's 29 places are dropped.\<close>

theorem start_downstream_first:
  assumes "belts_ok s" "queues_inv s" "g \<noteq> 0" "g \<noteq> EMERGENCY_STOP"
  shows "\<exists>s'. Speed_Ctrl_Process g s = Some s' \<and>
    uart_nodes s' = uart_nodes s @ take (29 - length (uart_nodes s))
      (if g_speed_gear_status s = 0
       then rev (map (\<lambda>i. write_node (of_nat i + 1) (ucast g)
              (Start_Delay_Time (belt_para (user_paras_local s) ! i))) [0..<belts s])
       else map (\<lambda>i. write_node (of_nat i + 1) (ucast g) 20) [0..<belts s]) \<and>
    g_speed_gear_status s' = g \<and> pin_level GPIOE 6 s'"
  using assms(2,3,4)
  by (simp add: Speed_Ctrl_Process_eq [OF assms(1)] uart_nodes_AddUartNodes B_RUN_STA_level
      start_nodes_def regear_nodes_def)

theorem start_downstream_first_witness:
  "\<exists>s'. Speed_Ctrl_Process 2 demo = Some s' \<and>
     uart_nodes s' = [write_node 3 2 102, write_node 2 2 101, write_node 1 2 100]"
  using start_downstream_first [of demo 2] by (auto simp: demo_paras_def demo_belt_def upt_rec)

text \<open>C17. Whatever triggers them, the linkage handlers (photo sensor, downstream input,
  status of the neighbouring station) are defined and queue at most one command. It is for one
  of the belts, and it either stops it or, when the belt is not running, starts it at the
  station's own gear. In particular no linkage event sets a belt in motion while the station is
  stopped (gear 0).\<close>

theorem linkage_commands_safe:
  assumes "belts_ok s" "queues_inv s"
    and "r = Linkage_Stop_Photo_Ctrl_Handle k s \<and> k < 5 \<or>
         r = Linkage_Stream_Ctrl_Handle k f s \<and> k < 10 \<or>
         r = Linkage_stream_extra_signal (ucast (Belt_Number (user_paras_local s) - 1)) f s"
  shows "\<exists>s' xs. r = Some s' \<and> uart_nodes s' = uart_nodes s @ xs \<and> length xs \<le> 1 \<and>
    list_all (\<lambda>x. 0 < inverter_no x \<and> inverter_no x \<le> 10 \<and> rw_flag x = 1 \<and>
      (speed_gear x = 0 \<or> speed_gear x = ucast (g_speed_gear_status s) \<and>
       \<not> bit (fault_code (inverter_status_buffer s ! (unat (inverter_no x) - 1))) 4)) xs"
proof -
  have "linkage_outcome s r"
    using assms linkage_photo [of s k] linkage_stream [of s k f] linkage_extra [of s f]
    by (auto simp: word_less_nat_alt)
  then obtain xs where r: "r = Some (AddUartNodes xs s)" and xs: "list_all (linkage_node s) xs"
      "length xs \<le> 1"
    by (auto simp: linkage_outcome_def)
  have "list_all (linkage_node s) (take (29 - length (uart_nodes s)) xs)"
    using xs(1) by (auto simp: list_all_iff dest: in_set_takeD)
  with r xs(2) show ?thesis
    using uart_nodes_AddUartNodes [OF assms(2), of xs]
    by (auto simp: list_all_iff linkage_node_def)
qed

theorem linkage_commands_safe_witness:
  "\<exists>s' xs. Linkage_Stream_Ctrl_Handle 1 1 demo = Some s' \<and> uart_nodes s' = xs \<and> length xs \<le> 1"
  using linkage_commands_safe [of demo "Linkage_Stream_Ctrl_Handle 1 1 demo" 1 1] by auto

lemma stream_signal_loop_eq:
  "belts_ok s \<Longrightarrow> input_state (input_info (bStreamInfo s)) \<le> 1 \<Longrightarrow>
   stream_signal_loop i s l = Some
     (if \<exists>j. i \<le> j \<and> j < belts s \<and> bit (Func_Select_Switch (belt_para (user_paras_local s) ! j)) 4
      then if Down_Stream_No (user_paras_local s) = 0 then input_state (input_info (bStreamInfo s))
           else g_link_down_stream_status s
      else l)"
proof (induction i s l rule: stream_signal_loop.induct)
  case (1 i s l)
  note d = belts_okD [OF "1.prems"(1)]
  have in01: "input_state (input_info (bStreamInfo s)) = 0 \<or> input_state (input_info (bStreamInfo s)) = 1"
    using "1.prems"(2) by (auto simp: word_le_nat_alt word_unat_eq_iff le_Suc_eq)
  show ?case
  proof (cases "i < belts s")
    case False
    then show ?thesis by (subst stream_signal_loop.simps) auto
  next
    case True
    with d have b: "idx (belt_para (user_paras_local s)) i = Some (belt_para (user_paras_local s) ! i)"
      by (simp add: idx_def)
    show ?thesis
    proof (cases "bit (Func_Select_Switch (belt_para (user_paras_local s) ! i)) 4")
      case True
      with \<open>i < belts s\<close> b in01 show ?thesis
        by (subst stream_signal_loop.simps) (auto simp: bit_tests bit_drop_bit_eq)
    next
      case False
      then have "(\<exists>j. i \<le> j \<and> j < belts s \<and> bit (Func_Select_Switch (belt_para (user_paras_local s) ! j)) 4)
        = (\<exists>j. Suc i \<le> j \<and> j < belts s \<and> bit (Func_Select_Switch (belt_para (user_paras_local s) ! j)) 4)"
        by (metis Suc_leD Suc_leI le_eq_less_or_eq)
      with False True b 1 show ?thesis
        by (subst stream_signal_loop.simps) (simp add: bit_tests bit_drop_bit_eq)
    qed
  qed
qed

text \<open>Whether what follows belt \<open>k\<close> takes over goods: the next belt of the station runs;
  for the last belt, the downstream station reports so, or, if there is none and the
  downstream input is in use, the input is active.\<close>

definition downstream_accepts :: "fw \<Rightarrow> nat \<Rightarrow> bool" where
  "downstream_accepts s k \<longleftrightarrow>
     (if k + 1 = belts s then
        if Down_Stream_No (user_paras_local s) \<noteq> 0 then g_link_down_stream_status s \<noteq> 0
        else (\<exists>j < belts s. bit (Func_Select_Switch (belt_para (user_paras_local s) ! j)) 4) \<longrightarrow>
             input_state (input_info (bStreamInfo s)) \<noteq> 0
      else bit (fault_code (inverter_status_buffer s ! (k + 1))) 4)"

text \<open>C18. Accumulation: when the photo sensor of belt \<open>k\<close> triggers, the belt is stopped
  exactly when accumulation (bit 3) and linkage (bit 1) are enabled for it, it is running, and
  what follows it does not accept goods. Otherwise nothing is queued.\<close>

theorem photo_stops_iff_downstream_blocked:
  assumes "belts_ok s" "belts s \<noteq> 0" "k < 5" "input_state (input_info (bStreamInfo s)) \<le> 1"
  shows "Linkage_Stop_Photo_Ctrl_Handle k s = Some
    (if bit (Func_Select_Switch (belt_para (user_paras_local s) ! unat k)) 3 \<and>
        bit (Func_Select_Switch (belt_para (user_paras_local s) ! unat k)) 1 \<and>
        bit (fault_code (inverter_status_buffer s ! unat k)) 4 \<and>
        \<not> downstream_accepts s (unat k)
     then AddUartSendData2Queue (write_node (ucast k + 1) 0 10) s else s)"
proof -
  note d = belts_okD [OF assms(1)]
  have k: "unat k < 5" using assms(3) by (simp add: word_less_nat_alt)
  have run: "(ucast (w AND 1) :: u8) = 0 \<longleftrightarrow> \<not> bit (w :: u16) 0" for w
  proof (cases "bit w 0")
    case True
    then have "w AND 1 = 1" by (simp only: bit_tests)
    then show ?thesis using True by (simp only:) simp
  next
    case False
    then have "w AND 1 = 0" by (simp only: bit_tests simp_thms)
    then show ?thesis using False by (simp only:) simp
  qed
  show ?thesis
    using d k assms(2)
    unfolding Linkage_Stop_Photo_Ctrl_Handle_def Let_def stream_signal_loop_eq [OF assms(1,4)]
    by (simp add: idx_Some bit_tests bit_drop_bit_eq run downstream_accepts_def unat_eq_0)
qed

text \<open>A running last belt with no downstream station and its downstream input not in use
  is left alone; with the input in use (bit 4) and inactive it is stopped.\<close>

definition demo_last :: "u16 \<Rightarrow> fw" where
  "demo_last sw = demo\<lparr>user_paras_local := demo_paras\<lparr>Down_Stream_No := 0, Belt_Number := 1,
       belt_para := map (\<lambda>i. (demo_belt i)\<lparr>Func_Select_Switch := sw\<rparr>) [0..<10]\<rparr>,
     inverter_status_buffer := replicate 10 (zero_inverter\<lparr>fault_code := 0x10\<rparr>)\<rparr>"

lemma demo_last_ok: "belts_ok (demo_last sw)" "belts (demo_last sw) = 1"
    "input_state (input_info (bStreamInfo (demo_last sw))) = 0"
    "Func_Select_Switch (belt_para (user_paras_local (demo_last sw)) ! 0) = sw"
    "fault_code (inverter_status_buffer (demo_last sw) ! 0) = 0x10"
    "Down_Stream_No (user_paras_local (demo_last sw)) = 0"
  by (simp_all add: demo_last_def belts_ok_def wf_paras_def demo_paras_def demo_def power_on_def
      queues_ready_def InitModuleStatusQueue_def InitSendMsgQueue_def InitCanSendQueue_def
      InitUartSendQueue_def zero_button_def zero_input_def)

theorem photo_stops_iff_downstream_blocked_witness:
  "Linkage_Stop_Photo_Ctrl_Handle 0 (demo_last 0x0A) = Some (demo_last 0x0A) \<and>
   Linkage_Stop_Photo_Ctrl_Handle 0 (demo_last 0x1A) =
     Some (AddUartSendData2Queue (write_node 1 0 10) (demo_last 0x1A))"
  using photo_stops_iff_downstream_blocked [of "demo_last 0x0A" 0]
    photo_stops_iff_downstream_blocked [of "demo_last 0x1A" 0]
  by (simp add: demo_last_ok downstream_accepts_def)

lemma uart_nodes_block_upto:
  "queues_inv s \<Longrightarrow> uart_nodes (block_upto k s) =
     uart_nodes s @ take (29 - length (uart_nodes s)) (block_nodes k s)"
  using uart_nodes_AddUartNodes [of s "block_nodes k s"] by (simp add: block_upto_def)

lemma pin_alarm_block_upto:
  "pin_level GPIOE 5 (block_upto k s) \<longleftrightarrow> pin_level GPIOE 5 s \<or> (\<exists>i<k. block_fires s i)"
  by (auto simp: block_upto_def pin_level_def L_ALARM_set bit_or_iff bit_GPIO_Pin)

lemma block_status_bits:
  "bit (fault_code (block_status s i)) n \<longleftrightarrow>
     bit (fault_code (inverter_status_buffer s ! i)) n \<or> n = 1 \<and> block_fires s i"
  by (auto simp: block_status_def Let_def bit_or_iff bit_2 simp del: bit_numeral_word_iff)

text \<open>One pass of the jam detection over the belts: a belt whose detection is enabled and
  that runs has its counter advanced while its photo sensor is covered and cleared otherwise;
  when the counter reaches the configured time the belt gets a stop command, its jam bit
  (bit 1 of the fault code) is set, its counter restarts and the alarm output is switched on.
  Other belts, and all other fault bits, keep their values.\<close>

lemma block_check_pass:
  assumes "belts_ok s" "queues_inv s" "g_block_disable_flag s \<noteq> 1"
  shows "\<exists>s'. Block_Check_Ctrl_Handle s = Some s' \<and>
    (\<forall>i < belts s. block_check_time_cnt s' ! i = block_cnt s i \<and>
       (\<forall>n. bit (fault_code (inverter_status_buffer s' ! i)) n \<longleftrightarrow>
          bit (fault_code (inverter_status_buffer s ! i)) n \<or> n = 1 \<and> block_fires s i)) \<and>
    (\<forall>i. belts s \<le> i \<and> i < 10 \<longrightarrow> block_check_time_cnt s' ! i = block_check_time_cnt s ! i \<and>
       inverter_status_buffer s' ! i = inverter_status_buffer s ! i) \<and>
    uart_nodes s' = uart_nodes s @ take (29 - length (uart_nodes s))
      (map (\<lambda>i. write_node (of_nat i + 1) 0 10) (filter (block_fires s) [0..<belts s])) \<and>
    (pin_level GPIOE 5 s' \<longleftrightarrow> pin_level GPIOE 5 s \<or> (\<exists>i<belts s. block_fires s i))"
  using belts_okD [OF assms(1)]
  by (simp add: Block_Check_Ctrl_Handle_eq [OF assms(1,3)] uart_nodes_block_upto [OF assms(2)]
      pin_alarm_block_upto block_status_bits block_nodes_def)

text \<open>\<open>block_ticks n s\<close>: \<open>n\<close> successive calls.\<close>

primrec block_ticks :: "nat \<Rightarrow> fw \<Rightarrow> fw option" where
  "block_ticks 0 s = Some s"
| "block_ticks (Suc n) s = do { t \<leftarrow> block_ticks n s; Block_Check_Ctrl_Handle t }"

text \<open>What a sequence of calls keeps for a watched belt.\<close>

definition jam_inv :: "fw \<Rightarrow> nat \<Rightarrow> nat \<Rightarrow> fw \<Rightarrow> bool" where
  "jam_inv s i n t \<longleftrightarrow> belts_ok t \<and> user_paras_local t = user_paras_local s \<and> IDR t = IDR s \<and>
     g_block_disable_flag t = g_block_disable_flag s \<and> block_watched t i \<and>
     block_check_time_cnt t ! i = of_nat n \<and>
     bit (fault_code (inverter_status_buffer t ! i)) 1 = bit (fault_code (inverter_status_buffer s ! i)) 1"

lemma block_upto_belts_ok: "belts_ok s \<Longrightarrow> belts_ok (block_upto k s)"
  by (simp add: belts_ok_def block_upto_def)

lemma block_upto_frame [simp]:
  "IDR (block_upto k s) = IDR s" "g_block_disable_flag (block_upto k s) = g_block_disable_flag s"
  by (simp_all add: block_upto_def AddUartNodes_def)

lemma unat_of_nat_u32: "n < 2 ^ 32 \<Longrightarrow> unat (of_nat n :: u32) = n"
  by (simp add: unat_of_nat)

lemma block_fires_jam:
  assumes "jam_inv s i n t" "get_photo_input_status (of_nat i) s = 1"
    and "n < unat (Block_Check_Time (belt_para (user_paras_local s) ! i))"
  shows "block_fires t i \<longleftrightarrow> Suc n = unat (Block_Check_Time (belt_para (user_paras_local s) ! i))"
proof -
  let ?T = "Block_Check_Time (belt_para (user_paras_local s) ! i)"
  have T: "unat (ucast ?T :: u32) = unat ?T"
    using unat_less_65536 [of ?T] by (simp add: unsigned_ucast_eq take_bit_eq_mod)
  have n: "unat (of_nat n + 1 :: u32) = Suc n"
    using assms(3) unat_less_65536 [of ?T] unat_of_nat_u32 [of "Suc n"]
    by (simp add: add.commute)
  have "block_fires t i \<longleftrightarrow> (ucast ?T :: u32) \<le> of_nat n + 1"
    using assms(1,2) get_photo_IDR [of t s "of_nat i"]
    unfolding block_fires_def jam_inv_def by simp
  also have "\<dots> \<longleftrightarrow> unat ?T \<le> Suc n"
    unfolding word_le_nat_alt T n ..
  finally show ?thesis using assms(3) by linarith
qed

lemma jam_step:
  assumes "jam_inv s i n t" "get_photo_input_status (of_nat i) s = 1" "i < belts s"
    and "Suc n < unat (Block_Check_Time (belt_para (user_paras_local s) ! i))"
    and "g_block_disable_flag s \<noteq> 1"
  shows "\<exists>t'. Block_Check_Ctrl_Handle t = Some t' \<and> jam_inv s i (Suc n) t'"
proof -
  have ok: "belts_ok t" and i: "i < belts t" and nf: "\<not> block_fires t i"
      and w: "block_watched t i" and p: "get_photo_input_status (of_nat i) t = 1"
    using assms block_fires_jam [OF assms(1,2)] get_photo_IDR [of t s "of_nat i"]
    by (auto simp: jam_inv_def)
  note d = belts_okD [OF ok]
  have len: "i < length (inverter_status_buffer t)" "i < length (block_check_time_cnt t)"
    using d i by simp_all
  have "jam_inv s i (Suc n) (block_upto (belts t) t)"
    using assms(1) i len nf w p block_upto_belts_ok [OF ok]
    by (simp add: jam_inv_def block_watched_def block_status_bits block_cnt_def add.commute)
  with Block_Check_Ctrl_Handle_eq [OF ok] assms(1,5) show ?thesis
    by (simp add: jam_inv_def)
qed

lemma jam_ticks:
  assumes "belts_ok s" "i < belts s" "block_watched s i" "get_photo_input_status (of_nat i) s = 1"
    and "g_block_disable_flag s \<noteq> 1" "block_check_time_cnt s ! i = 0"
  shows "n < unat (Block_Check_Time (belt_para (user_paras_local s) ! i)) \<Longrightarrow>
    \<exists>t. block_ticks n s = Some t \<and> jam_inv s i n t"
proof (induction n)
  case 0
  then show ?case using assms by (simp add: jam_inv_def)
next
  case (Suc n)
  then obtain t where t: "block_ticks n s = Some t" "jam_inv s i n t" by auto
  with jam_step [OF t(2) assms(4) assms(2) Suc.prems assms(5)] show ?case by simp
qed

text \<open>C16. A jam is detected in time and not early: while a watched belt keeps running with its
  sensor covered, its jam bit is unchanged for the first \<open>Block_Check_Time - 1\<close> calls of the
  handler and is set by the call number \<open>Block_Check_Time\<close>.\<close>

theorem jam_detected_after_check_time:
  assumes "belts_ok s" "i < belts s" "block_watched s i" "get_photo_input_status (of_nat i) s = 1"
    and "g_block_disable_flag s \<noteq> 1" "block_check_time_cnt s ! i = 0"
    and "T = unat (Block_Check_Time (belt_para (user_paras_local s) ! i))" "0 < T"
  shows "(\<forall>n < T. \<exists>t. block_ticks n s = Some t \<and>
       bit (fault_code (inverter_status_buffer t ! i)) 1 = bit (fault_code (inverter_status_buffer s ! i)) 1)
    \<and> (\<exists>t. block_ticks T s = Some t \<and> bit (fault_code (inverter_status_buffer t ! i)) 1)"
proof
  show "\<forall>n < T. \<exists>t. block_ticks n s = Some t \<and>
       bit (fault_code (inverter_status_buffer t ! i)) 1 = bit (fault_code (inverter_status_buffer s ! i)) 1"
    using jam_ticks [OF assms(1-6)] assms(7) by (force simp: jam_inv_def)
next
  from assms(8) obtain n where n: "T = Suc n" using gr0_implies_Suc by blast
  with jam_ticks [OF assms(1-6), of n] assms(7) obtain t where
    t: "block_ticks n s = Some t" "jam_inv s i n t" by auto
  have "block_fires t i" using block_fires_jam [OF t(2) assms(4)] n assms(7) by simp
  moreover have ok: "belts_ok t" "i < belts t" "g_block_disable_flag t \<noteq> 1"
    using t(2) assms(2,5) by (auto simp: jam_inv_def)
  ultimately show "\<exists>t. block_ticks T s = Some t \<and> bit (fault_code (inverter_status_buffer t ! i)) 1"
    using t(1) belts_okD [OF ok(1)] n
    by (simp add: Block_Check_Ctrl_Handle_eq [OF ok(1,3)] block_status_bits)
qed

definition demo_jam :: fw where
  "demo_jam = demo\<lparr>IDR := (\<lambda>_. 0),
     inverter_status_buffer := replicate 10 (zero_inverter\<lparr>fault_code := 0x10\<rparr>)\<rparr>"

lemma demo_jam_ok:
  "belts_ok demo_jam" "belts demo_jam = 3" "block_watched demo_jam 0"
  "get_photo_input_status 0 demo_jam = 1" "g_block_disable_flag demo_jam = 0"
  "block_check_time_cnt demo_jam ! 0 = 0"
  "unat (Block_Check_Time (belt_para (user_paras_local demo_jam) ! 0)) = 5"
  "fault_code (inverter_status_buffer demo_jam ! 0) = 0x10"
  by (simp_all add: demo_jam_def belts_ok_def wf_paras_def demo_paras_def demo_def power_on_def
      queues_ready_def InitModuleStatusQueue_def InitSendMsgQueue_def InitCanSendQueue_def
      InitUartSendQueue_def block_watched_def demo_belt_def get_photo_input_status_def
      B_PHOTO_1_IN_STATE_def input_bit_def GPIO_ReadInputDataBit_def)

theorem jam_detected_after_check_time_witness:
  "(\<exists>t. block_ticks 4 demo_jam = Some t \<and> \<not> bit (fault_code (inverter_status_buffer t ! 0)) 1) \<and>
   (\<exists>t. block_ticks 5 demo_jam = Some t \<and> bit (fault_code (inverter_status_buffer t ! 0)) 1)"
  using jam_detected_after_check_time [of demo_jam 0 5] demo_jam_ok by auto

lemma bit_pin_cleared: "\<not> bit (w AND NOT (GPIO_Pin 5)) 5"
  by (simp add: bit_and_iff bit_not_iff bit_GPIO_Pin)

text \<open>The reset button clears the jam bit of every belt and no other fault bit, queues a
  fault-reset command for exactly the inverters whose fault code (high byte) is non-zero,
  switches the alarm output off and arms the restart delay of 500 ticks.\<close>

lemma reset_clears_jams:
  assumes "belts_ok s" "queues_inv s"
  shows "\<exists>s'. Reset_Ctrl_Handle s = Some s' \<and>
    (\<forall>i < belts s. \<forall>n. bit (fault_code (inverter_status_buffer s' ! i)) n \<longleftrightarrow>
        bit (fault_code (inverter_status_buffer s ! i)) n \<and> n \<noteq> 1) \<and>
    uart_nodes s' = uart_nodes s @ take (29 - length (uart_nodes s))
      (map (\<lambda>i. reset_node (of_nat i + 1))
        (filter (\<lambda>i. hi8 (fault_code (inverter_status_buffer s ! i)) \<noteq> 0) [0..<belts s])) \<and>
    \<not> pin_level GPIOE 5 s' \<and> reset_start_time_cnt s' = 500"
  using belts_okD [OF assms(1)] uart_nodes_AddUartNodes [OF assms(2), of "reset_nodes (belts s) s"]
  by (simp add: Reset_Ctrl_Handle_eq [OF assms(1)] reset_upto_def L_ALARM_OUT_def pin_level_def
      clear_block_def bit_clear reset_nodes_def GPIO_WriteBit_def bit_pin_cleared)

lemma reset_clears_jams_witness:
  "\<exists>s'. Reset_Ctrl_Handle demo = Some s' \<and> reset_start_time_cnt s' = 500 \<and> \<not> pin_level GPIOE 5 s'"
  using reset_clears_jams [of demo] by auto

text \<open>When the restart delay has run out (\<open>reset_start_flag\<close> is 1) on a station
  with a gear set and an inactive downstream input, one start command at that gear is queued
  for each belt that is not running, the last belt first, and the flag is consumed. The
  running belts get no command.\<close>

lemma restart_after_reset:
  assumes "belts_ok s" "queues_inv s" "belts s \<noteq> 0" "g_speed_gear_status s \<noteq> 0"
    and "reset_start_flag s = 1" "input_state (input_info (bStreamInfo s)) = 0"
  shows "\<exists>s'. Reset_Start_Inverter_Handle s = Some s' \<and> reset_start_flag s' = 0 \<and>
    uart_nodes s' = uart_nodes s @ take (29 - length (uart_nodes s))
      (map (\<lambda>i. write_node (of_nat i + 1) (ucast (g_speed_gear_status s))
              (Start_Delay_Time (belt_para (user_paras_local s) ! i)))
        (filter (\<lambda>i. \<not> bit (fault_code (inverter_status_buffer s ! i)) 4) (rev [0..<belts s])))"
proof -
  have q: "queues_inv (s\<lparr>reset_start_flag := 0\<rparr>)"
    using assms(2) by (simp add: queues_inv_def)
  show ?thesis
    using assms(3-6) uart_nodes_AddUartNodes [OF q, of "restart_nodes s"]
    by (simp add: Reset_Start_Inverter_Handle_eq [OF assms(1)] restart_nodes_def)
qed

end
