(* ===== verification/Params.thy ===== *)
theory Params
  imports Logic
begin

text \<open>
  The user parameters in flash (\<open>read_user_paras\<close> and \<open>write_user_paras\<close> of
  logic_ctrl.c). The code treats the parameter struct as an array of 116 half-words and
  stores the last 113 of them, from \<open>Up_Stream_No\<close> on, at \<open>UserParaStartAddress\<close>.

  What the flash controller does is a parameter of the model (see Drivers). The round trip
  assumes its documented behaviour, \<open>flash_obeys\<close>: it is never left busy or in error, an
  erase sets every half-word of its 2 KB page to \<open>0xFFFF\<close>, and programming an erased
  half-word stores the value.
\<close>

section \<open>Operations\<close>

definition read_user_paras :: "fw \<Rightarrow> fw option" where
  "read_user_paras s = do {
     ws \<leftarrow> for_up 0 USER_PARA_DATA_LEN
            (\<lambda>i ws. upd ws (3 + i) (flash_mem s (UserParaStartAddress + 2 * of_nat i)))
            (paras_u16s (user_paras_local s));
     let p = (u16s_paras ws)\<lparr>Station_No := ucast (local_station s),
               Version_No_L := 0x0004, Version_No_H := 0x1000\<rparr>;
     let p = (if Up_Stream_No p > 255 then p\<lparr>Up_Stream_No := 0\<rparr> else p);
     let p = (if Down_Stream_No p > 255 then p\<lparr>Down_Stream_No := 0\<rparr> else p);
     let p = (if Belt_Number p > 10 then p\<lparr>Belt_Number := 0\<rparr> else p);
     let s1 = s\<lparr>user_paras_local := p\<rparr>;
     for_up 0 (unat (Belt_Number p)) (\<lambda>i t. do {
       b \<leftarrow> idx (belt_para (user_paras_local t)) i;
       sp \<leftarrow> upd (stopspeed_default t) i (Gear_2_Speed_Freq b);
       Some (t\<lparr>stopspeed_default := sp\<rparr>) }) s1
   }"

definition write_user_paras :: "u16 list \<Rightarrow> fw \<Rightarrow> fw option" where
  "write_user_paras para s = do {
     let s1 = FLASH_Unlock s;
     let s2 = snd (FLASH_ErasePage UserParaStartAddress s1);
     s3 \<leftarrow> for_up 0 USER_PARA_DATA_LEN (\<lambda>i t. do {
            v \<leftarrow> idx para i;
            Some (snd (FLASH_ProgramHalfWord (UserParaStartAddress + 2 * of_nat i) v t)) }) s2;
     Some (FLASH_Lock s3)
   }"

section \<open>What flash operations leave alone\<close>

lemma flash_frame_ops [simp]:
  "flash_frame s (s\<lparr>sr_reads := k\<rparr>)" "flash_frame s (s\<lparr>FLASH_CR := w\<rparr>)"
  "flash_frame s (s\<lparr>FLASH_KEYR := w\<rparr>)" "flash_frame s (s\<lparr>flash_mem := m\<rparr>)"
  "flash_frame s (s\<lparr>FLASH_CR := w, FLASH_AR := v\<rparr>)" "flash_frame s (s\<lparr>FLASH_CR := w, flash_mem := m\<rparr>)"
  by (simp_all add: flash_frame_def)

lemma FLASH_GetStatus_frame: "flash_frame s (snd (FLASH_GetStatus s))"
  by (simp add: FLASH_GetStatus_def Let_def)

lemma FLASH_wait_loop_frame: "flash_frame s (snd (snd (FLASH_wait_loop n st s)))"
proof (induction n st s rule: FLASH_wait_loop.induct)
  case (2 n st s)
  then show ?case
    using FLASH_GetStatus_frame [of s] flash_frame_trans
    by (auto split: prod.splits)
qed simp

lemma FLASH_Wait_frame: "flash_frame s (snd (FLASH_WaitForLastOperation n s))"
  using FLASH_GetStatus_frame [of s] FLASH_wait_loop_frame flash_frame_trans
  by (auto simp: FLASH_WaitForLastOperation_def split: prod.splits) (metis snd_conv)

lemma FLASH_ErasePage_frame: "flash_frame s (snd (FLASH_ErasePage a s))"
proof -
  obtain st s1 where 1: "FLASH_WaitForLastOperation EraseTimeout s = (st, s1)" by force
  let ?s2 = "s1\<lparr>FLASH_CR := FLASH_CR s1 OR 0x02, FLASH_AR := a\<rparr>"
  let ?s3 = "?s2\<lparr>FLASH_CR := FLASH_CR ?s2 OR 0x40, flash_mem := hw_erase ?s2 a (flash_mem ?s2)\<rparr>"
  obtain st' s4 where 4: "FLASH_WaitForLastOperation EraseTimeout ?s3 = (st', s4)" by force
  have f1: "flash_frame s s1" using FLASH_Wait_frame [of s EraseTimeout] 1 by simp
  have "flash_frame s1 ?s3"
    by (rule flash_frame_trans [of _ ?s2]) (rule flash_frame_ops)+
  moreover have "flash_frame ?s3 s4" using FLASH_Wait_frame [of ?s3 EraseTimeout] 4 by simp
  ultimately have f4: "flash_frame s s4" using f1 flash_frame_trans by blast
  have "flash_frame s (s4\<lparr>FLASH_CR := w\<rparr>)" for w
    by (rule flash_frame_trans [OF f4]) simp
  with f1 f4 show ?thesis
    using 1 4 by (simp add: FLASH_ErasePage_def Let_def)
qed

lemma FLASH_ProgramHalfWord_frame: "flash_frame s (snd (FLASH_ProgramHalfWord a v s))"
proof -
  obtain st s1 where 1: "FLASH_WaitForLastOperation ProgramTimeout s = (st, s1)" by force
  let ?s2 = "s1\<lparr>FLASH_CR := FLASH_CR s1 OR 0x01\<rparr>"
  let ?s3 = "?s2\<lparr>flash_mem := hw_program ?s2 a v (flash_mem ?s2)\<rparr>"
  obtain st' s4 where 4: "FLASH_WaitForLastOperation ProgramTimeout ?s3 = (st', s4)" by force
  have f1: "flash_frame s s1" using FLASH_Wait_frame [of s ProgramTimeout] 1 by simp
  have "flash_frame s1 ?s3"
    by (rule flash_frame_trans [of _ ?s2]) (rule flash_frame_ops)+
  moreover have "flash_frame ?s3 s4" using FLASH_Wait_frame [of ?s3 ProgramTimeout] 4 by simp
  ultimately have f4: "flash_frame s s4" using f1 flash_frame_trans by blast
  have "flash_frame s (s4\<lparr>FLASH_CR := w\<rparr>)" for w
    by (rule flash_frame_trans [OF f4]) simp
  with f1 f4 show ?thesis
    using 1 4 by (simp add: FLASH_ProgramHalfWord_def Let_def)
qed

lemma write_user_paras_frame:
  assumes "USER_PARA_DATA_LEN \<le> length para"
  shows "\<exists>s'. write_user_paras para s = Some s' \<and> flash_frame s s'"
proof -
  let ?s2 = "snd (FLASH_ErasePage UserParaStartAddress (FLASH_Unlock s))"
  have f2: "flash_frame s ?s2"
    by (rule flash_frame_trans [OF _ FLASH_ErasePage_frame]) (simp add: FLASH_Unlock_def)
  have "\<exists>s3. for_up 0 USER_PARA_DATA_LEN (\<lambda>i t. do {
            v \<leftarrow> idx para i;
            Some (snd (FLASH_ProgramHalfWord (UserParaStartAddress + 2 * of_nat i) v t)) }) ?s2 = Some s3
          \<and> flash_frame s s3"
    using assms flash_frame_trans [OF _ FLASH_ProgramHalfWord_frame]
    by (intro for_up_rule [where P = "\<lambda>_. flash_frame s"] f2) (auto simp: idx_Some)
  then obtain s3 where s3: "for_up 0 USER_PARA_DATA_LEN (\<lambda>i t. do {
            v \<leftarrow> idx para i;
            Some (snd (FLASH_ProgramHalfWord (UserParaStartAddress + 2 * of_nat i) v t)) }) ?s2 = Some s3"
      "flash_frame s s3" by blast
  have "flash_frame s (FLASH_Lock s3)"
    by (rule flash_frame_trans [OF s3(2)]) (simp add: FLASH_Lock_def)
  with s3(1) show ?thesis
    unfolding write_user_paras_def Let_def by simp
qed

section \<open>Reading\<close>

definition flash_words :: "fw \<Rightarrow> u16 list" where
  "flash_words s = map (\<lambda>i. flash_mem s (UserParaStartAddress + 2 * of_nat i)) [0..<USER_PARA_DATA_LEN]"

text \<open>The validity checks: out-of-range station numbers and belt counts become 0.\<close>

definition sanitize :: "USER_PARAS_T \<Rightarrow> USER_PARAS_T" where
  "sanitize p = p\<lparr>Up_Stream_No := if Up_Stream_No p > 255 then 0 else Up_Stream_No p,
     Down_Stream_No := if Down_Stream_No p > 255 then 0 else Down_Stream_No p,
     Belt_Number := if Belt_Number p > 10 then 0 else Belt_Number p\<rparr>"

definition stored_paras :: "u8 \<Rightarrow> u16 list \<Rightarrow> USER_PARAS_T" where
  "stored_paras station ws = sanitize (u16s_paras ([0x0004, 0x1000, ucast station] @ ws))"

definition stop_speeds :: "USER_PARAS_T \<Rightarrow> u16 list \<Rightarrow> u16 list" where
  "stop_speeds p sp = upto_map (unat (Belt_Number p)) (\<lambda>i. Gear_2_Speed_Freq (belt_para p ! i)) sp"

lemma read_words_loop:
  assumes "length ws = 3 + n" and "n \<le> N"
  shows "for_up 0 n (\<lambda>i ws. upd ws (3 + i) (f i)) ws = Some (take 3 ws @ map f [0..<n])"
proof -
  have "\<exists>r. for_up 0 n (\<lambda>i ws. upd ws (3 + i) (f i)) ws = Some r \<and>
      r = take 3 ws @ map f [0..<n] @ drop (3 + n) ws"
  proof (rule for_up_rule [where P = "\<lambda>k r. r = take 3 ws @ map f [0..<k] @ drop (3 + k) ws"])
    fix i t assume i: "i < n" and t: "t = take 3 ws @ map f [0..<i] @ drop (3 + i) ws"
    from i assms(1) have "drop (3 + i) ws = ws ! (3 + i) # drop (3 + Suc i) ws"
      using Cons_nth_drop_Suc [of "3 + i" ws] by simp
    with i t assms(1) show "\<exists>t'. upd t (3 + i) (f i) = Some t' \<and>
        t' = take 3 ws @ map f [0..<Suc i] @ drop (3 + Suc i) ws"
      by (simp add: upd_def list_update_append)
  qed simp_all
  with assms show ?thesis by simp
qed

lemma u16s_paras_header:
  "(u16s_paras (a # b # c # ws))\<lparr>Station_No := z, Version_No_L := x, Version_No_H := y\<rparr> =
     u16s_paras (x # y # z # ws)"
proof -
  have "drop (6 + k) (e # f # g # ws) = drop (3 + k) ws" for e f g :: u16 and k
    by (simp add: numeral_eq_Suc)
  then show ?thesis by (simp add: u16s_paras_def)
qed

lemma sanitize_chain:
  "(let p = (if Up_Stream_No p > 255 then p\<lparr>Up_Stream_No := 0\<rparr> else p);
        p = (if Down_Stream_No p > 255 then p\<lparr>Down_Stream_No := 0\<rparr> else p);
        p = (if Belt_Number p > 10 then p\<lparr>Belt_Number := 0\<rparr> else p) in f p) = f (sanitize p)"
  by (simp add: sanitize_def Let_def)

lemma stored_paras_fields [simp]:
  "Belt_Number (stored_paras st ws) \<le> 10" "wf_paras (stored_paras st ws)"
  by (auto simp: stored_paras_def sanitize_def wf_paras_def u16s_paras_def not_less)

lemma stored_paras_belts [simp]:
  "length (belt_para (stored_paras st ws)) = 10" "unat (Belt_Number (stored_paras st ws)) \<le> 10"
proof -
  show "length (belt_para (stored_paras st ws)) = 10"
    using stored_paras_fields(2) [of st ws] by (simp only: wf_paras_def)
  show "unat (Belt_Number (stored_paras st ws)) \<le> 10"
    using stored_paras_fields(1) [of st ws] word_le_nat_alt [of _ "10 :: u16"] by simp
qed

lemma read_user_paras_eq:
  assumes "wf_paras (user_paras_local s)" "length (stopspeed_default s) = 10"
  shows "read_user_paras s = Some (s\<lparr>
     user_paras_local := stored_paras (local_station s) (flash_words s),
     stopspeed_default := stop_speeds (stored_paras (local_station s) (flash_words s)) (stopspeed_default s)\<rparr>)"
proof -
  let ?ws = "paras_u16s (user_paras_local s)"
  let ?p = "stored_paras (local_station s) (flash_words s)"
  let ?s1 = "s\<lparr>user_paras_local := ?p\<rparr>"
  let ?body = "\<lambda>i t. do {
       b \<leftarrow> idx (belt_para (user_paras_local t)) i;
       sp \<leftarrow> upd (stopspeed_default t) i (Gear_2_Speed_Freq b);
       Some (t\<lparr>stopspeed_default := sp\<rparr>) }"
  let ?sp = "\<lambda>k. upto_map k (\<lambda>i. Gear_2_Speed_Freq (belt_para ?p ! i)) (stopspeed_default s)"
  have words: "for_up 0 USER_PARA_DATA_LEN
      (\<lambda>i ws. upd ws (3 + i) (flash_mem s (UserParaStartAddress + 2 * of_nat i))) ?ws =
      Some (take 3 ?ws @ flash_words s)"
    using read_words_loop [of ?ws 113 113] assms(1) by (simp add: flash_words_def)
  obtain a b c where "take 3 ?ws = [a, b, c]"
    by (simp add: paras_u16s_def)
  then have hdr: "(u16s_paras (take 3 ?ws @ flash_words s))\<lparr>Station_No := ucast (local_station s),
      Version_No_L := 0x0004, Version_No_H := 0x1000\<rparr> =
      u16s_paras ([0x0004, 0x1000, ucast (local_station s)] @ flash_words s)"
    by (simp add: u16s_paras_header)
  have step: "?body i (?s1\<lparr>stopspeed_default := ?sp i\<rparr>) = Some (?s1\<lparr>stopspeed_default := ?sp (Suc i)\<rparr>)"
    if "i < unat (Belt_Number ?p)" for i
    using that stored_paras_belts(2) [of "local_station s" "flash_words s"] assms(2)
    by (simp add: array_simps upto_map_update [symmetric, of i] order_less_le_trans)
  have "\<exists>s'. for_up 0 (unat (Belt_Number ?p)) ?body ?s1 = Some s' \<and>
      s' = ?s1\<lparr>stopspeed_default := ?sp (unat (Belt_Number ?p))\<rparr>"
    by (intro for_up_rule [where P = "\<lambda>k t. t = ?s1\<lparr>stopspeed_default := ?sp k\<rparr>"])
      (use step in \<open>auto\<close>)
  then show ?thesis
    unfolding read_user_paras_def words bind.bind_lunit sanitize_chain
    unfolding hdr stored_paras_def [symmetric] stop_speeds_def Let_def
    by auto
qed

section \<open>Writing, and the round trip\<close>

definition flash_obeys :: "fw \<Rightarrow> bool" where
  "flash_obeys s \<longleftrightarrow> flash_quiet s \<and>
     (\<forall>page m a. drop_bit 11 a = drop_bit 11 page \<longrightarrow> hw_erase s page m a = 0xFFFF) \<and>
     (\<forall>a v m. m a = 0xFFFF \<longrightarrow> hw_program s a v m = m(a := v))"

lemma flash_quietD:
  assumes "flash_quiet s"
  shows "hw_SR s k AND 1 = 0" "hw_SR s k AND 4 = 0" "hw_SR s k AND 0x10 = 0"
proof -
  have *: "hw_SR s k AND 21 = 0"
    using assms by (simp add: flash_quiet_def)
  have "(21 :: u32) AND 1 = 1" "(21 :: u32) AND 4 = 4" "(21 :: u32) AND 0x10 = 0x10" by simp_all
  then have "hw_SR s k AND 1 = (hw_SR s k AND 21) AND 1" "hw_SR s k AND 4 = (hw_SR s k AND 21) AND 4"
      "hw_SR s k AND 0x10 = (hw_SR s k AND 21) AND 0x10"
    by (simp_all add: and.assoc)
  with * show "hw_SR s k AND 1 = 0" "hw_SR s k AND 4 = 0" "hw_SR s k AND 0x10 = 0" by simp_all
qed

lemma FLASH_Wait_quiet:
  "flash_quiet s \<Longrightarrow> 0 < n \<Longrightarrow>
     FLASH_WaitForLastOperation n s = (FLASH_COMPLETE, s\<lparr>sr_reads := sr_reads s + 3\<rparr>)"
proof -
  assume q: "flash_quiet s" and "0 < n"
  then obtain m where n: "n = Suc m" using gr0_implies_Suc by blast
  have "FLASH_GetStatus s = (FLASH_COMPLETE, s\<lparr>sr_reads := sr_reads s + 3\<rparr>)"
    using flash_quietD [OF q] by (simp add: FLASH_GetStatus_def Let_def)
  then show ?thesis by (simp add: FLASH_WaitForLastOperation_def n)
qed

lemma flash_frameE:
  assumes "flash_frame s t"
  obtains m r k c a where "t = s\<lparr>flash_mem := m, sr_reads := r, FLASH_KEYR := k, FLASH_CR := c,
     FLASH_AR := a\<rparr>"
  using assms unfolding flash_frame_def by blast

lemma flash_obeys_frame: "flash_frame s t \<Longrightarrow> flash_obeys s \<Longrightarrow> flash_obeys t"
  by (auto elim!: flash_frameE simp: flash_obeys_def flash_quiet_def)

lemma erase_mem:
  "flash_obeys s \<Longrightarrow> flash_mem (snd (FLASH_ErasePage a s)) = hw_erase s a (flash_mem s)"
  by (simp add: FLASH_ErasePage_def Let_def flash_obeys_def FLASH_Wait_quiet flash_quiet_def)

lemma program_mem:
  "flash_obeys s \<Longrightarrow>
     flash_mem (snd (FLASH_ProgramHalfWord a v s)) = hw_program s a v (flash_mem s)"
  by (simp add: FLASH_ProgramHalfWord_def Let_def flash_obeys_def FLASH_Wait_quiet flash_quiet_def)

text \<open>The addresses of the 113 half-words: all in the erased page, and distinct.\<close>

lemma unat_para_addr:
  "i < 113 \<Longrightarrow> unat (UserParaStartAddress + 2 * of_nat i) = 0x8027800 + 2 * i"
proof -
  assume "i < 113"
  then have "unat (of_nat (0x8027800 + 2 * i) :: u32) = 0x8027800 + 2 * i"
    by (intro unat_of_nat_u32) simp
  then show ?thesis by simp
qed

lemma para_addr_page:
  "i < 113 \<Longrightarrow> drop_bit 11 (UserParaStartAddress + 2 * of_nat i) = drop_bit 11 UserParaStartAddress"
proof -
  assume i: "i < 113"
  have "(0x8027800 + 2 * i) div 2048 = (0x8027800 div 2048 :: nat)" using i by simp
  then show ?thesis
    using unat_para_addr [OF i] by (simp add: word_unat_eq_iff drop_bit_eq_div unat_div_distrib)
qed

lemma para_addr_inj:
  "i < 113 \<Longrightarrow> j < 113 \<Longrightarrow>
     (UserParaStartAddress + 2 * of_nat i = UserParaStartAddress + 2 * of_nat j) = (i = j)"
  using unat_para_addr [of i] unat_para_addr [of j] by (metis add_left_cancel mult_left_cancel zero_neq_numeral)

lemma write_user_paras_words:
  assumes "flash_obeys s" "length para = USER_PARA_DATA_LEN"
  shows "\<exists>s'. write_user_paras para s = Some s' \<and> flash_frame s s' \<and> flash_words s' = para"
proof -
  let ?addr = "\<lambda>i. UserParaStartAddress + 2 * of_nat i :: u32"
  let ?s2 = "snd (FLASH_ErasePage UserParaStartAddress (FLASH_Unlock s))"
  let ?body = "\<lambda>i t. do { v \<leftarrow> idx para i; Some (snd (FLASH_ProgramHalfWord (?addr i) v t)) }"
  let ?P = "\<lambda>k t. flash_frame s t \<and> (\<forall>i < 113. flash_mem t (?addr i) = (if i < k then para ! i else 0xFFFF))"
  have fu: "flash_frame s (FLASH_Unlock s)" by (simp add: FLASH_Unlock_def)
  have f2: "flash_frame s ?s2" by (rule flash_frame_trans [OF fu FLASH_ErasePage_frame])
  have ou: "flash_obeys (FLASH_Unlock s)" using flash_obeys_frame [OF fu assms(1)] .
  have m2: "flash_mem ?s2 (?addr i) = 0xFFFF" if "i < 113" for i
    using ou erase_mem [OF ou] para_addr_page [OF that] by (simp add: flash_obeys_def)
  have step: "\<exists>t'. ?body i t = Some t' \<and> ?P (Suc i) t'" if i: "i < 113" and P: "?P i t" for i t
  proof -
    have o: "flash_obeys t" using P flash_obeys_frame assms(1) by blast
    have "hw_program t (?addr i) (para ! i) (flash_mem t) = (flash_mem t)(?addr i := para ! i)"
      using o P i by (simp add: flash_obeys_def)
    then have "flash_mem (snd (FLASH_ProgramHalfWord (?addr i) (para ! i) t)) =
        (flash_mem t)(?addr i := para ! i)"
      using program_mem [OF o] by simp
    moreover have "flash_frame s (snd (FLASH_ProgramHalfWord (?addr i) (para ! i) t))"
      using P flash_frame_trans FLASH_ProgramHalfWord_frame by blast
    ultimately show ?thesis
      using i P assms(2) para_addr_inj [of _ i] by (auto simp: idx_Some less_Suc_eq)
  qed
  obtain s3 where s3: "for_up 0 113 ?body ?s2 = Some s3" "?P 113 s3"
    using for_up_rule [of ?P 0 ?s2 113 ?body] step f2 m2 by auto
  have "flash_words (FLASH_Lock s3) = para"
    using s3(2) assms(2) by (intro nth_equalityI) (simp_all add: flash_words_def FLASH_Lock_def)
  moreover have "flash_frame s (FLASH_Lock s3)"
    using s3(2) by (auto simp: FLASH_Lock_def intro: flash_frame_trans)
  ultimately show ?thesis
    using s3(1) unfolding write_user_paras_def Let_def by simp
qed

text \<open>A block as this station keeps it: with the firmware version and its own number.\<close>

definition own_paras :: "u8 \<Rightarrow> USER_PARAS_T \<Rightarrow> USER_PARAS_T" where
  "own_paras station p = p\<lparr>Version_No_L := 0x0004, Version_No_H := 0x1000, Station_No := ucast station\<rparr>"

definition valid_paras :: "USER_PARAS_T \<Rightarrow> bool" where
  "valid_paras p \<longleftrightarrow> wf_paras p \<and> Up_Stream_No p \<le> 255 \<and> Down_Stream_No p \<le> 255 \<and> Belt_Number p \<le> 10"

lemma stored_paras_own:
  assumes "valid_paras p"
  shows "stored_paras st (drop 3 (paras_u16s p)) = own_paras st p"
proof -
  have "[0x0004, 0x1000, ucast st] @ drop 3 (paras_u16s p) = paras_u16s (own_paras st p)"
    by (simp add: paras_u16s_def own_paras_def)
  moreover have "wf_paras (own_paras st p)" using assms by (simp add: wf_paras_def own_paras_def valid_paras_def)
  ultimately show ?thesis
    using assms by (simp add: stored_paras_def u16s_paras_u16s sanitize_def own_paras_def valid_paras_def
        not_less [symmetric])
qed

lemma write_read_user_paras:
  assumes "flash_obeys s" "wf_paras (user_paras_local s)" "length (stopspeed_default s) = 10" "valid_paras p"
  shows "\<exists>s1. write_user_paras (drop 3 (paras_u16s p)) s = Some s1 \<and> flash_frame s s1 \<and>
    flash_words s1 = drop 3 (paras_u16s p) \<and> read_user_paras s1 = Some (s1\<lparr>user_paras_local := own_paras (local_station s) p,
      stopspeed_default := stop_speeds (own_paras (local_station s) p) (stopspeed_default s)\<rparr>)"
proof -
  let ?para = "drop 3 (paras_u16s p)"
  have "length ?para = USER_PARA_DATA_LEN" using assms(4) by (simp add: valid_paras_def)
  then obtain s1 where s1: "write_user_paras ?para s = Some s1" "flash_frame s s1" "flash_words s1 = ?para"
    using write_user_paras_words assms(1) by blast
  from s1(2) have fr: "user_paras_local s1 = user_paras_local s"
      "stopspeed_default s1 = stopspeed_default s" "local_station s1 = local_station s"
    by (auto elim!: flash_frameE)
  have "wf_paras (user_paras_local s1)" using assms(2) fr by simp
  from read_user_paras_eq [OF this] assms(3) show ?thesis
    using fr s1 stored_paras_own [OF assms(4)] by auto
qed

section \<open>Properties\<close>

text \<open>C11. Parameters survive the flash: on a controller with the documented behaviour,
  writing the 113 half-words of a parameter block and reading them back gives the block, with
  this station's number and the firmware version filled in, whenever the block passes the
  validity checks (neighbour numbers at most 255, at most ten belts). The second-gear speeds
  become the stop speeds, and nothing else of the program's state changes.\<close>

theorem params_flash_round_trip:
  assumes "flash_obeys s" "belts_ok s" "length (stopspeed_default s) = 10" "wf_paras p"
    and "Up_Stream_No p \<le> 255" "Down_Stream_No p \<le> 255" "Belt_Number p \<le> 10"
  shows "\<exists>s1 s2. write_user_paras (drop 3 (paras_u16s p)) s = Some s1 \<and>
    read_user_paras s1 = Some s2 \<and>
    user_paras_local s2 = p\<lparr>Version_No_L := 0x0004, Version_No_H := 0x1000,
      Station_No := ucast (local_station s)\<rparr> \<and>
    (\<forall>i < unat (Belt_Number p). stopspeed_default s2 ! i = Gear_2_Speed_Freq (belt_para p ! i)) \<and>
    flash_frame s (s2\<lparr>user_paras_local := user_paras_local s, stopspeed_default := stopspeed_default s\<rparr>)"
proof -
  have v: "valid_paras p" using assms(4-7) by (simp add: valid_paras_def)
  have "wf_paras (user_paras_local s)" using assms(2) by (simp add: belts_ok_def)
  from write_read_user_paras [OF assms(1) this assms(3) v] obtain s1 where
    s1: "write_user_paras (drop 3 (paras_u16s p)) s = Some s1" "flash_frame s s1"
      "read_user_paras s1 = Some (s1\<lparr>user_paras_local := own_paras (local_station s) p,
      stopspeed_default := stop_speeds (own_paras (local_station s) p) (stopspeed_default s)\<rparr>)" by blast
  from s1(2) have "user_paras_local s1 = user_paras_local s" "stopspeed_default s1 = stopspeed_default s"
    by (auto elim!: flash_frameE)
  then have "flash_frame s (s1\<lparr>user_paras_local := user_paras_local s, stopspeed_default := stopspeed_default s\<rparr>)"
    using s1(2) by (simp flip: \<open>user_paras_local s1 = user_paras_local s\<close> \<open>stopspeed_default s1 = stopspeed_default s\<close>)
  moreover have "unat (Belt_Number p) \<le> 10" using assms(7) by (simp add: word_le_nat_alt)
  ultimately show ?thesis
    using s1(1,3) assms(3) by (auto simp: stop_speeds_def own_paras_def)
qed

lemma flash_obeys_demo: "flash_obeys demo"
  by (simp add: demo_def power_on_def flash_obeys_def flash_quiet_def queues_ready_def
      InitModuleStatusQueue_def InitSendMsgQueue_def InitCanSendQueue_def InitUartSendQueue_def)

lemma stopspeed_demo: "stopspeed_default demo = replicate 10 0" "local_station demo = 0"
  by (simp_all add: demo_def power_on_def queues_ready_def InitModuleStatusQueue_def
      InitSendMsgQueue_def InitCanSendQueue_def InitUartSendQueue_def)

theorem params_flash_round_trip_witness:
  "\<exists>s1 s2. write_user_paras (drop 3 (paras_u16s demo_paras)) demo = Some s1 \<and>
     read_user_paras s1 = Some s2 \<and> user_paras_local s2 = demo_paras\<lparr>Station_No := 0\<rparr> \<and>
     stopspeed_default s2 ! 2 = 2000"
proof -
  have *: "wf_paras demo_paras" "Up_Stream_No demo_paras \<le> 255" "Down_Stream_No demo_paras \<le> 255"
    "Belt_Number demo_paras \<le> 10" "Belt_Number demo_paras = 3"
    "Gear_2_Speed_Freq (belt_para demo_paras ! 2) = 2000"
    "demo_paras\<lparr>Version_No_L := 4, Version_No_H := 0x1000, Station_No := 0\<rparr> = demo_paras\<lparr>Station_No := 0\<rparr>"
    by (simp_all add: demo_paras_def wf_paras_def demo_belt_def)
  show ?thesis
    using params_flash_round_trip [OF flash_obeys_demo demo_ok(1) _ *(1-4)]
    by (auto simp: stopspeed_demo * dest: spec [of _ 2])
qed

text \<open>C21. Whatever is in the flash, including an erased or corrupted page, reading the
  parameters is defined, gives at most ten belts and neighbour numbers of at most 255, and so
  establishes the precondition of the belt-control handlers.\<close>

theorem read_user_paras_safe:
  assumes "wf_paras (user_paras_local s)" "length (stopspeed_default s) = 10"
    and "length (inverter_status_buffer s) = 10" "length (block_check_time_cnt s) = 10"
  shows "\<exists>s'. read_user_paras s = Some s' \<and> belts_ok s' \<and>
    Up_Stream_No (user_paras_local s') \<le> 255 \<and> Down_Stream_No (user_paras_local s') \<le> 255 \<and>
    Station_No (user_paras_local s') = ucast (local_station s) \<and>
    length (stopspeed_default s') = 10"
  using assms
  by (simp add: read_user_paras_eq belts_ok_def stop_speeds_def)
    (simp add: stored_paras_def sanitize_def u16s_paras_def not_less [symmetric])

theorem read_user_paras_safe_witness:
  "\<exists>s'. read_user_paras demo = Some s' \<and> belts_ok s' \<and> Station_No (user_paras_local s') = 0"
  using read_user_paras_safe [of demo] demo_ok(1)
  by (auto simp: stopspeed_demo belts_ok_def)

end
