(* ===== verification/CanSend.thy ===== *)
theory CanSend
  imports Params
begin

text \<open>
  The sending half of can_bus.c and \<open>CAN_Transmit\<close> of the CAN driver. A message of up to 8
  bytes is one frame, a longer one is split into a FIRST frame, MIDDLE frames and a FINAL
  frame with consecutive segment numbers; the frames go through the CAN queue to one of the
  three transmit mailboxes.

  A \<open>u8*\<close> argument is the list of bytes from the pointer to the end of its array. The
  local frame \<open>canTxMsg\<close> starts out uninitialised (\<open>uninit_frame\<close>): its
  \<open>dst_id\<close> is never set, nor are the data bytes behind a short frame's length.
\<close>

section \<open>One frame\<close>

abbreviation (input) "CAN_ID_STD \<equiv> 0 :: u8"
abbreviation (input) "CAN_ID_EXT \<equiv> 4 :: u8"
abbreviation (input) "CAN_RTR_DATA \<equiv> 0 :: u8"
abbreviation (input) "CAN_NO_MB \<equiv> 4 :: u8"
abbreviation (input) "TSR_TME0 \<equiv> 0x04000000 :: u32"
abbreviation (input) "TSR_TME1 \<equiv> 0x08000000 :: u32"
abbreviation (input) "TSR_TME2 \<equiv> 0x10000000 :: u32"
abbreviation (input) "TMIDxR_TXRQ \<equiv> 1 :: u32"

definition data_word :: "u8 list \<Rightarrow> nat \<Rightarrow> u32" where
  "data_word d k = push_bit 24 (ucast (d ! (k + 3))) OR push_bit 16 (ucast (d ! (k + 2))) OR
     push_bit 8 (ucast (d ! (k + 1))) OR ucast (d ! k)"

definition free_mailbox :: "fw \<Rightarrow> u8" where
  "free_mailbox s =
     (if TSR s AND TSR_TME0 = TSR_TME0 then 0
      else if TSR s AND TSR_TME1 = TSR_TME1 then 1
      else if TSR s AND TSR_TME2 = TSR_TME2 then 2
      else CAN_NO_MB)"

definition CAN_Transmit :: "CanTxMsg \<Rightarrow> fw \<Rightarrow> (u8 \<times> fw) option" where
  "CAN_Transmit TxMessage s = do {
     let transmit_mailbox = free_mailbox s;
     if transmit_mailbox \<noteq> CAN_NO_MB then do {
       mb \<leftarrow> idx (sTxMailBox s) (unat transmit_mailbox);
       let tir = TIR mb AND TMIDxR_TXRQ;
       let tir = (if Tx_IDE TxMessage = CAN_ID_STD
          then tir OR (push_bit 21 (Tx_StdId TxMessage) OR ucast (Tx_RTR TxMessage))
          else tir OR (push_bit 3 (Tx_ExtId TxMessage) OR ucast (Tx_IDE TxMessage) OR
                       ucast (Tx_RTR TxMessage)));
       let dlc = Tx_DLC TxMessage AND 0x0F;
       let tdtr = (TDTR mb AND 0xFFFFFFF0) OR ucast dlc;
       if length (Tx_Data TxMessage) = 8 then do {
         mbs \<leftarrow> upd (sTxMailBox s) (unat transmit_mailbox)
           \<lparr>TIR = tir OR TMIDxR_TXRQ, TDTR = tdtr, TDLR = data_word (Tx_Data TxMessage) 0,
            TDHR = data_word (Tx_Data TxMessage) 4\<rparr>;
         Some (transmit_mailbox, s\<lparr>sTxMailBox := mbs\<rparr>)
       } else None
     } else Some (transmit_mailbox, s)
   }"

definition frame_ExtId :: "sCanFrameExtID \<Rightarrow> u32" where
  "frame_ExtId x = ucast (src_id x) OR push_bit 8 (ucast (func_id x AND 0xF)) OR
     push_bit 12 (ucast (seg_num x AND 0xFF)) OR push_bit 20 (ucast (seg_polo x AND 0x3))"

definition can_bus_send_one_frame :: "sCanFrameExt \<Rightarrow> fw \<Rightarrow> (u8 \<times> fw) option" where
  "can_bus_send_one_frame sTxMsg s = do {
     d \<leftarrow> memcpy (uninit_tx_data s) 0 (frame_data sTxMsg) (unat (data_len sTxMsg));
     CAN_Transmit \<lparr>Tx_StdId = 0, Tx_ExtId = frame_ExtId (extId sTxMsg), Tx_IDE = CAN_ID_EXT,
       Tx_RTR = CAN_RTR_DATA, Tx_DLC = data_len sTxMsg, Tx_Data = d\<rparr> s
   }"

definition can_send_frame_process :: "fw \<Rightarrow> fw option" where
  "can_send_frame_process s =
     (let q = canSendQueue s in
      if front q = rear q then Some s
      else do {
        let fr = (of_nat ((unat (front q) + 1) mod unat (maxSize q)) :: u16);
        canTxMsg \<leftarrow> idx (queue q) (unat fr);
        (tx_mailbox, s1) \<leftarrow> can_bus_send_one_frame canTxMsg s;
        Some (if tx_mailbox \<noteq> CAN_NO_MB
              then s1\<lparr>canSendQueue := (canSendQueue s1)\<lparr>front := fr\<rparr>\<rparr> else s1)
      })"

section \<open>Messages\<close>

text \<open>The \<open>while(1)\<close> loop: \<open>sent\<close> is the local \<open>can_send_len\<close>.\<close>

function can_seg_loop :: "u8 list \<Rightarrow> nat \<Rightarrow> nat \<Rightarrow> sCanFrameExt \<Rightarrow> fw \<Rightarrow> fw option" where
  "can_seg_loop pbuf tot sent f s =
     (if sent + CAN_PACK_DATA_LEN < tot then do {
        d \<leftarrow> memcpy (frame_data f) 0 (drop sent pbuf) CAN_PACK_DATA_LEN;
        let f' = f\<lparr>extId := (extId f)\<lparr>seg_polo := CAN_SEG_POLO_MIDDLE, seg_num := seg_num (extId f) + 1\<rparr>,
                   data_len := 8, frame_data := d\<rparr>;
        can_seg_loop pbuf tot (sent + CAN_PACK_DATA_LEN) f' (AddCanSendData2Queue f' s)
      } else do {
        d \<leftarrow> memcpy (frame_data f) 0 (drop sent pbuf) (unat (of_nat (tot - sent) :: u8));
        let f' = f\<lparr>extId := (extId f)\<lparr>seg_polo := CAN_SEG_POLO_FINAL, seg_num := seg_num (extId f) + 1\<rparr>,
                   data_len := of_nat (tot - sent), frame_data := d\<rparr>;
        Some (AddCanSendData2Queue f' s)
      })"
  by pat_completeness auto
termination
  by (relation "measure (\<lambda>(_, tot, sent, _). tot - sent)") auto

declare can_seg_loop.simps [simp del]

definition can_bus_send_msg :: "u8 list \<Rightarrow> u16 \<Rightarrow> u8 \<Rightarrow> u8 \<Rightarrow> fw \<Rightarrow> fw option" where
  "can_bus_send_msg pbuf send_tot_len func src s =
     (let f0 = uninit_frame s;
          x0 = (extId f0)\<lparr>func_id := func, src_id := src\<rparr> in
      if unat send_tot_len \<le> CAN_PACK_DATA_LEN then do {
        d \<leftarrow> memcpy (frame_data f0) 0 pbuf (unat send_tot_len);
        Some (AddCanSendData2Queue
          (f0\<lparr>extId := x0\<lparr>seg_polo := CAN_SEG_POLO_NONE, seg_num := 0\<rparr>,
              data_len := ucast send_tot_len, frame_data := d\<rparr>) s)
      } else do {
        d \<leftarrow> memcpy (frame_data f0) 0 pbuf CAN_PACK_DATA_LEN;
        let f1 = f0\<lparr>extId := x0\<lparr>seg_polo := CAN_SEG_POLO_FIRST, seg_num := 0\<rparr>,
                    data_len := 8, frame_data := d\<rparr>;
        can_seg_loop pbuf (unat send_tot_len) CAN_PACK_DATA_LEN f1 (AddCanSendData2Queue f1 s)
      })"

text \<open>The first bytes of most messages: the length, low byte first, and a third byte.\<close>

definition put_header :: "u16 \<Rightarrow> u8 \<Rightarrow> fw \<Rightarrow> fw option" where
  "put_header n c s = do {
     let s0 = s\<lparr>can_send_len := n\<rparr>;
     b \<leftarrow> upd (can_send_buff s0) 0 (lo8 (can_send_len s0));
     b \<leftarrow> upd b 1 (hi8 (can_send_len s0));
     b \<leftarrow> upd b 2 c;
     Some (s0\<lparr>can_send_buff := b\<rparr>)
   }"

definition can_bus_send_read_user_paras :: "u8 \<Rightarrow> fw \<Rightarrow> fw option" where
  "can_bus_send_read_user_paras station s = do {
     s1 \<leftarrow> put_header 3 0x01 s;
     can_bus_send_msg (can_send_buff s1) (can_send_len s1) CAN_FUNC_ID_PARA_DATA station s1
   }"

text \<open>The three builders that carry a parameter block differ in the command byte.\<close>

definition send_paras_msg :: "u8 \<Rightarrow> USER_PARAS_T \<Rightarrow> fw \<Rightarrow> fw option" where
  "send_paras_msg cmd p s = do {
     s1 \<leftarrow> put_header (of_nat (3 + sizeof_USER_PARAS_T)) cmd s;
     b \<leftarrow> memcpy (can_send_buff s1) 3 (paras_bytes p) sizeof_USER_PARAS_T;
     let s2 = s1\<lparr>can_send_buff := b\<rparr>;
     can_bus_send_msg (can_send_buff s2) (can_send_len s2) CAN_FUNC_ID_PARA_DATA
       (ucast (Station_No p)) s2
   }"

definition can_bus_reply_read_user_paras :: "USER_PARAS_T \<Rightarrow> fw \<Rightarrow> fw option" where
  "can_bus_reply_read_user_paras = send_paras_msg 0x91"

definition can_bus_send_write_user_paras :: "USER_PARAS_T \<Rightarrow> fw \<Rightarrow> fw option" where
  "can_bus_send_write_user_paras = send_paras_msg 0x02"

definition can_bus_reply_write_user_paras :: "USER_PARAS_T \<Rightarrow> fw \<Rightarrow> fw option" where
  "can_bus_reply_write_user_paras = send_paras_msg 0x92"

definition can_bus_send_start_cmd :: "u8 \<Rightarrow> fw \<Rightarrow> fw option" where
  "can_bus_send_start_cmd cmd s = do {
     let s1 = s\<lparr>can_send_len := 1\<rparr>;
     b \<leftarrow> upd (can_send_buff s1) 0 cmd;
     let s2 = s1\<lparr>can_send_buff := b\<rparr>;
     can_bus_send_msg (can_send_buff s2) (can_send_len s2) CAN_FUNC_ID_START_CMD (local_station s2) s2
   }"

definition can_bus_send_reset_cmd :: "fw \<Rightarrow> fw option" where
  "can_bus_send_reset_cmd s = do {
     let s1 = s\<lparr>can_send_len := 0\<rparr>;
     can_bus_send_msg (can_send_buff s1) (can_send_len s1) CAN_FUNC_ID_RESET_CMD (local_station s1) s1
   }"

definition can_bus_send_func_select_cmd :: "u8 list \<Rightarrow> fw \<Rightarrow> fw option" where
  "can_bus_send_func_select_cmd pbuf s = do {
     let s1 = s\<lparr>can_send_len := 1\<rparr>;
     v \<leftarrow> idx pbuf 0;
     b \<leftarrow> upd (can_send_buff s1) 0 v;
     let s2 = s1\<lparr>can_send_buff := b\<rparr>;
     can_bus_send_msg (can_send_buff s2) (can_send_len s2) CAN_FUNC_ID_FUNC_SELECT_CMD
       (local_station s2) s2
   }"

definition can_bus_send_module_status :: "fw \<Rightarrow> fw option" where
  "can_bus_send_module_status s =
     (let n = Belt_Number (user_paras_local s) in
      if n = 0 \<or> n > 10 then Some s
      else do {
        s1 \<leftarrow> put_header (3 + 10 * n) (ucast n) s;
        b \<leftarrow> memcpy (can_send_buff s1) 3 (inverters_bytes (inverter_status_buffer s1))
               (sizeof_INVERTER_STATUS_T * unat n);
        let s2 = s1\<lparr>can_send_buff := b\<rparr>;
        can_bus_send_msg (can_send_buff s2) (can_send_len s2) CAN_FUNC_ID_MODULE_STATUS
          (local_station s2) s2
      })"

section \<open>The frames of a message\<close>

definition next_frame :: "u8 \<Rightarrow> u8 list \<Rightarrow> sCanFrameExt \<Rightarrow> sCanFrameExt" where
  "next_frame polo d f =
     f\<lparr>extId := (extId f)\<lparr>seg_polo := polo, seg_num := seg_num (extId f) + 1\<rparr>,
       data_len := of_nat (length d), frame_data := d @ drop (length d) (frame_data f)\<rparr>"

text \<open>The frames after the first, for the bytes still to be sent.\<close>

function seg_tail :: "u8 list \<Rightarrow> sCanFrameExt \<Rightarrow> sCanFrameExt list" where
  "seg_tail bs f =
     (if 8 < length bs
      then let f' = next_frame CAN_SEG_POLO_MIDDLE (take 8 bs) f in f' # seg_tail (drop 8 bs) f'
      else [next_frame CAN_SEG_POLO_FINAL bs f])"
  by pat_completeness auto
termination
  by (relation "measure (\<lambda>(bs, _). length bs)") auto

declare seg_tail.simps [simp del]

definition start_frame :: "sCanFrameExt \<Rightarrow> u8 \<Rightarrow> u8 \<Rightarrow> u8 \<Rightarrow> u8 list \<Rightarrow> sCanFrameExt" where
  "start_frame f0 polo func src d =
     f0\<lparr>extId := (extId f0)\<lparr>func_id := func, src_id := src, seg_polo := polo, seg_num := 0\<rparr>,
        data_len := of_nat (length d), frame_data := d @ drop (length d) (frame_data f0)\<rparr>"

definition msg_frames :: "sCanFrameExt \<Rightarrow> u8 \<Rightarrow> u8 \<Rightarrow> u8 list \<Rightarrow> sCanFrameExt list" where
  "msg_frames f0 func src msg =
     (if length msg \<le> 8 then [start_frame f0 CAN_SEG_POLO_NONE func src msg]
      else let f1 = start_frame f0 CAN_SEG_POLO_FIRST func src (take 8 msg)
           in f1 # seg_tail (drop 8 msg) f1)"

definition AddCanFrames :: "sCanFrameExt list \<Rightarrow> fw \<Rightarrow> fw" where
  "AddCanFrames xs s = s\<lparr>canSendQueue := canq.enq_all xs (canSendQueue s)\<rparr>"

lemma AddCanFrames_Cons: "AddCanFrames (x # xs) s = AddCanFrames xs (AddCanSendData2Queue x s)"
  by (simp add: AddCanFrames_def AddCanSendData2Queue_def)

lemma AddCanFrames_single: "AddCanFrames [x] s = AddCanSendData2Queue x s"
  by (simp add: AddCanFrames_def AddCanSendData2Queue_def)

lemma can_frames_AddCanFrames:
  "queues_inv s \<Longrightarrow>
     can_frames (AddCanFrames xs s) = can_frames s @ take (49 - length (can_frames s)) xs"
  unfolding AddCanFrames_def
  by (simp add: queues_invD canq.contents_enq_all del: length_ring_list)

lemma AddCanFrames_inv [simp]: "queues_inv s \<Longrightarrow> queues_inv (AddCanFrames xs s)"
  by (simp add: queues_inv_def AddCanFrames_def canq.invar_enq_all)

lemma memcpy_frame:
  "length d = 8 \<Longrightarrow> n \<le> 8 \<Longrightarrow> n \<le> length src \<Longrightarrow>
     memcpy d 0 src n = Some (take n src @ drop n d)"
  by (simp add: memcpy_def)

lemma next_frame_length: "length (frame_data f) = 8 \<Longrightarrow> length d \<le> 8 \<Longrightarrow>
    length (frame_data (next_frame p d f)) = 8"
  by (simp add: next_frame_def)

lemma can_seg_loop_eq:
  "length (frame_data f) = 8 \<Longrightarrow> sent < tot \<Longrightarrow> tot \<le> length pbuf \<Longrightarrow>
     can_seg_loop pbuf tot sent f s = Some (AddCanFrames (seg_tail (drop sent (take tot pbuf)) f) s)"
proof (induction pbuf tot sent f s rule: can_seg_loop.induct)
  case (1 pbuf tot sent f s)
  show ?case
  proof (cases "sent + 8 < tot")
    case True
    have t8: "take 8 (drop sent (take tot pbuf)) = take 8 (drop sent pbuf)"
      using True by (simp add: take_drop min_def)
    let ?f' = "next_frame CAN_SEG_POLO_MIDDLE (take 8 (drop sent pbuf)) f"
    have nf: "f\<lparr>extId := (extId f)\<lparr>seg_polo := CAN_SEG_POLO_MIDDLE, seg_num := seg_num (extId f) + 1\<rparr>,
        data_len := 8, frame_data := take 8 (drop sent pbuf) @ drop 8 (frame_data f)\<rparr> = ?f'"
      using True "1.prems" by (simp add: next_frame_def)
    have "8 < tot - sent" using True by simp
    then have tl: "seg_tail (drop sent (take tot pbuf)) f =
        ?f' # seg_tail (drop (sent + 8) (take tot pbuf)) ?f'"
      using True "1.prems" t8 by (subst seg_tail.simps) (simp add: Let_def add.commute)
    have "can_seg_loop pbuf tot sent f s =
        can_seg_loop pbuf tot (sent + 8) ?f' (AddCanSendData2Queue ?f' s)"
      using True "1.prems" nf
      by (subst can_seg_loop.simps) (simp add: memcpy_frame Let_def)
    also have "\<dots> = Some (AddCanFrames (seg_tail (drop (sent + 8) (take tot pbuf)) ?f')
        (AddCanSendData2Queue ?f' s))"
      using "1.IH" [OF True _ refl] True "1.prems" nf
      by (simp add: memcpy_frame next_frame_length)
    finally show ?thesis unfolding tl AddCanFrames_Cons .
  next
    case False
    have n: "unat (of_nat (tot - sent) :: u8) = tot - sent"
      using False by (simp add: unat_of_nat)
    have d: "drop sent (take tot pbuf) = take (tot - sent) (drop sent pbuf)"
      by (simp add: drop_take)
    have "seg_tail (drop sent (take tot pbuf)) f =
        [next_frame CAN_SEG_POLO_FINAL (take (tot - sent) (drop sent pbuf)) f]"
      using False "1.prems" d less_diff_conv [of 8 tot sent] by (subst seg_tail.simps) simp
    with False "1.prems" n d show ?thesis
      by (subst can_seg_loop.simps)
        (simp add: memcpy_frame AddCanFrames_single next_frame_def)
  qed
qed

lemma can_bus_send_msg_eq:
  assumes "unat n \<le> length pbuf" "length (frame_data (uninit_frame s)) = 8"
  shows "can_bus_send_msg pbuf n func src s =
     Some (AddCanFrames (msg_frames (uninit_frame s) func src (take (unat n) pbuf)) s)"
proof (cases "unat n \<le> 8")
  case True
  have "ucast n = (of_nat (unat n) :: u8)" by simp
  with True assms show ?thesis
    by (simp add: can_bus_send_msg_def Let_def memcpy_frame msg_frames_def start_frame_def
        AddCanFrames_single)
next
  case False
  then have t: "take 8 (take (unat n) pbuf) = take 8 pbuf" by (simp add: min_def)
  let ?f1 = "start_frame (uninit_frame s) CAN_SEG_POLO_FIRST func src (take 8 pbuf)"
  have "can_bus_send_msg pbuf n func src s =
      can_seg_loop pbuf (unat n) 8 ?f1 (AddCanSendData2Queue ?f1 s)"
    using False assms by (simp add: can_bus_send_msg_def Let_def memcpy_frame start_frame_def)
  also have "\<dots> = Some (AddCanFrames (seg_tail (drop 8 (take (unat n) pbuf)) ?f1)
      (AddCanSendData2Queue ?f1 s))"
    using False assms by (intro can_seg_loop_eq) (simp_all add: start_frame_def)
  finally show ?thesis
    using False assms t by (simp add: msg_frames_def Let_def AddCanFrames_Cons)
qed

section \<open>The messages the builders send\<close>

text \<open>The CAN arrays have their declared sizes, and so have the uninitialised locals.\<close>

definition can_ok :: "fw \<Rightarrow> bool" where
  "can_ok s \<longleftrightarrow> length (can_send_buff s) = CAN_TX_BUFF_SIZE \<and>
     length (can_recv_buff s) = CAN_RX_BUFF_SIZE \<and> length (frame_data (uninit_frame s)) = 8 \<and>
     length (uninit_tx_data s) = 8 \<and> length (sTxMailBox s) = 3 \<and>
     length (inverter_status (uninit_status s)) = 10"

text \<open>The state after \<open>msg\<close> has been built in \<open>can_send_buff\<close> and queued.\<close>

definition can_message :: "u8 \<Rightarrow> u8 \<Rightarrow> u8 list \<Rightarrow> fw \<Rightarrow> fw" where
  "can_message func src msg s = AddCanFrames (msg_frames (uninit_frame s) func src msg)
     (s\<lparr>can_send_len := of_nat (length msg),
        can_send_buff := msg @ drop (length msg) (can_send_buff s)\<rparr>)"

lemma three_or_more: "3 \<le> length xs \<Longrightarrow> \<exists>a b d bs. xs = a # b # d # bs"
  by (auto simp: numeral_3_eq_3 Suc_le_length_iff)

lemma drop_3: "drop (Suc (Suc (Suc 0))) xs = drop 3 xs"
  by (simp add: numeral_3_eq_3)

lemma header_split:
  "take (3 + k) (a # b # c # xs) = a # b # c # take k xs"
  "drop (3 + k) (a # b # c # xs) = drop k xs"
  "drop (Suc (Suc (Suc k))) ys = drop (3 + k) ys"
  by (simp_all add: numeral_3_eq_3)

lemma put_header_eq:
  assumes "can_ok s"
  shows "put_header n c s =
    Some (s\<lparr>can_send_len := n, can_send_buff := [lo8 n, hi8 n, c] @ drop 3 (can_send_buff s)\<rparr>)"
proof -
  obtain a b d bs where "can_send_buff s = a # b # d # bs"
    using assms three_or_more [of "can_send_buff s"] by (auto simp: can_ok_def)
  then show ?thesis by (simp add: put_header_def upd_def numeral_2_eq_2 numeral_3_eq_3 Let_def)
qed

lemma send_start_cmd_eq:
  "can_ok s \<Longrightarrow> can_bus_send_start_cmd cmd s =
     Some (can_message CAN_FUNC_ID_START_CMD (local_station s) [cmd] s)"
  by (cases "can_send_buff s")
    (simp_all add: can_bus_send_start_cmd_def can_ok_def upd_def can_bus_send_msg_eq can_message_def Let_def)

lemma send_reset_cmd_eq:
  "can_ok s \<Longrightarrow> can_bus_send_reset_cmd s =
     Some (can_message CAN_FUNC_ID_RESET_CMD (local_station s) [] s)"
  by (simp add: can_bus_send_reset_cmd_def can_ok_def can_bus_send_msg_eq can_message_def Let_def)

lemma send_func_select_cmd_eq:
  "can_ok s \<Longrightarrow> can_bus_send_func_select_cmd (c # cs) s =
     Some (can_message CAN_FUNC_ID_FUNC_SELECT_CMD (local_station s) [c] s)"
  by (cases "can_send_buff s")
    (simp_all add: can_bus_send_func_select_cmd_def can_ok_def upd_def idx_def can_bus_send_msg_eq
      can_message_def Let_def)

lemma send_read_user_paras_eq:
  "can_ok s \<Longrightarrow> can_bus_send_read_user_paras station s =
     Some (can_message CAN_FUNC_ID_PARA_DATA station [3, 0, 0x01] s)"
  by (simp add: can_bus_send_read_user_paras_def put_header_eq)
    (simp add: can_ok_def can_bus_send_msg_eq can_message_def lo8_def hi8_def drop_3)

lemma send_paras_msg_eq:
  assumes "can_ok s" "wf_paras p"
  shows "send_paras_msg cmd p s = Some (can_message CAN_FUNC_ID_PARA_DATA (ucast (Station_No p))
     ([235, 0, cmd] @ paras_bytes p) s)"
proof -
  have h: "lo8 235 = 235" "hi8 235 = 0" by (simp_all add: lo8_def hi8_def)
  have l: "length (paras_bytes p) = 232" using assms(2) by simp
  show ?thesis
    using assms(1) l
    by (simp add: send_paras_msg_def put_header_eq h)
      (simp add: can_ok_def memcpy_def can_bus_send_msg_eq can_message_def drop_3 Let_def)
qed

lemma send_module_status_eq:
  assumes "can_ok s" "length (inverter_status_buffer s) = 10"
    and "Belt_Number (user_paras_local s) \<noteq> 0" "Belt_Number (user_paras_local s) \<le> 10"
  shows "can_bus_send_module_status s = Some (can_message CAN_FUNC_ID_MODULE_STATUS (local_station s)
     ([of_nat (3 + 10 * belts s), 0, of_nat (belts s)] @
       take (10 * belts s) (inverters_bytes (inverter_status_buffer s))) s)"
proof -
  let ?n = "Belt_Number (user_paras_local s)"
  have n: "belts s \<le> 10" using assms(4) by (simp add: word_le_nat_alt)
  have len: "(3 + 10 * ?n) = of_nat (3 + 10 * belts s)" by simp
  have u: "unat (3 + 10 * ?n) = 3 + 10 * belts s"
    unfolding len using n by (intro unat_of_nat_small) simp
  have lo: "lo8 (3 + 10 * ?n) = of_nat (3 + 10 * belts s)"
    by (metis lo8_ucast of_nat_unat u)
  have hi: "hi8 (3 + 10 * ?n) = 0"
    using u n by (simp add: hi8_small)
  show ?thesis
    using assms n u
    by (simp add: can_bus_send_module_status_def put_header_eq lo hi not_less Let_def)
      (simp add: can_ok_def memcpy_def can_bus_send_msg_eq can_message_def header_split add.commute)
qed

end
