(* ===== verification/CanRecv.thy ===== *)
theory CanRecv
  imports CanSend
begin

text \<open>
  The receiving half of can_bus.c: \<open>CAN_Receive\<close> of the driver, the reassembly of
  segmented messages (\<open>g_SegPolo\<close>, \<open>g_SegNum\<close>, \<open>g_SegBytes\<close> and the receive
  buffer), and the handlers the messages are dispatched to.

  The receive FIFO of the peripheral is an argument: what the bus delivers. A data length code
  above 8 would make the copies of \<open>can_bus_frame_receive\<close> read behind the 8 data bytes,
  and is undefined here. \<open>NVIC_SystemReset\<close> does not return: the handler ends there with
  \<open>sys_reset\<close> set.
\<close>

section \<open>The driver\<close>

record rx_fifo =
  RIR :: u32
  RDTR :: u32
  RDLR :: u32
  RDHR :: u32

text \<open>\<open>CAN_Receive\<close> leaves the identifier that does not apply (standard or extended)
  unset; it is 0 here and the firmware reads only the extended one.\<close>

definition CAN_Receive :: "rx_fifo \<Rightarrow> CanRxMsg" where
  "CAN_Receive r =
     (let ide = ucast (0x04 AND RIR r) in
      \<lparr>Rx_StdId = (if ide = CAN_ID_STD then 0x000007FF AND drop_bit 21 (RIR r) else 0),
       Rx_ExtId = (if ide = CAN_ID_STD then 0 else 0x1FFFFFFF AND drop_bit 3 (RIR r)),
       Rx_IDE = ide,
       Rx_RTR = ucast (0x02 AND RIR r),
       Rx_DLC = ucast (0x0F AND RDTR r),
       Rx_Data = [ucast (0xFF AND RDLR r), ucast (0xFF AND drop_bit 8 (RDLR r)),
         ucast (0xFF AND drop_bit 16 (RDLR r)), ucast (0xFF AND drop_bit 24 (RDLR r)),
         ucast (0xFF AND RDHR r), ucast (0xFF AND drop_bit 8 (RDHR r)),
         ucast (0xFF AND drop_bit 16 (RDHR r)), ucast (0xFF AND drop_bit 24 (RDHR r))],
       Rx_FMI = ucast (0xFF AND drop_bit 8 (RDTR r))\<rparr>)"

section \<open>Handlers\<close>

definition para_data_recv_process :: "u8 list \<Rightarrow> u16 \<Rightarrow> fw \<Rightarrow> fw option" where
  "para_data_recv_process pbuf recv_len s = do {
     b0 \<leftarrow> idx pbuf 0;
     b1 \<leftarrow> idx pbuf 1;
     let data_len = (ucast b0 OR ucast (drop_bit 8 b1) :: u16);
     cmd \<leftarrow> idx pbuf 2;
     if data_len \<noteq> recv_len then Some s
     else if cmd = 0x1 then can_bus_reply_read_user_paras (user_paras_local s) s
     else if cmd = 0x91 then
       (if 3 + sizeof_USER_PARAS_T \<le> length pbuf
        then Some (AddSendMsgToQueue REPLY_RECV_MSG_READ_PARA_CMD_TYPE
               (s\<lparr>user_paras_slave := bytes_paras (take sizeof_USER_PARAS_T (drop 3 pbuf))\<rparr>))
        else None)
     else if cmd = 0x2 then do {
       s1 \<leftarrow> write_user_paras (bytes_u16s (drop 9 pbuf)) s;
       s2 \<leftarrow> read_user_paras s1;
       can_bus_reply_write_user_paras (user_paras_local s2) s2
     }
     else if cmd = 0x92 then
       (if 3 + sizeof_USER_PARAS_T \<le> length pbuf
        then Some (AddSendMsgToQueue REPLY_RECV_MSG_WRITE_PARA_CMD_TYPE
               (s\<lparr>user_paras_slave := bytes_paras (take sizeof_USER_PARAS_T (drop 3 pbuf))\<rparr>))
        else None)
     else Some s
   }"

text \<open>\<open>memcpy\<close> into the array of ten inverter states: the elements behind
  \<open>belt_num\<close> stay uninitialised.\<close>

definition module_status_recv_process :: "u8 list \<Rightarrow> u16 \<Rightarrow> u8 \<Rightarrow> fw \<Rightarrow> fw option" where
  "module_status_recv_process pbuf recv_len src s = do {
     b0 \<leftarrow> idx pbuf 0;
     b1 \<leftarrow> idx pbuf 1;
     let data_len = (ucast b0 OR ucast (drop_bit 8 b1) :: u16);
     belt_num \<leftarrow> idx pbuf 2;
     if data_len \<noteq> recv_len \<or> belt_num = 0 then Some s
     else do {
       let n = unat belt_num;
       bytes \<leftarrow> memcpy (inverters_bytes (inverter_status (uninit_status s))) 0 (drop 3 pbuf)
                  (sizeof_INVERTER_STATUS_T * n);
       let st = bytes_inverters 10 bytes;
       let m = \<lparr>station_no = ucast src, belt_number = ucast belt_num, inverter_status = st\<rparr>;
       let s1 = (if isHost s \<noteq> 0 then AddModuleStatusData2Queue m s else s);
       if ucast src = Up_Stream_No (user_paras_local s1) then do {
         v \<leftarrow> idx st (n - 1);
         Some (s1\<lparr>g_link_up_stream_status := ucast (drop_bit 4 (fault_code v) AND 1)\<rparr>)
       }
       else if ucast src = Down_Stream_No (user_paras_local s1) then do {
         v \<leftarrow> idx st 0;
         let run = (ucast (drop_bit 4 (fault_code v) AND 1) :: u8);
         s2 \<leftarrow>
           (if Belt_Number (user_paras_local s1) \<noteq> 0 \<and> g_link_down_stream_status s1 \<noteq> run then
              Linkage_Stream_Ctrl_Handle (ucast (Belt_Number (user_paras_local s1) - 1))
                (if g_link_down_stream_status s1 = 1 then 0 else 1) s1
            else Some s1);
         Some (s2\<lparr>g_link_down_stream_status := run\<rparr>)
       }
       else Some s1
     }
   }"

section \<open>Frames\<close>

definition recv_extID :: "u32 \<Rightarrow> sCanFrameExtID" where
  "recv_extID ExtId = \<lparr>seg_polo = ucast (drop_bit 20 ExtId AND 0x3),
     seg_num = ucast (drop_bit 12 ExtId AND 0xFF), func_id = ucast (drop_bit 8 ExtId AND 0xF),
     src_id = ucast (ExtId AND 0xFF), dst_id = ucast (drop_bit 22 ExtId AND 0x7F)\<rparr>"

text \<open>The status flags live in the flash controller, not in the program's state.\<close>

definition FLASH_ClearFlag :: "u32 \<Rightarrow> fw \<Rightarrow> fw" where
  "FLASH_ClearFlag FLASH_FLAG s = s"

definition enter_boot_mode :: "fw \<Rightarrow> fw" where
  "enter_boot_mode s =
     (let s1 = FLASH_ClearFlag 0x34 (FLASH_Unlock s);
          (status, s2) = FLASH_ErasePage UserAppEnFlagAddress s1;
          s3 = (if status = FLASH_COMPLETE
                then snd (FLASH_ProgramHalfWord UserAppEnFlagAddress 0x0000 s2) else s2)
      in (FLASH_Lock s3)\<lparr>sys_reset := True\<rparr>)"

text \<open>The receive step: whether a message is complete, and the new state. The sums and the
  comparison with \<open>g_SegNum+1\<close> are in \<open>int\<close>.\<close>

definition can_reassemble :: "sCanFrameExtID \<Rightarrow> CanRxMsg \<Rightarrow> fw \<Rightarrow> (bool \<times> fw) option" where
  "can_reassemble x m s =
     (let n = unat (Rx_DLC m) in
      if seg_polo x = CAN_SEG_POLO_NONE then do {
        b \<leftarrow> memcpy (can_recv_buff s) 0 (Rx_Data m) n;
        Some (True, s\<lparr>can_recv_buff := b, can_recv_len := ucast (Rx_DLC m)\<rparr>)
      }
      else if seg_polo x = CAN_SEG_POLO_FIRST then do {
        b \<leftarrow> memcpy (can_recv_buff s) 0 (Rx_Data m) n;
        Some (False, s\<lparr>can_recv_buff := b, g_SegPolo := CAN_SEG_POLO_FIRST,
                       g_SegNum := seg_num x, g_SegBytes := ucast (Rx_DLC m)\<rparr>)
      }
      else if seg_polo x = CAN_SEG_POLO_MIDDLE then
        if g_SegPolo s = CAN_SEG_POLO_FIRST \<and> unat (seg_num x) = unat (g_SegNum s) + 1 \<and>
           unat (g_SegBytes s) + n \<le> CAN_RX_BUFF_SIZE then do {
          b \<leftarrow> memcpy (can_recv_buff s) (unat (g_SegBytes s)) (Rx_Data m) n;
          Some (False, s\<lparr>can_recv_buff := b, g_SegNum := g_SegNum s + 1,
                         g_SegBytes := g_SegBytes s + ucast (Rx_DLC m)\<rparr>)
        } else Some (False, s)
      else if seg_polo x = CAN_SEG_POLO_FINAL then
        if g_SegPolo s = CAN_SEG_POLO_FIRST \<and> unat (seg_num x) = unat (g_SegNum s) + 1 \<and>
           unat (g_SegBytes s) + n \<le> CAN_RX_BUFF_SIZE then do {
          b \<leftarrow> memcpy (can_recv_buff s) (unat (g_SegBytes s)) (Rx_Data m) n;
          Some (True, s\<lparr>can_recv_buff := b, can_recv_len := g_SegBytes s + ucast (Rx_DLC m),
                        g_SegPolo := CAN_SEG_POLO_NONE, g_SegNum := 0, g_SegBytes := 0\<rparr>)
        } else Some (False, s)
      else Some (False, s))"

definition can_dispatch :: "sCanFrameExtID \<Rightarrow> fw \<Rightarrow> fw option" where
  "can_dispatch x s =
     (if func_id x = CAN_FUNC_ID_PARA_DATA \<and> (src_id x = local_station s \<or> isHost s = 1)
      then para_data_recv_process (can_recv_buff s) (can_recv_len s) s
      else if func_id x = CAN_FUNC_ID_START_CMD then do {
        g \<leftarrow> idx (can_recv_buff s) 0;
        Speed_Ctrl_Process g s
      }
      else if func_id x = CAN_FUNC_ID_MODULE_STATUS
      then module_status_recv_process (can_recv_buff s) (can_recv_len s) (src_id x) s
      else if func_id x = CAN_FUNC_ID_RESET_CMD then Reset_Ctrl_Handle s
      else if func_id x = CAN_FUNC_ID_FUNC_SELECT_CMD then do {
        v \<leftarrow> idx (can_recv_buff s) 0;
        Some (s\<lparr>g_block_disable_flag := v\<rparr>)
      }
      else if func_id x = CAN_FUNC_ID_READ_MODULE_STATUS \<and> src_id x = local_station s \<and> isHost s \<noteq> 1
      then can_bus_send_module_status s
      else Some s)"

definition can_bus_frame_receive :: "CanRxMsg \<Rightarrow> fw \<Rightarrow> fw option" where
  "can_bus_frame_receive rxMsg s =
     (let x = recv_extID (Rx_ExtId rxMsg) in
      if func_id x = CAN_FUNC_ID_BOOT_MODE \<and> dst_id x = local_station s then Some (enter_boot_mode s)
      else do {
        (recv_finish_flag, s1) \<leftarrow> can_reassemble x rxMsg s;
        if recv_finish_flag then can_dispatch x s1 else Some s1
      })"

text \<open>The interrupt: fetch the message and process it.\<close>

definition CAN1_RX0_IRQHandler :: "rx_fifo \<Rightarrow> fw \<Rightarrow> fw option" where
  "CAN1_RX0_IRQHandler r s = can_bus_frame_receive (CAN_Receive r) s"

section \<open>From mailbox to handler\<close>

lemma low_masks: "(0x3 :: 'a::len word) = mask 2" "(0xF :: 'a word) = mask 4" "(0x7F :: 'a word) = mask 7"
    "(0xFF :: 'a word) = mask 8" "(0x1FFFFFFF :: 'a word) = mask 29"
  by (simp_all add: mask_eq_exp_minus_1)

lemma bit_u8_beyond: "8 \<le> n \<Longrightarrow> \<not> bit (w :: u8) n"
  by (auto dest: bit_imp_le_length)

text \<open>The identifier packs four fields without overlap: unpacking gives them back, cut to
  their widths, and a zero destination.\<close>

lemma recv_frame_ExtId:
  "recv_extID (frame_ExtId x) = \<lparr>seg_polo = seg_polo x AND 0x3, seg_num = seg_num x,
     func_id = func_id x AND 0xF, src_id = src_id x, dst_id = 0\<rparr>"
  unfolding recv_extID_def frame_ExtId_def low_masks
  by (auto intro!: bit_word_eqI simp: bit_simps bit_u8_beyond simp del: mask_numeral)

lemma bit_frame_ExtId: "bit (frame_ExtId x) n \<Longrightarrow> n < 22"
proof (rule ccontr)
  assume "bit (frame_ExtId x) n" "\<not> n < 22"
  then show False
    unfolding frame_ExtId_def low_masks
    by (auto simp: bit_simps bit_u8_beyond simp del: mask_numeral)
qed

lemma frame_ExtId_29: "0x1FFFFFFF AND drop_bit 3 (push_bit 3 (frame_ExtId x)) = frame_ExtId x"
  unfolding low_masks
  by (rule bit_word_eqI) (auto simp: bit_simps dest: bit_frame_ExtId simp del: mask_numeral)

definition fifo_bytes :: "u32 \<Rightarrow> u32 \<Rightarrow> u8 list" where
  "fifo_bytes lo hi = [ucast (0xFF AND lo), ucast (0xFF AND drop_bit 8 lo),
     ucast (0xFF AND drop_bit 16 lo), ucast (0xFF AND drop_bit 24 lo),
     ucast (0xFF AND hi), ucast (0xFF AND drop_bit 8 hi),
     ucast (0xFF AND drop_bit 16 hi), ucast (0xFF AND drop_bit 24 hi)]"

lemma data_word_bytes:
  "ucast (0xFF AND data_word d k) = d ! k"
  "ucast (0xFF AND drop_bit 8 (data_word d k)) = d ! (k + 1)"
  "ucast (0xFF AND drop_bit 16 (data_word d k)) = d ! (k + 2)"
  "ucast (0xFF AND drop_bit 24 (data_word d k)) = d ! (k + 3)"
  unfolding data_word_def low_masks
  by (auto intro!: bit_word_eqI simp: bit_simps bit_u8_beyond simp del: mask_numeral)

text \<open>What the bus guarantees to a receiver: the identifier with its flags (all of \<open>TIR\<close>
  but the request bit), the data length code, and as many data bytes as it says. The other
  bits of the receive registers (filter index, time stamp, unused data bytes) are arbitrary.\<close>

definition bus_delivers :: "mailbox \<Rightarrow> rx_fifo \<Rightarrow> bool" where
  "bus_delivers mb r \<longleftrightarrow> drop_bit 1 (RIR r) = drop_bit 1 (TIR mb) \<and>
     0x0F AND RDTR r = 0x0F AND TDTR mb \<and>
     (let n = unat (0x0F AND TDTR mb)
      in take n (fifo_bytes (RDLR r) (RDHR r)) = take n (fifo_bytes (TDLR mb) (TDHR mb)))"

definition frame_ok :: "sCanFrameExt \<Rightarrow> bool" where
  "frame_ok f \<longleftrightarrow> length (frame_data f) = 8 \<and> data_len f \<le> 8"

text \<open>A received message that carries a frame.\<close>

definition carries :: "sCanFrameExt \<Rightarrow> CanRxMsg \<Rightarrow> bool" where
  "carries f m \<longleftrightarrow> Rx_ExtId m = frame_ExtId (extId f) \<and> Rx_DLC m = data_len f \<and>
     length (Rx_Data m) = 8 \<and>
     take (unat (data_len f)) (Rx_Data m) = take (unat (data_len f)) (frame_data f)"

lemma frame_okD: "frame_ok f \<Longrightarrow> length (frame_data f) = 8" "frame_ok f \<Longrightarrow> unat (data_len f) \<le> 8"
  by (auto simp: frame_ok_def word_le_nat_alt)

text \<open>The mailbox a frame is loaded into.\<close>

definition frame_mailbox :: "u8 list \<Rightarrow> sCanFrameExt \<Rightarrow> mailbox \<Rightarrow> mailbox" where
  "frame_mailbox pad f mb =
     (let d = take (unat (data_len f)) (frame_data f) @ drop (unat (data_len f)) pad in
      \<lparr>TIR = ((TIR mb AND 1) OR (push_bit 3 (frame_ExtId (extId f)) OR 4 OR 0)) OR 1,
       TDTR = (TDTR mb AND 0xFFFFFFF0) OR ucast (data_len f AND 0x0F),
       TDLR = data_word d 0, TDHR = data_word d 4\<rparr>)"

lemma free_mailbox_less: "free_mailbox s \<noteq> CAN_NO_MB \<Longrightarrow> unat (free_mailbox s) < 3"
  by (simp add: free_mailbox_def split: if_splits)

lemma send_one_frame_eq:
  assumes "can_ok s" "frame_ok f"
  shows "can_bus_send_one_frame f s = Some (free_mailbox s,
     if free_mailbox s = CAN_NO_MB then s
     else s\<lparr>sTxMailBox := (sTxMailBox s)[unat (free_mailbox s) :=
       frame_mailbox (uninit_tx_data s) f (sTxMailBox s ! unat (free_mailbox s))]\<rparr>)"
proof -
  note f = frame_okD [OF assms(2)]
  have "idx (sTxMailBox s) (unat (free_mailbox s)) = Some (sTxMailBox s ! unat (free_mailbox s))"
    "upd (sTxMailBox s) (unat (free_mailbox s)) v = Some ((sTxMailBox s)[unat (free_mailbox s) := v])"
    if "free_mailbox s \<noteq> CAN_NO_MB" for v
    using free_mailbox_less [OF that] assms(1) by (simp_all add: can_ok_def idx_Some upd_Some)
  then show ?thesis
    using assms(1) f
    by (simp add: can_bus_send_one_frame_def CAN_Transmit_def memcpy_def can_ok_def
        frame_mailbox_def Let_def)
qed

lemma mailbox_length_field:
  "unat n \<le> 8 \<Longrightarrow> 0x0F AND ((w AND 0xFFFFFFF0) OR ucast (n AND 0x0F)) = (ucast (n :: u8) :: u32)"
proof -
  assume n: "unat n \<le> 8"
  have small: "k < 4" if "bit n k" for k
  proof (rule ccontr)
    assume "\<not> k < 4"
    then have "(2::nat) ^ 4 \<le> 2 ^ k" by (intro power_increasing) simp_all
    with n have "\<not> bit (unat n) k" by (simp add: bit_iff_odd)
    with that show False by (simp add: bit_unsigned_iff)
  qed
  have m: "(0xFFFFFFF0 :: u32) = NOT (mask 4)" by (simp add: mask_eq_exp_minus_1)
  show ?thesis
    unfolding m low_masks
    by (rule bit_word_eqI) (auto simp: bit_simps dest: small simp del: mask_numeral)
qed

lemma list_of_8: "length d = 8 \<Longrightarrow> [d ! 0, d ! (0 + 1), d ! (0 + 2), d ! (0 + 3), d ! 4, d ! (4 + 1),
    d ! (4 + 2), d ! (4 + 3)] = d"
  by (rule nth_equalityI) (auto simp: less_Suc_eq nth_Cons' numeral_eq_Suc)

lemma delivered_carries:
  assumes "frame_ok f" "length pad = 8" "bus_delivers (frame_mailbox pad f mb) r"
  shows "carries f (CAN_Receive r)"
proof -
  note f = frame_okD [OF assms(1)]
  let ?mb = "frame_mailbox pad f mb" and ?n = "unat (data_len f)"
  let ?d = "take ?n (frame_data f) @ drop ?n pad"
  have "drop_bit 1 (RIR r) = drop_bit 1 (TIR ?mb)"
    using assms(3) by (simp add: bus_delivers_def)
  then have rir: "bit (RIR r) (Suc k) = bit (TIR ?mb) (Suc k)" for k
    using bit_drop_bit_eq [of 1 "RIR r"] bit_drop_bit_eq [of 1 "TIR ?mb"] by (metis comp_apply plus_1_eq_Suc)
  have "bit (RIR r) 2"
    using rir [of 1] by (simp add: frame_mailbox_def Let_def bit_simps numeral_2_eq_2)
  then have "bit (ucast (0x04 AND RIR r) :: u8) 2" by (simp add: bit_simps)
  then have ide: "ucast (0x04 AND RIR r) \<noteq> (0 :: u8)" by auto
  have tir: "bit (TIR ?mb) (Suc (2 + n)) = bit (frame_ExtId (extId f)) n" for n
    using bit_frame_ExtId [of "extId f" n] by (auto simp: frame_mailbox_def Let_def bit_simps)
  have ext: "0x1FFFFFFF AND drop_bit 3 (RIR r) = frame_ExtId (extId f)"
    unfolding low_masks
    by (rule bit_word_eqI)
      (use rir tir in \<open>auto simp: bit_simps numeral_3_eq_3 dest: bit_frame_ExtId less_trans [of _ 22 29] simp del: mask_numeral\<close>)
  have tdtr: "0x0F AND TDTR ?mb = ucast (data_len f)"
    using mailbox_length_field [OF f(2)] by (simp add: frame_mailbox_def Let_def)
  then have dlc: "0x0F AND RDTR r = ucast (data_len f)"
    using assms(3) by (simp add: bus_delivers_def)
  have n: "unat (ucast (data_len f) :: u32) = ?n"
    using unat_less_256 [of "data_len f"] by (simp add: unsigned_ucast_eq take_bit_eq_mod)
  have "length ?d = 8" using f assms(2) by simp
  then have bytes: "fifo_bytes (data_word ?d 0) (data_word ?d 4) = ?d"
    unfolding fifo_bytes_def data_word_bytes by (rule list_of_8)
  have data: "take ?n (fifo_bytes (RDLR r) (RDHR r)) = take ?n (frame_data f)"
  proof -
    have "take ?n (fifo_bytes (RDLR r) (RDHR r)) = take ?n (fifo_bytes (TDLR ?mb) (TDHR ?mb))"
      using assms(3) unfolding bus_delivers_def Let_def tdtr n by simp
    also have "fifo_bytes (TDLR ?mb) (TDHR ?mb) = ?d"
      using bytes by (simp add: frame_mailbox_def Let_def)
    finally show ?thesis using f by simp
  qed
  have "Rx_Data (CAN_Receive r) = fifo_bytes (RDLR r) (RDHR r)"
    by (simp add: CAN_Receive_def fifo_bytes_def Let_def)
  moreover have "ucast (ucast (data_len f) :: u32) = data_len f"
    by (rule bit_word_eqI) (auto simp: bit_simps)
  ultimately show ?thesis
    using data dlc ide ext by (simp add: carries_def CAN_Receive_def Let_def fifo_bytes_def)
qed

section \<open>Reassembly of a segmented message\<close>

primrec can_receive_all :: "CanRxMsg list \<Rightarrow> fw \<Rightarrow> fw option" where
  "can_receive_all [] s = Some s"
| "can_receive_all (m # ms) s = do { s1 \<leftarrow> can_bus_frame_receive m s; can_receive_all ms s1 }"

text \<open>The receiver in the middle of a message: \<open>k\<close> bytes so far, last segment number
  \<open>n\<close>.\<close>

definition seg_state :: "u8 list \<Rightarrow> u8 \<Rightarrow> nat \<Rightarrow> fw \<Rightarrow> fw" where
  "seg_state buf n k s =
     s\<lparr>g_SegPolo := CAN_SEG_POLO_FIRST, can_recv_buff := buf, g_SegNum := n, g_SegBytes := of_nat k\<rparr>"

text \<open>The receiver with a complete message.\<close>

definition whole_message :: "u8 list \<Rightarrow> fw \<Rightarrow> fw" where
  "whole_message msg s =
     s\<lparr>can_recv_buff := msg @ drop (length msg) (can_recv_buff s), can_recv_len := of_nat (length msg)\<rparr>"

definition seg_idle :: "fw \<Rightarrow> fw" where
  "seg_idle s = s\<lparr>g_SegPolo := CAN_SEG_POLO_NONE, g_SegNum := 0, g_SegBytes := 0\<rparr>"

definition dispatch_id :: "u8 \<Rightarrow> u8 \<Rightarrow> sCanFrameExtID" where
  "dispatch_id func src = \<lparr>seg_polo = 0, seg_num = 0, func_id = func, src_id = src, dst_id = 0\<rparr>"

lemma can_dispatch_id: "can_dispatch x s = can_dispatch (dispatch_id (func_id x) (src_id x)) s"
  by (auto simp: can_dispatch_def dispatch_id_def)

lemma carries_take:
  "carries f m \<Longrightarrow> n = unat (data_len f) \<Longrightarrow> take n (Rx_Data m) = take n (frame_data f)"
  by (simp add: carries_def)

lemma unat_8_of_nat: "n \<le> 8 \<Longrightarrow> unat (of_nat n :: u8) = n"
  by (simp add: unat_of_nat)

lemma next_frame_fields [simp]:
  "seg_polo (extId (next_frame p d f)) = p" "seg_num (extId (next_frame p d f)) = seg_num (extId f) + 1"
  "func_id (extId (next_frame p d f)) = func_id (extId f)" "src_id (extId (next_frame p d f)) = src_id (extId f)"
  "data_len (next_frame p d f) = of_nat (length d)"
  "take (length d) (frame_data (next_frame p d f)) = d"
  by (simp_all add: next_frame_def)

text \<open>One more segment arrives.\<close>

lemma segment_received:
  assumes c: "carries (next_frame p d f) m" and p: "p = CAN_SEG_POLO_MIDDLE \<or> p = CAN_SEG_POLO_FINAL"
    and d: "length d \<le> 8" and n: "length pre + length d \<le> 300" and buf: "length buf = 300"
    and pre: "take (length pre) buf = pre" and num: "unat (seg_num (extId f)) < 255"
    and nb: "func_id (extId f) AND 0xF \<noteq> 0xF"
  shows "can_bus_frame_receive m (seg_state buf (seg_num (extId f)) (length pre) s) =
     (let buf' = pre @ d @ drop (length pre + length d) buf in
      if p = CAN_SEG_POLO_FINAL
      then can_dispatch (dispatch_id (func_id (extId f) AND 0xF) (src_id (extId f)))
        (seg_idle (s\<lparr>can_recv_buff := buf', can_recv_len := of_nat (length pre + length d)\<rparr>))
      else Some (seg_state buf' (seg_num (extId f) + 1) (length pre + length d) s))"
proof -
  let ?x = "recv_extID (Rx_ExtId m)"
  have x: "?x = \<lparr>seg_polo = p, seg_num = seg_num (extId f) + 1, func_id = func_id (extId f) AND 0xF,
      src_id = src_id (extId f), dst_id = 0\<rparr>"
    using c p by (auto simp: carries_def recv_frame_ExtId)
  have dlc: "unat (Rx_DLC m) = length d" and dl: "Rx_DLC m = of_nat (length d)"
    using c d by (simp_all add: carries_def unat_8_of_nat)
  have data: "take (length d) (Rx_Data m) = d" "length (Rx_Data m) = 8"
    using c d by (simp_all add: carries_def unat_8_of_nat)
  have copy: "memcpy buf (length pre) (Rx_Data m) (length d) =
      Some (pre @ d @ drop (length pre + length d) buf)"
    using data d n buf pre by (simp add: memcpy_def)
  have sn: "unat (seg_num (extId f) + 1) = unat (seg_num (extId f)) + 1"
    using num by (simp add: unat_plus_if')
  have sb: "unat (of_nat (length pre) :: u16) = length pre"
    using n by (intro unat_of_nat_small) simp
  have sum: "of_nat (length pre) + ucast (Rx_DLC m) = (of_nat (length pre + length d) :: u16)"
    unfolding dl using d by (simp add: unsigned_of_nat take_bit_eq_mod)
  have disp: "can_dispatch ?x t = can_dispatch (dispatch_id (func_id (extId f) AND 0xF) (src_id (extId f))) t" for t
    by (subst can_dispatch_id) (simp add: x)
  show ?thesis
    using p nb n copy sum
    unfolding can_bus_frame_receive_def Let_def disp
    by (auto simp: x can_reassemble_def seg_state_def seg_idle_def dlc sn sb Let_def)
qed

lemma take_drop_append: "take n xs @ drop n xs @ ys = xs @ ys"
  by (metis append.assoc append_take_drop_id)

lemma seg_tail_received:
  assumes "list_all2 carries (seg_tail bs f) ms" "length pre = 8 * (unat (seg_num (extId f)) + 1)"
    and "length pre + length bs \<le> 300" "length buf = 300" "take (length pre) buf = pre"
    and "func_id (extId f) AND 0xF \<noteq> 0xF"
  shows "can_receive_all ms (seg_state buf (seg_num (extId f)) (length pre) s) =
     can_dispatch (dispatch_id (func_id (extId f) AND 0xF) (src_id (extId f)))
       (seg_idle (s\<lparr>can_recv_buff := pre @ bs @ drop (length pre + length bs) buf,
          can_recv_len := of_nat (length pre + length bs)\<rparr>))"
  using assms
proof (induction bs f arbitrary: ms pre buf rule: seg_tail.induct)
  case (1 bs f)
  have num: "unat (seg_num (extId f)) < 255" using "1.prems" by simp
  show ?case
  proof (cases "8 < length bs")
    case True
    let ?f' = "next_frame CAN_SEG_POLO_MIDDLE (take 8 bs) f"
    let ?buf' = "pre @ take 8 bs @ drop (length pre + 8) buf"
    from True "1.prems"(1) obtain m ms' where ms: "ms = m # ms'" and c: "carries ?f' m"
      and rest: "list_all2 carries (seg_tail (drop 8 bs) ?f') ms'"
      by (subst (asm) seg_tail.simps) (auto simp: Let_def list_all2_Cons1)
    have step: "can_bus_frame_receive m (seg_state buf (seg_num (extId f)) (length pre) s) =
        Some (seg_state ?buf' (seg_num (extId f) + 1) (length pre + 8) s)"
      using segment_received [OF c, of pre buf s] True "1.prems" num by simp
    have n8: "length (pre @ take 8 bs) = 8 * (unat (seg_num (extId ?f')) + 1)"
      using True "1.prems"(2) num by (simp add: unat_plus_if')
    have "can_receive_all ms' (seg_state ?buf' (seg_num (extId ?f')) (length (pre @ take 8 bs)) s) =
        can_dispatch (dispatch_id (func_id (extId f) AND 0xF) (src_id (extId f)))
       (seg_idle (s\<lparr>can_recv_buff := (pre @ take 8 bs) @ drop 8 bs @
            drop (length (pre @ take 8 bs) + length (drop 8 bs)) ?buf',
          can_recv_len := of_nat (length (pre @ take 8 bs) + length (drop 8 bs))\<rparr>))"
      using "1.IH" [OF True refl rest n8, of ?buf'] "1.prems" True by simp
    moreover have "(pre @ take 8 bs) @ drop 8 bs @
            drop (length (pre @ take 8 bs) + length (drop 8 bs)) ?buf' =
        pre @ bs @ drop (length pre + length bs) buf"
      using True by (simp add: take_drop_append add.commute)
    ultimately show ?thesis
      using ms step True by simp
  next
    case False
    from False "1.prems"(1) obtain m where ms: "ms = [m]"
      and c: "carries (next_frame CAN_SEG_POLO_FINAL bs f) m"
      by (subst (asm) seg_tail.simps) (auto simp: list_all2_Cons1)
    show ?thesis
      using segment_received [OF c, of pre buf s] False "1.prems" num ms
      by (simp add: Let_def)
  qed
qed

lemma start_frame_fields [simp]:
  "extId (start_frame f0 p func src d) = (extId f0)\<lparr>func_id := func, src_id := src, seg_polo := p, seg_num := 0\<rparr>"
  "data_len (start_frame f0 p func src d) = of_nat (length d)"
  "take (length d) (frame_data (start_frame f0 p func src d)) = d"
  by (simp_all add: start_frame_def)

lemma buff_polo_commute:
  "s\<lparr>can_recv_buff := b, g_SegPolo := p\<rparr> = s\<lparr>g_SegPolo := p, can_recv_buff := b\<rparr>"
  by simp

lemma start_received:
  assumes c: "carries (start_frame f0 p func src d) m" and "p = CAN_SEG_POLO_NONE \<or> p = CAN_SEG_POLO_FIRST"
    and d: "length d \<le> 8" and buf: "length (can_recv_buff s) = 300" and nb: "func AND 0xF \<noteq> 0xF"
  shows "can_bus_frame_receive m s =
     (if p = CAN_SEG_POLO_NONE then can_dispatch (dispatch_id (func AND 0xF) src) (whole_message d s)
      else Some (seg_state (d @ drop (length d) (can_recv_buff s)) 0 (length d) s))"
proof -
  let ?x = "recv_extID (Rx_ExtId m)"
  have x: "?x = \<lparr>seg_polo = p, seg_num = 0, func_id = func AND 0xF, src_id = src, dst_id = 0\<rparr>"
    using c assms(2) by (auto simp: carries_def recv_frame_ExtId)
  have dlc: "unat (Rx_DLC m) = length d" and dl: "ucast (Rx_DLC m) = (of_nat (length d) :: u16)"
    using c d by (simp_all add: carries_def unat_8_of_nat unsigned_of_nat take_bit_eq_mod)
  have "take (length d) (Rx_Data m) = d" "length (Rx_Data m) = 8"
    using c d by (simp_all add: carries_def unat_8_of_nat)
  then have copy: "memcpy (can_recv_buff s) 0 (Rx_Data m) (length d) =
      Some (d @ drop (length d) (can_recv_buff s))"
    using d buf by (simp add: memcpy_def)
  have disp: "can_dispatch ?x t = can_dispatch (dispatch_id (func AND 0xF) src) t" for t
    by (subst can_dispatch_id) (simp add: x)
  from assms(2) show ?thesis
  proof
    assume "p = CAN_SEG_POLO_NONE"
    then show ?thesis
      using nb copy unfolding can_bus_frame_receive_def Let_def disp
      by (simp add: x can_reassemble_def whole_message_def dlc dl Let_def)
  next
    assume "p = CAN_SEG_POLO_FIRST"
    then show ?thesis
      using nb copy unfolding can_bus_frame_receive_def Let_def disp
      by (simp add: x can_reassemble_def seg_state_def dlc dl Let_def buff_polo_commute)
  qed
qed

lemma message_received:
  assumes "list_all2 carries (msg_frames f0 func src msg) ms" "length msg \<le> 300"
    and "length (can_recv_buff s) = 300" "func AND 0xF \<noteq> 0xF"
  shows "can_receive_all ms s =
     can_dispatch (dispatch_id (func AND 0xF) src)
       (if length msg \<le> 8 then whole_message msg s else seg_idle (whole_message msg s))"
proof (cases "length msg \<le> 8")
  case True
  with assms(1) obtain m where ms: "ms = [m]" and c: "carries (start_frame f0 CAN_SEG_POLO_NONE func src msg) m"
    by (auto simp: msg_frames_def list_all2_Cons1)
  show ?thesis using start_received [OF c _ True assms(3,4)] True ms by simp
next
  case False
  let ?f1 = "start_frame f0 CAN_SEG_POLO_FIRST func src (take 8 msg)"
  let ?buf = "take 8 msg @ drop 8 (can_recv_buff s)"
  from False assms(1) obtain m ms' where ms: "ms = m # ms'" and c: "carries ?f1 m"
    and rest: "list_all2 carries (seg_tail (drop 8 msg) ?f1) ms'"
    by (auto simp: msg_frames_def Let_def list_all2_Cons1)
  have "can_bus_frame_receive m s = Some (seg_state ?buf 0 8 s)"
    using start_received [OF c _ _ assms(3,4)] False by (simp add: min_def)
  moreover have "can_receive_all ms' (seg_state ?buf (seg_num (extId ?f1)) (length (take 8 msg)) s) =
     can_dispatch (dispatch_id (func_id (extId ?f1) AND 0xF) (src_id (extId ?f1)))
       (seg_idle (s\<lparr>can_recv_buff := take 8 msg @ drop 8 msg @
            drop (length (take 8 msg) + length (drop 8 msg)) ?buf,
          can_recv_len := of_nat (length (take 8 msg) + length (drop 8 msg))\<rparr>))"
    by (rule seg_tail_received [OF rest]) (use False assms in \<open>simp_all add: min_def\<close>)
  ultimately show ?thesis
    using False ms by (simp add: min_def whole_message_def take_drop_append)
qed

section \<open>Properties\<close>

lemma length_seg_tail: "length (seg_tail bs f) \<le> Suc (length bs div 8)"
proof (induction bs f rule: seg_tail.induct)
  case (1 bs f)
  then show ?case
    by (subst seg_tail.simps) (auto simp: Let_def le_div_geq)
qed

lemma length_msg_frames: "length msg \<le> 300 \<Longrightarrow> length (msg_frames f0 func src msg) \<le> 49"
proof -
  assume n: "length msg \<le> 300"
  have q: "(length msg - 8) div 8 \<le> 37"
    using div_le_mono [of "length msg - 8" 300 8] n by simp
  have "length (seg_tail (drop 8 msg) f) \<le> 48" for f
    using length_seg_tail [of "drop 8 msg" f] q by simp
  then show ?thesis by (simp add: msg_frames_def Let_def)
qed

lemma frame_ok_next: "length (frame_data f) = 8 \<Longrightarrow> length d \<le> 8 \<Longrightarrow> frame_ok (next_frame p d f)"
  by (simp add: frame_ok_def next_frame_def word_le_nat_alt unat_8_of_nat)

lemma frame_ok_seg_tail: "length (frame_data f) = 8 \<Longrightarrow> list_all frame_ok (seg_tail bs f)"
proof (induction bs f rule: seg_tail.induct)
  case (1 bs f)
  then show ?case
    by (subst seg_tail.simps) (auto simp: Let_def frame_ok_next next_frame_length)
qed

lemma frame_ok_msg_frames:
  "length (frame_data f0) = 8 \<Longrightarrow> list_all frame_ok (msg_frames f0 func src msg)"
  by (simp add: msg_frames_def Let_def frame_ok_seg_tail start_frame_def frame_ok_def
      word_le_nat_alt unat_8_of_nat min_def)

text \<open>The message a perfect receiver sees for a frame.\<close>

definition rx_of :: "sCanFrameExt \<Rightarrow> CanRxMsg" where
  "rx_of f = \<lparr>Rx_StdId = 0, Rx_ExtId = frame_ExtId (extId f), Rx_IDE = 4, Rx_RTR = 0,
     Rx_DLC = data_len f, Rx_Data = frame_data f, Rx_FMI = 0\<rparr>"

lemma carries_rx_of: "list_all frame_ok fs \<Longrightarrow> list_all2 carries fs (map rx_of fs)"
  by (induction fs) (auto simp: carries_def rx_of_def frame_ok_def)

lemma can_ok_demo: "can_ok demo" "can_frames demo = []" "uninit_frame demo = zero_frame"
    "TSR demo = 0x1C000000" "length (can_recv_buff demo) = 300"
  by (simp_all add: can_ok_def demo_def power_on_def queues_ready_def InitModuleStatusQueue_def
      InitSendMsgQueue_def InitCanSendQueue_def InitUartSendQueue_def zero_frame_def zero_status_def)

text \<open>C9. A message crosses the bus intact. The frames that \<open>can_bus_send_msg\<close> queues for
  a message of up to 300 bytes (with an empty queue and any function code but the boot one),
  received one after the other by a station in whatever reassembly state it was, are
  reassembled to exactly that message with its exact length, and it is dispatched exactly
  once, under its function code and source, when the last frame arrives.\<close>

theorem can_message_end_to_end:
  assumes "can_ok a" "queues_inv a" "can_frames a = []" "unat n \<le> length pbuf" "unat n \<le> 300"
    and "func AND 0xF = func" "func \<noteq> CAN_FUNC_ID_BOOT_MODE"
    and "can_bus_send_msg pbuf n func src a = Some a'" "list_all2 carries (can_frames a') ms"
    and "length (can_recv_buff b) = 300"
  shows "can_receive_all ms b = can_dispatch (dispatch_id func src)
    (let b' = b\<lparr>can_recv_buff := take (unat n) pbuf @ drop (unat n) (can_recv_buff b), can_recv_len := n\<rparr>
     in if unat n \<le> 8 then b'
        else b'\<lparr>g_SegPolo := CAN_SEG_POLO_NONE, g_SegNum := 0, g_SegBytes := 0\<rparr>)"
proof -
  let ?msg = "take (unat n) pbuf"
  let ?fs = "msg_frames (uninit_frame a) func src ?msg"
  have len: "length ?msg = unat n" using assms(4) by simp
  have "a' = AddCanFrames ?fs a"
    using assms(1,4,8) by (simp add: can_bus_send_msg_eq can_ok_def)
  then have "can_frames a' = ?fs"
    using can_frames_AddCanFrames [OF assms(2), of ?fs] assms(3,5) length_msg_frames [of ?msg] len by simp
  with assms(9) have "list_all2 carries ?fs ms" by simp
  from message_received [OF this] show ?thesis
    using assms(5,6,7,10) len by (simp add: whole_message_def seg_idle_def)
qed

theorem can_message_end_to_end_witness:
  "\<exists>a'. can_bus_send_msg (replicate 300 7) 235 CAN_FUNC_ID_PARA_DATA 2 demo = Some a' \<and>
     can_receive_all (map rx_of (can_frames a')) demo = can_dispatch (dispatch_id CAN_FUNC_ID_PARA_DATA 2)
       (demo\<lparr>can_recv_buff := replicate 235 7 @ drop 235 (can_recv_buff demo), can_recv_len := 235,
          g_SegPolo := 0, g_SegNum := 0, g_SegBytes := 0\<rparr>)"
proof -
  let ?fs = "msg_frames zero_frame CAN_FUNC_ID_PARA_DATA 2 (replicate 235 7)"
  let ?a = "AddCanFrames ?fs demo"
  have send: "can_bus_send_msg (replicate 300 7) 235 CAN_FUNC_ID_PARA_DATA 2 demo = Some ?a"
    using can_bus_send_msg_eq [of 235 "replicate 300 7" demo] can_ok_demo by (simp add: zero_frame_def)
  have "can_frames ?a = ?fs"
    using can_frames_AddCanFrames [OF demo_ok(2), of ?fs] can_ok_demo length_msg_frames [of "replicate 235 7"]
    by simp
  moreover have "list_all frame_ok ?fs" by (rule frame_ok_msg_frames) (simp add: zero_frame_def)
  ultimately have "list_all2 carries (can_frames ?a) (map rx_of (can_frames ?a))"
    using carries_rx_of by simp
  from can_message_end_to_end [OF can_ok_demo(1) demo_ok(2) can_ok_demo(2) _ _ _ _ send this can_ok_demo(5)]
  show ?thesis using send by (simp add: Let_def)
qed

lemma ring_front_inside: "ring_inv N q \<Longrightarrow> unat (front q) < length (queue q)"
  by (simp add: ring_inv_def)

lemma can_send_frame_eq:
  assumes "can_ok s" "queues_inv s" "can_frames s = f # fs" "frame_ok f"
  shows "can_send_frame_process s = Some (if free_mailbox s = CAN_NO_MB then s
    else s\<lparr>sTxMailBox := (sTxMailBox s)[unat (free_mailbox s) :=
        frame_mailbox (uninit_tx_data s) f (sTxMailBox s ! unat (free_mailbox s))],
      canSendQueue := snd (outQueue (canSendQueue s))\<rparr>)"
proof -
  let ?q = "canSendQueue s"
  let ?fr = "of_nat ((unat (front ?q) + 1) mod unat (maxSize ?q)) :: u16"
  have inv: "ring_inv 50 ?q" using assms(2) by (rule queues_invD)
  from canq.deq_fst [OF inv assms(3)]
  have ne: "front ?q \<noteq> rear ?q" and hd: "queue ?q ! unat ?fr = f"
    by (auto simp: outQueue_def Let_def split: if_splits)
  have "ring_inv 50 (?q\<lparr>front := ?fr\<rparr>)"
    using canq.invar_deq [OF inv] ne by (simp add: outQueue_def Let_def)
  from ring_front_inside [OF this] have "unat ?fr < length (queue ?q)" by simp
  with hd have i: "idx (queue ?q) (unat ?fr) = Some f" by (simp add: idx_def)
  show ?thesis
    using ne i
    by (simp add: can_send_frame_process_def Let_def send_one_frame_eq [OF assms(1,4)] outQueue_def)
qed

text \<open>A queued frame leaves in order and unchanged: with a free transmit mailbox the oldest
  frame is loaded into it and removed from the queue, and whatever the bus delivers from that
  mailbox decodes, at a receiver, to the frame's identifier, length and data; the other
  mailboxes are untouched. With no free mailbox nothing changes and the frame stays queued.\<close>

lemma can_frame_transmitted:
  assumes "can_ok s" "queues_inv s" "can_frames s = f # fs" "frame_ok f"
  shows "\<exists>s'. can_send_frame_process s = Some s' \<and>
    (if free_mailbox s = CAN_NO_MB then s' = s
     else can_frames s' = fs \<and>
       (\<forall>r. bus_delivers (sTxMailBox s' ! unat (free_mailbox s)) r \<longrightarrow> carries f (CAN_Receive r)) \<and>
       (\<forall>k < 3. k \<noteq> unat (free_mailbox s) \<longrightarrow> sTxMailBox s' ! k = sTxMailBox s ! k))"
proof -
  have l3: "length (sTxMailBox s) = 3" "length (uninit_tx_data s) = 8"
    using assms(1) by (simp_all add: can_ok_def)
  have "ring_list 50 (snd (outQueue (canSendQueue s))) = fs"
    using canq.deq_snd [OF queues_invD(4) [OF assms(2)] assms(3)] .
  then show ?thesis
    unfolding can_send_frame_eq [OF assms]
    using l3 free_mailbox_less [of s] delivered_carries [OF assms(4) l3(2)] by auto
qed

lemma can_frame_transmitted_witness:
  "\<exists>s'. can_send_frame_process (AddCanSendData2Queue zero_frame demo) = Some s' \<and> can_frames s' = [] \<and>
     (\<forall>r. bus_delivers (sTxMailBox s' ! 0) r \<longrightarrow> carries zero_frame (CAN_Receive r))"
proof -
  let ?s = "AddCanSendData2Queue zero_frame demo"
  have "can_ok ?s" "free_mailbox ?s = 0"
    using can_ok_demo by (simp_all add: can_ok_def AddCanSendData2Queue_def free_mailbox_def)
  moreover have "can_frames ?s = [zero_frame]"
    using can_frames_AddCanFrames [OF demo_ok(2), of "[zero_frame]"] can_ok_demo
    by (simp add: AddCanFrames_single)
  moreover have "frame_ok zero_frame" by (simp add: frame_ok_def zero_frame_def)
  ultimately show ?thesis using can_frame_transmitted [of ?s zero_frame "[]"] by auto
qed

text \<open>Reassembly does not look at the sender: a frame is accepted as the next segment
  whoever sent it, so the segments of two stations that send long messages at the same time
  are mixed into one message.\<close>

lemma reassembly_ignores_source:
  "can_reassemble (x\<lparr>src_id := other\<rparr>) m s = can_reassemble x m s"
  by (simp add: can_reassemble_def cong: if_cong)

text \<open>The declared length is the first byte alone: the second byte, meant to be its high
  part, is shifted right out of existence.\<close>

lemma declared_length: "ucast b0 OR ucast (drop_bit 8 (b1 :: u8)) = (ucast (b0 :: u8) :: u16)"
proof -
  have "drop_bit 8 b1 = 0" by (rule bit_word_eqI) (simp add: bit_drop_bit_eq bit_u8_beyond)
  then show ?thesis by simp
qed

text \<open>C23. A message of 256 bytes or more is never processed, even when its length field is
  right: the high byte of the length is lost, so the comparison with the received length fails.\<close>

theorem long_messages_are_dropped:
  assumes "3 \<le> length pbuf" "256 \<le> recv_len"
  shows "para_data_recv_process pbuf recv_len s = Some s \<and>
    module_status_recv_process pbuf recv_len src s = Some s"
proof -
  have "(ucast (pbuf ! 0) :: u16) \<noteq> recv_len"
    using assms(2) unat_less_256 [of "pbuf ! 0"] by (auto simp: word_le_nat_alt)
  moreover have "0 < length pbuf" "1 < length pbuf" "2 < length pbuf" using assms(1) by linarith+
  ultimately show ?thesis
    by (simp add: para_data_recv_process_def module_status_recv_process_def idx_Some declared_length Let_def)
qed

theorem long_messages_are_dropped_witness:
  "para_data_recv_process ([0, 1, 1] @ replicate 253 0) 256 demo = Some demo"
  using long_messages_are_dropped [of "[0, 1, 1] @ replicate 253 0" 256 demo 0] by simp

lemma inverters_bytes_append: "inverters_bytes (xs @ ys) = inverters_bytes xs @ inverters_bytes ys"
  by (simp add: inverters_bytes_def u16s_bytes_append)

lemma drop_inverters_bytes: "n \<le> length us \<Longrightarrow> drop (10 * n) (inverters_bytes us) = inverters_bytes (drop n us)"
  by (metis append_eq_conv_conj append_take_drop_id inverters_bytes_append length_inverters_bytes
      length_take min.absorb2)

lemma take_inverters_bytes: "n \<le> length us \<Longrightarrow> take (10 * n) (inverters_bytes us) = inverters_bytes (take n us)"
  by (metis append_eq_conv_conj append_take_drop_id inverters_bytes_append length_inverters_bytes
      length_take min.absorb2)

lemma status_copy:
  assumes "length us = 10" "length vs \<le> 10" "take (10 * length vs) src = inverters_bytes vs"
    and "10 * length vs \<le> length src"
  shows "memcpy (inverters_bytes us) 0 src (10 * length vs) =
    Some (inverters_bytes (vs @ drop (length vs) us))"
  using assms by (simp add: memcpy_def inverters_bytes_append drop_inverters_bytes)

text \<open>What a status message of \<open>n\<close> belts from station \<open>src\<close> is decoded to; the
  elements behind the \<open>n\<close> are whatever the local variable held.\<close>

definition status_of :: "u8 \<Rightarrow> INVERTER_STATUS_T list \<Rightarrow> fw \<Rightarrow> MODULE_STATUS_T" where
  "status_of src vs s = \<lparr>station_no = ucast src, belt_number = of_nat (length vs),
     inverter_status = vs @ drop (length vs) (inverter_status (uninit_status s))\<rparr>"

definition run_bit :: "INVERTER_STATUS_T \<Rightarrow> u8" where
  "run_bit v = ucast (drop_bit 4 (fault_code v) AND 1)"

lemma idx_header:
  "idx (a # xs) 0 = Some a" "idx (a # b # xs) (Suc 0) = Some b" "idx (a # b # c # xs) 2 = Some c"
  by (simp_all add: idx_def)

lemma module_status_decoded:
  assumes "can_ok s" "vs \<noteq> []" "length vs \<le> 10" "recv_len = of_nat (3 + 10 * length vs)"
    and "take (3 + 10 * length vs) pbuf = [of_nat (3 + 10 * length vs), 0, of_nat (length vs)] @ inverters_bytes vs"
  shows "module_status_recv_process pbuf recv_len src s =
    (let s1 = (if isHost s \<noteq> 0 then AddModuleStatusData2Queue (status_of src vs s) s else s);
         p = user_paras_local s in
     if ucast src = Up_Stream_No p then Some (s1\<lparr>g_link_up_stream_status := run_bit (last vs)\<rparr>)
     else if ucast src = Down_Stream_No p then do {
       s2 \<leftarrow> (if Belt_Number p \<noteq> 0 \<and> g_link_down_stream_status s \<noteq> run_bit (hd vs)
              then Linkage_Stream_Ctrl_Handle (ucast (Belt_Number p - 1))
                     (if g_link_down_stream_status s = 1 then 0 else 1) s1
              else Some s1);
       Some (s2\<lparr>g_link_down_stream_status := run_bit (hd vs)\<rparr>) }
     else Some s1)"
proof -
  let ?n = "length vs" and ?us = "inverter_status (uninit_status s)"
  let ?st = "vs @ drop ?n ?us"
  have us: "length ?us = 10" using assms(1) by (simp add: can_ok_def)
  from assms(5) obtain rest where pbuf: "pbuf = of_nat (3 + 10 * ?n) # 0 # of_nat ?n # inverters_bytes vs @ rest"
    by (metis append.assoc append_Cons append_Nil append_take_drop_id)
  have n8: "unat (of_nat ?n :: u8) = ?n" using assms(3) by (simp add: unat_of_nat)
  have nz: "(of_nat ?n :: u8) \<noteq> 0" using n8 assms(2) by (metis length_0_conv unat_0)
  have u: "unat (of_nat (3 + 10 * ?n) :: u8) = 3 + 10 * ?n"
    using assms(3) by (subst unat_of_nat) simp
  have len: "(ucast (of_nat (3 + 10 * ?n) :: u8) :: u16) = recv_len"
    using u assms(4) by (metis of_nat_unat ucast_id unat_ucast_u8_u16 of_nat_unat)
  have bn: "ucast (of_nat ?n :: u8) = (of_nat ?n :: u16)"
    by (metis n8 of_nat_unat unat_ucast_u8_u16 ucast_id)
  have copy: "memcpy (inverters_bytes ?us) 0 (inverters_bytes vs @ rest) (10 * ?n) =
      Some (inverters_bytes ?st)"
    using us assms(3) by (intro status_copy) simp_all
  have st: "bytes_inverters 10 (inverters_bytes ?st) = ?st"
    using us assms(3) by (intro bytes_inverters_bytes) simp
  have i0: "idx ?st 0 = Some (hd vs)"
    using assms(2) by (cases vs) (simp_all add: idx_def)
  have il: "idx ?st (?n - 1) = Some (last vs)"
    using assms(2) by (simp add: idx_def nth_append last_conv_nth trans_less_add1)
  have "isHost s \<noteq> 0 \<Longrightarrow> user_paras_local (AddModuleStatusData2Queue m s) = user_paras_local s \<and>
      g_link_down_stream_status (AddModuleStatusData2Queue m s) = g_link_down_stream_status s" for m
    by (simp add: AddModuleStatusData2Queue_def)
  then show ?thesis
    unfolding module_status_recv_process_def pbuf declared_length
    using nz len copy st i0 il
    by (simp add: idx_header n8 bn Let_def status_of_def run_bit_def declared_length cong: if_cong)
qed

text \<open>C22. A status message that announces more than ten belts makes the handler write behind
  its local array: the belt count of the message is not checked against the ten elements.\<close>

theorem module_status_overflow:
  assumes "can_ok s" "pbuf = can_recv_buff s" "recv_len = ucast (pbuf ! 0)" "10 < pbuf ! 2"
  shows "module_status_recv_process pbuf recv_len src s = None"
proof -
  have "0 < length pbuf" "1 < length pbuf" "2 < length pbuf" using assms(1,2) by (simp_all add: can_ok_def)
  moreover have n: "10 < unat (pbuf ! 2)" using assms(4) by (simp add: word_less_nat_alt)
  then have "pbuf ! 2 \<noteq> 0" by auto
  moreover have "memcpy (inverters_bytes (inverter_status (uninit_status s))) 0 (drop 3 pbuf)
      (10 * unat (pbuf ! 2)) = None"
    using n assms(1) by (simp add: memcpy_def can_ok_def)
  ultimately show ?thesis
    using assms(3) by (simp add: module_status_recv_process_def idx_Some declared_length Let_def)
qed

theorem module_status_overflow_witness:
  "module_status_recv_process ([3, 0, 11] @ replicate 297 0) 3 1
     (demo\<lparr>can_recv_buff := [3, 0, 11] @ replicate 297 0\<rparr>) = None"
  using module_status_overflow [of "demo\<lparr>can_recv_buff := [3, 0, 11] @ replicate 297 0\<rparr>"
      "[3, 0, 11] @ replicate 297 0" 3 1] can_ok_demo
  by (simp add: can_ok_def)

text \<open>The message a station broadcasts about its belts.\<close>

definition status_msg :: "fw \<Rightarrow> u8 list" where
  "status_msg a = [of_nat (3 + 10 * belts a), 0, of_nat (belts a)] @
     take (10 * belts a) (inverters_bytes (inverter_status_buffer a))"

text \<open>The command a change of the downstream station's state calls for.\<close>

definition link_cmds :: "u8 \<Rightarrow> fw \<Rightarrow> COMM_NODE_T list" where
  "link_cmds run b =
     (let k = belts b - 1; c = belt_para (user_paras_local b) ! k; v = inverter_status_buffer b ! k in
      if belts b \<noteq> 0 \<and> g_link_down_stream_status b \<noteq> run \<and> bit (Func_Select_Switch c) 1 then
        if g_link_down_stream_status b = 1
        then if \<not> bit (Func_Select_Switch c) 3 \<and> bit (fault_code v) 4
             then [write_node (of_nat k + 1) 0 10] else []
        else if \<not> bit (fault_code v) 4 \<and> get_inverter_fault_status v \<noteq> 1
             then [write_node (of_nat k + 1) (ucast (g_speed_gear_status b)) (Start_Delay_Time c)] else []
      else [])"

lemma Linkage_Stream_eq:
  assumes "belts_ok b" "belts b \<noteq> 0" "k = ucast (Belt_Number (user_paras_local b) - 1)"
    and "g_link_down_stream_status b \<noteq> run"
  shows "Linkage_Stream_Ctrl_Handle k (if g_link_down_stream_status b = 1 then 0 else 1) b =
    Some (AddUartNodes (link_cmds run b) b)"
proof -
  note d = belts_okD [OF assms(1)]
  have k: "unat k = belts b - 1" using belt_index_u8 [OF assms(1,2)] assms(3) by simp
  have k1: "ucast k = (of_nat (belts b - 1) :: u16)" by (metis k of_nat_unat unat_ucast_u8_u16 ucast_id)
  have "belts b - 1 < 10" using d(2) assms(2) by simp
  then show ?thesis
    using d assms(2,4) unfolding Linkage_Stream_Ctrl_Handle_def Let_def k k1
    by (auto simp: idx_Some bit_tests bit_drop_bit_eq link_cmds_def Let_def AddUartNodes_single)
qed

text \<open>C19. A station's broadcast reaches its upstream neighbour, host or not: a station whose downstream
  neighbour \<open>a\<close> reports its state records whether \<open>a\<close>'s first belt runs and, when
  that changed, stops its own last belt (linkage on, no accumulation, running) or starts it
  again at its current gear (linkage on, stopped, no fault); nothing else is commanded. The host also
  queues the report for the server, unless 19 are waiting. The
  message is the one \<open>can_bus_send_module_status\<close> builds; the station's upstream and downstream
  neighbours are taken to have different numbers.\<close>

theorem downstream_status_controls_last_belt:
  assumes "can_ok b" "belts_ok b" "queues_inv b" "can_ok a" "belts_ok a" "belts a \<noteq> 0"
    and "ucast src = Down_Stream_No (user_paras_local b)"
    and "Up_Stream_No (user_paras_local b) \<noteq> Down_Stream_No (user_paras_local b)"
  shows "can_bus_send_module_status a =
      Some (can_message CAN_FUNC_ID_MODULE_STATUS (local_station a) (status_msg a) a) \<and>
    (\<exists>b'. can_dispatch (dispatch_id CAN_FUNC_ID_MODULE_STATUS src) (whole_message (status_msg a) b) = Some b' \<and>
      g_link_down_stream_status b' = run_bit (inverter_status_buffer a ! 0) \<and>
      uart_nodes b' = uart_nodes b @ take (29 - length (uart_nodes b))
        (link_cmds (run_bit (inverter_status_buffer a ! 0)) b) \<and>
      status_msgs b' = (if isHost b \<noteq> 0 \<and> length (status_msgs b) < 19
        then status_msgs b @ [status_of src (take (belts a) (inverter_status_buffer a)) b] else status_msgs b))"
proof
  note da = belts_okD [OF assms(5)]
  show "can_bus_send_module_status a =
      Some (can_message CAN_FUNC_ID_MODULE_STATUS (local_station a) (status_msg a) a)"
    using send_module_status_eq [OF assms(4) da(3)] assms(5,6)
    by (simp add: status_msg_def belts_ok_def unat_eq_0)
  let ?vs = "take (belts a) (inverter_status_buffer a)"
  let ?b = "whole_message (status_msg a) b" and ?run = "run_bit (inverter_status_buffer a ! 0)"
  define c where "c = (if isHost b \<noteq> 0 then AddModuleStatusData2Queue (status_of src ?vs b) ?b else ?b)"
  have vs: "?vs \<noteq> []" "length ?vs = belts a" "length ?vs \<le> 10" "hd ?vs = inverter_status_buffer a ! 0"
    using da assms(6) by (cases "inverter_status_buffer a"; auto simp: take_Cons split: nat.splits)+
  have msg: "status_msg a = [of_nat (3 + 10 * length ?vs), 0, of_nat (length ?vs)] @ inverters_bytes ?vs"
    using da vs by (simp add: status_msg_def take_inverters_bytes)
  have len: "length (status_msg a) = 3 + 10 * length ?vs" unfolding msg by simp
  have ok: "can_ok ?b" "belts_ok ?b" "queues_inv ?b"
    using assms(1-3) len vs(3) by (simp_all add: can_ok_def whole_message_def belts_ok_def queues_inv_def)
  have pre: "take (3 + 10 * length ?vs) (can_recv_buff ?b) =
      [of_nat (3 + 10 * length ?vs), 0, of_nat (length ?vs)] @ inverters_bytes ?vs"
    unfolding msg [symmetric] by (simp add: whole_message_def len)
  have rl: "can_recv_len ?b = of_nat (3 + 10 * length ?vs)" by (simp add: whole_message_def len)
  have fields: "user_paras_local ?b = user_paras_local b" "isHost ?b = isHost b"
      "g_link_down_stream_status ?b = g_link_down_stream_status b" "status_of src ?vs ?b = status_of src ?vs b"
    by (simp_all add: whole_message_def status_of_def)
  have cf: "user_paras_local c = user_paras_local b" "inverter_status_buffer c = inverter_status_buffer b"
      "g_speed_gear_status c = g_speed_gear_status b" "g_link_down_stream_status c = g_link_down_stream_status b"
      "uart_nodes c = uart_nodes b"
    by (simp_all add: c_def whole_message_def AddModuleStatusData2Queue_def)
  have lc: "link_cmds r c = link_cmds r b" for r unfolding link_cmds_def cf ..
  have okc: "belts_ok c" "queues_inv c"
    using ok(2,3) by (auto simp: c_def belts_ok_def AddModuleStatusData2Queue_def queues_inv_def statusq.invar_enq)
  have sm: "status_msgs c = (if isHost b \<noteq> 0 \<and> length (status_msgs b) < 19
      then status_msgs b @ [status_of src ?vs b] else status_msgs b)"
    using queues_invD(2) [OF assms(3)]
    by (simp add: c_def AddModuleStatusData2Queue_def whole_message_def statusq.contents_enq del: length_ring_list)
  have disp: "can_dispatch (dispatch_id CAN_FUNC_ID_MODULE_STATUS src) ?b =
      module_status_recv_process (can_recv_buff ?b) (can_recv_len ?b) src ?b"
    by (simp add: can_dispatch_def dispatch_id_def)
  have cmd: "(if Belt_Number (user_paras_local b) \<noteq> 0 \<and> g_link_down_stream_status b \<noteq> ?run
       then Linkage_Stream_Ctrl_Handle (ucast (Belt_Number (user_paras_local b) - 1))
              (if g_link_down_stream_status b = 1 then 0 else 1) c
       else Some c) = Some (AddUartNodes (link_cmds ?run b) c)"
  proof (cases "Belt_Number (user_paras_local b) \<noteq> 0 \<and> g_link_down_stream_status b \<noteq> ?run")
    case True
    then show ?thesis using Linkage_Stream_eq [OF okc(1) _ refl, of ?run] by (simp add: cf lc unat_eq_0)
  next
    case False
    then have "link_cmds ?run b = []" unfolding link_cmds_def Let_def unat_eq_0 by meson
    then show ?thesis using False by auto
  qed
  have "module_status_recv_process (can_recv_buff ?b) (can_recv_len ?b) src ?b =
      Some ((AddUartNodes (link_cmds ?run b) c)\<lparr>g_link_down_stream_status := ?run\<rparr>)"
    unfolding module_status_decoded [OF ok(1) vs(1,3) rl pre, of src] fields c_def [symmetric] Let_def cmd vs(4)
    using assms(7,8) cmd by simp
  moreover have "status_msgs (AddUartNodes xs s) = status_msgs s" for xs s by (simp add: AddUartNodes_def)
  ultimately show "\<exists>b'. can_dispatch (dispatch_id CAN_FUNC_ID_MODULE_STATUS src) ?b = Some b' \<and>
      g_link_down_stream_status b' = ?run \<and>
      uart_nodes b' = uart_nodes b @ take (29 - length (uart_nodes b)) (link_cmds ?run b) \<and>
      status_msgs b' = (if isHost b \<noteq> 0 \<and> length (status_msgs b) < 19
        then status_msgs b @ [status_of src ?vs b] else status_msgs b)"
    using disp uart_nodes_AddUartNodes [OF okc(2), of "link_cmds ?run b"] cf(5) sm by simp
qed

definition demo_down :: fw where
  "demo_down = demo\<lparr>isHost := 1, g_link_down_stream_status := 1, user_paras_local := demo_paras\<lparr>
     belt_para := map (\<lambda>i. (demo_belt i)\<lparr>Func_Select_Switch := 2\<rparr>) [0..<10]\<rparr>,
     inverter_status_buffer := replicate 10 (zero_inverter\<lparr>fault_code := 0x10\<rparr>)\<rparr>"

text \<open>The downstream station reports its first belt stopped to the host: the host's running last belt
  (number 3) is stopped and the report is queued.\<close>

theorem downstream_status_controls_last_belt_witness:
  "\<exists>b'. can_dispatch (dispatch_id CAN_FUNC_ID_MODULE_STATUS 3) (whole_message (status_msg demo) demo_down) = Some b' \<and>
     g_link_down_stream_status b' = 0 \<and> uart_nodes b' = [write_node 3 0 10] \<and>
     map station_no (status_msgs b') = [3]"
proof -
  have 1: "can_ok demo_down" "belts_ok demo_down" "queues_inv demo_down" "uart_nodes demo_down = []"
      "isHost demo_down = 1" "status_msgs demo_down = []" "ucast (3 :: u8) = Down_Stream_No (user_paras_local demo_down)"
      "Up_Stream_No (user_paras_local demo_down) \<noteq> Down_Stream_No (user_paras_local demo_down)"
    using can_ok_demo(1) demo_ok(1,2,4)
    by (simp_all add: demo_down_def can_ok_def belts_ok_def queues_inv_def wf_paras_def demo_paras_def
        demo_def power_on_def queues_ready_def InitModuleStatusQueue_def
        InitSendMsgQueue_def InitCanSendQueue_def InitUartSendQueue_def)
  have 2: "run_bit (inverter_status_buffer demo ! 0) = 0" "belts demo \<noteq> 0"
    by (simp_all add: run_bit_def demo_paras_def)
      (simp add: demo_def power_on_def queues_ready_def InitModuleStatusQueue_def zero_inverter_def
        InitSendMsgQueue_def InitCanSendQueue_def InitUartSendQueue_def)
  have 3: "link_cmds 0 demo_down = [write_node 3 0 10]"
    by (simp add: link_cmds_def demo_down_def demo_paras_def)
  have 4: "station_no (status_of 3 vs s) = 3" for vs s by (simp add: status_of_def)
  show ?thesis
    using downstream_status_controls_last_belt [OF 1(1,2,3) can_ok_demo(1) demo_ok(1) 2(2) 1(7,8)] 1(4-6) 2(1) 3 4
    by fastforce
qed

lemma drop_paras_bytes:
  "bytes_u16s (drop 9 ([a, b, c] @ paras_bytes p @ rest)) = drop 3 (bytes_u16s (paras_bytes p @ rest))"
proof -
  have "bytes_u16s (drop 6 xs) = drop 3 (bytes_u16s xs)" for xs
  proof -
    have "bytes_u16s (drop 2 ys) = drop 1 (bytes_u16s ys)" for ys
      by (cases ys rule: bytes_u16s.cases) auto
    from this [of xs] this [of "drop 2 xs"] this [of "drop 4 xs"] show ?thesis by (simp add: drop_3)
  qed
  moreover have "drop 9 ([a, b, c] @ paras_bytes p @ rest) = drop 6 (paras_bytes p @ rest)" by simp
  ultimately show ?thesis by metis
qed

lemma bytes_u16s_append: "even (length xs) \<Longrightarrow> bytes_u16s (xs @ ys) = bytes_u16s xs @ bytes_u16s ys"
  by (induction xs rule: bytes_u16s.induct) auto

lemma write_user_paras_take:
  "113 \<le> length para \<Longrightarrow> write_user_paras para s = write_user_paras (take 113 para) s"
proof -
  assume "113 \<le> length para"
  then have "idx para i = idx (take 113 para) i" if "i < 113" for i using that by (simp add: idx_def)
  then have *: "for_up lo 113 (\<lambda>i t. do { v \<leftarrow> idx para i;
        Some (snd (FLASH_ProgramHalfWord (UserParaStartAddress + 2 * of_nat i) v t)) }) s =
      for_up lo 113 (\<lambda>i t. do { v \<leftarrow> idx (take 113 para) i;
        Some (snd (FLASH_ProgramHalfWord (UserParaStartAddress + 2 * of_nat i) v t)) }) s" for lo s
    by (intro for_up_cong) simp
  show ?thesis unfolding write_user_paras_def * ..
qed

lemma can_message_frame:
  "user_paras_local (can_message f src msg s) = user_paras_local s"
  "flash_mem (can_message f src msg s) = flash_mem s"
  by (simp_all add: can_message_def AddCanFrames_def)

lemma can_frames_message:
  "queues_inv s \<Longrightarrow> can_frames (can_message f src msg s) =
     can_frames s @ take (49 - length (can_frames s)) (msg_frames (uninit_frame s) f src msg)"
proof -
  let ?s = "s\<lparr>can_send_len := of_nat (length msg), can_send_buff := msg @ drop (length msg) (can_send_buff s)\<rparr>"
  assume "queues_inv s"
  then have "queues_inv ?s" by (simp add: queues_inv_def)
  from can_frames_AddCanFrames [OF this] show ?thesis unfolding can_message_def by simp
qed

lemma para_write_branch:
  "idx pbuf 0 = Some b0 \<Longrightarrow> idx pbuf 1 = Some b1 \<Longrightarrow> idx pbuf 2 = Some 0x2 \<Longrightarrow> ucast b0 = n \<Longrightarrow>
   para_data_recv_process pbuf n s = do {
     s1 \<leftarrow> write_user_paras (bytes_u16s (drop 9 pbuf)) s;
     s2 \<leftarrow> read_user_paras s1;
     can_bus_reply_write_user_paras (user_paras_local s2) s2 }"
  by (simp add: para_data_recv_process_def declared_length Let_def)

text \<open>Remote parameter setting: a station that receives the write command with a valid
  parameter block over CAN stores it in flash, takes it over (with its own number and version)
  and answers with a write reply that carries the block it now uses.\<close>

lemma params_written_over_can:
  assumes "can_ok s" "belts_ok s" "queues_inv s" "flash_obeys s" "length (stopspeed_default s) = 10"
    and "valid_paras p" "q = own_paras (local_station s) p"
  shows "\<exists>s'. can_dispatch (dispatch_id CAN_FUNC_ID_PARA_DATA (local_station s))
        (whole_message ([235, 0, 0x02] @ paras_bytes p) s) = Some s' \<and>
    user_paras_local s' = q \<and> flash_words s' = drop 3 (paras_u16s p) \<and>
    can_frames s' = can_frames s @ take (49 - length (can_frames s))
      (msg_frames (uninit_frame s) CAN_FUNC_ID_PARA_DATA (local_station s) ([235, 0, 0x92] @ paras_bytes q))"
proof -
  let ?b = "whole_message ([235, 0, 0x02] @ paras_bytes p) s"
  have wf: "wf_paras p" "wf_paras q"
    using assms(6,7) by (simp_all add: valid_paras_def own_paras_def wf_paras_def)
  have l: "length (paras_bytes p) = 232" using wf by simp
  obtain rest where buf: "can_recv_buff ?b = [235, 0, 0x02] @ paras_bytes p @ rest" "length rest = 65"
    using assms(1) l by (simp add: whole_message_def can_ok_def)
  have "take 113 (bytes_u16s (drop 9 (can_recv_buff ?b))) = drop 3 (paras_u16s p)"
    using wf l unfolding buf(1) drop_paras_bytes
    by (simp add: bytes_u16s_append) (simp add: paras_bytes_def)
  moreover have "113 \<le> length (bytes_u16s (drop 9 (can_recv_buff ?b)))"
    using buf l by simp
  ultimately have w: "write_user_paras (bytes_u16s (drop 9 (can_recv_buff ?b))) ?b =
      write_user_paras (drop 3 (paras_u16s p)) ?b"
    using write_user_paras_take by metis
  have "flash_obeys ?b" using assms(4) by (simp add: whole_message_def flash_obeys_def flash_quiet_def)
  from write_read_user_paras [OF this _ _ assms(6)] obtain s1 where
    s1: "write_user_paras (drop 3 (paras_u16s p)) ?b = Some s1" "flash_frame ?b s1"
      "read_user_paras s1 = Some (s1\<lparr>user_paras_local := q,
        stopspeed_default := stop_speeds q (stopspeed_default s)\<rparr>)" "flash_words s1 = drop 3 (paras_u16s p)"
    using assms(2,5,7) by (auto simp: whole_message_def belts_ok_def)
  let ?s2 = "s1\<lparr>user_paras_local := q, stopspeed_default := stop_speeds q (stopspeed_default s)\<rparr>"
  have ok: "can_ok ?b" "queues_inv ?b"
    using assms(1,3) l by (simp_all add: can_ok_def whole_message_def queues_inv_def)
  from s1(2) ok have ok2: "can_ok ?s2" "queues_inv ?s2" "can_frames ?s2 = can_frames s"
      "uninit_frame ?s2 = uninit_frame s"
    by (auto elim!: flash_frameE simp: can_ok_def queues_inv_def whole_message_def)
  have "ucast (Station_No q) = local_station s"
    using assms(7) by (simp add: own_paras_def)
  then have reply: "can_bus_reply_write_user_paras q ?s2 =
      Some (can_message CAN_FUNC_ID_PARA_DATA (local_station s) ([235, 0, 0x92] @ paras_bytes q) ?s2)"
    using send_paras_msg_eq [OF ok2(1) wf(2)] by (simp add: can_bus_reply_write_user_paras_def)
  have "can_dispatch (dispatch_id CAN_FUNC_ID_PARA_DATA (local_station s)) ?b =
      para_data_recv_process (can_recv_buff ?b) 235 ?b"
    using l by (simp add: can_dispatch_def dispatch_id_def whole_message_def)
  also have "\<dots> = can_bus_reply_write_user_paras q ?s2"
    using para_write_branch [of "can_recv_buff ?b" 235 0 235 ?b] w s1(1,3)
    unfolding buf(1) by (simp add: idx_header)
  finally show ?thesis
    using reply can_frames_message [OF ok2(2)] ok2(3,4) s1(4)
    by (simp add: can_message_frame flash_words_def del: length_ring_list)
qed

end
