(* ===== verification/Inv.thy ===== *)
theory Inv
  imports CanRecv
begin

text \<open>
  The invariant of the running firmware, \<open>sys_ok\<close>, and that the belt-control, parameter
  and CAN operations are defined and keep it: every array has its declared length, the four
  queues are well formed, the local parameters name at most ten belts, every queued inverter
  command is for inverter 1 to 10, and every queued CAN frame has at most eight data bytes.

  \<open>stable s t\<close> says what the handlers never change: the inputs, the station's identity, the
  state of the emergency filter, and what has been sent to the inverters.
\<close>

section \<open>The invariant\<close>

definition node_ok :: "COMM_NODE_T \<Rightarrow> bool" where
  "node_ok x \<longleftrightarrow> 0 < inverter_no x \<and> inverter_no x \<le> 10 \<and> rw_flag x \<le> 2"

definition status_ok :: "MODULE_STATUS_T \<Rightarrow> bool" where
  "status_ok m \<longleftrightarrow> length (inverter_status m) = 10 \<and> belt_number m \<le> 10"

definition modbus_ok :: "fw \<Rightarrow> bool" where
  "modbus_ok s \<longleftrightarrow> length (stopspeed_default s) = 10 \<and> length (uart1_send_buff s) = 50 \<and>
     length (uart1_recv_buff s) = 50 \<and> length (uninit_write_data s) = 4 \<and>
     uart1_recv_count s \<le> 50 \<and> polling_num s \<le> 10 \<and> (comm_busy_flag s \<noteq> 0 \<longrightarrow> node_ok (comm_node s))"

definition net_ok :: "fw \<Rightarrow> bool" where
  "net_ok s \<longleftrightarrow> length (tcp_recv_buf (tcp_client s)) = 300 \<and> length (tcp_send_buf (tcp_client s)) = 300 \<and>
     length (dest_ip (tcp_client s)) = 4 \<and>
     tcp_recv_len (tcp_client s) \<le> 300 \<and> tcp_send_len (tcp_client s) \<le> 300 \<and>
     (tcp_client_statue (tcp_client s) \<noteq> CLIENT_CONNECT_RECV \<longrightarrow> tcp_recv_len (tcp_client s) = 0) \<and>
     wf_paras (user_paras_slave s) \<and> Belt_Number (user_paras_slave s) \<le> 10"

definition sys_ok :: "fw \<Rightarrow> bool" where
  "sys_ok s \<longleftrightarrow> belts_ok s \<and> queues_inv s \<and> can_ok s \<and> modbus_ok s \<and> net_ok s \<and>
     list_all node_ok (uart_nodes s) \<and> list_all frame_ok (can_frames s) \<and>
     list_all status_ok (status_msgs s)"

definition stable :: "fw \<Rightarrow> fw \<Rightarrow> bool" where
  "stable s t \<longleftrightarrow> IDR t = IDR s \<and> isHost t = isHost s \<and> local_station t = local_station s \<and>
     bEmergencyInfo t = bEmergencyInfo s \<and> uart_tx t = uart_tx s"

lemma stable_refl [simp]: "stable s s"
  by (simp add: stable_def)

lemma stable_trans: "stable s t \<Longrightarrow> stable t u \<Longrightarrow> stable s u"
  by (simp add: stable_def)

lemma sys_okD:
  assumes "sys_ok s"
  shows "belts_ok s" "queues_inv s" "can_ok s" "modbus_ok s" "net_ok s"
    "list_all node_ok (uart_nodes s)" "list_all frame_ok (can_frames s)"
    "list_all status_ok (status_msgs s)"
  using assms by (simp_all add: sys_ok_def)

lemmas sys_defs = sys_ok_def belts_ok_def queues_inv_def can_ok_def modbus_ok_def net_ok_def

text \<open>\<open>good s\<close>: a result that keeps the invariant, the local parameters and what
  \<open>stable\<close> names, and does not reset the processor.\<close>

definition good :: "fw \<Rightarrow> fw \<Rightarrow> bool" where
  "good s t \<longleftrightarrow> sys_ok t \<and> stable s t \<and> user_paras_local t = user_paras_local s \<and>
     sys_reset t = sys_reset s"

lemma good_refl: "sys_ok s \<Longrightarrow> good s s"
  by (simp add: good_def)

lemma good_trans: "good s t \<Longrightarrow> good t u \<Longrightarrow> good s u"
  by (auto simp: good_def intro: stable_trans)

section \<open>Queue additions\<close>

lemma good_AddUartNodes:
  assumes "sys_ok s" "list_all node_ok xs"
  shows "good s (AddUartNodes xs s)"
  using assms uartq.list_all_enq_all [of "uartSendQueue s" node_ok xs]
  by (auto simp: good_def stable_def sys_defs AddUartNodes_def uartq.invar_enq_all)

lemma good_AddCanFrames:
  assumes "sys_ok s" "list_all frame_ok xs"
  shows "good s (AddCanFrames xs s)"
  using assms canq.list_all_enq_all [of "canSendQueue s" frame_ok xs]
  by (auto simp: good_def stable_def sys_defs AddCanFrames_def canq.invar_enq_all)

lemma good_AddModuleStatus:
  assumes "sys_ok s" "status_ok m"
  shows "good s (AddModuleStatusData2Queue m s)"
  using assms statusq.list_all_enq [of "moduleStatusQueue s" status_ok m]
  by (auto simp: good_def stable_def sys_defs AddModuleStatusData2Queue_def statusq.invar_enq)

lemma good_AddSendMsg: "sys_ok s \<Longrightarrow> good s (AddSendMsgToQueue m s)"
  by (auto simp: good_def stable_def sys_defs AddSendMsgToQueue_def msgq.invar_enq)

lemma good_InitUart: "sys_ok s \<Longrightarrow> good s (InitUartSendQueue s)"
proof -
  assume ok: "sys_ok s"
  then have "queues_inv (InitUartSendQueue s)" by (simp add: sys_okD)
  with ok show ?thesis
    by (auto simp: good_def stable_def sys_ok_def belts_ok_def can_ok_def modbus_ok_def net_ok_def
        InitUartSendQueue_def)
qed

lemma node_ok_write: "unat n < 10 \<Longrightarrow> node_ok (write_node (n + 1) g d)"
  by (simp add: node_ok_def write_node_def inverter_no_of_belt)

lemma node_ok_reset: "unat n < 10 \<Longrightarrow> node_ok (reset_node (n + 1))"
  by (simp add: node_ok_def reset_node_def inverter_no_of_belt)

lemma unat_small_u16: "i < 10 \<Longrightarrow> unat (of_nat i :: u16) = i"
  by (simp add: unat_of_nat)

text \<open>Updates of fields that the invariant does not mention.\<close>

lemma sys_ok_fields [simp]:
  "sys_ok (s\<lparr>g_speed_gear_status := g\<rparr>) = sys_ok s"
  "sys_ok (s\<lparr>ODR := od\<rparr>) = sys_ok s"
  "sys_ok (s\<lparr>reset_start_time_cnt := c\<rparr>) = sys_ok s"
  "sys_ok (s\<lparr>reset_start_flag := f\<rparr>) = sys_ok s"
  "sys_ok (s\<lparr>g_link_up_stream_status := l\<rparr>) = sys_ok s"
  "sys_ok (s\<lparr>g_link_down_stream_status := l\<rparr>) = sys_ok s"
  "sys_ok (s\<lparr>g_block_disable_flag := l\<rparr>) = sys_ok s"
  by (simp_all add: sys_defs)

lemma sys_ok_GPIO [simp]: "sys_ok (GPIO_WriteBit p m v s) = sys_ok s"
  by (simp add: GPIO_WriteBit_def)

lemma stable_GPIO [simp]: "stable s (GPIO_WriteBit p m v t) = stable s t"
  by (simp add: GPIO_WriteBit_def stable_def)

lemma paras_GPIO [simp]:
  "user_paras_local (GPIO_WriteBit p m v s) = user_paras_local s"
  "sys_reset (GPIO_WriteBit p m v s) = sys_reset s"
  by (simp_all add: GPIO_WriteBit_def)

section \<open>Belt control\<close>

lemma speed_nodes_ok:
  assumes "belts_ok s"
  shows "list_all node_ok (stop_nodes (user_paras_local s))"
    "list_all node_ok (emergency_nodes (user_paras_local s))"
    "list_all node_ok (start_nodes g (user_paras_local s))"
    "list_all node_ok (regear_nodes g (user_paras_local s))"
    "list_all node_ok (block_nodes (belts s) s)" "list_all node_ok (reset_nodes (belts s) s)"
    "list_all node_ok (restart_nodes s)"
proof -
  have n: "unat (of_nat i :: u16) < 10" if "i < belts s" for i
    using that belts_okD(2) [OF assms] by (simp add: unat_small_u16)
  show "list_all node_ok (stop_nodes (user_paras_local s))"
    "list_all node_ok (emergency_nodes (user_paras_local s))"
    "list_all node_ok (start_nodes g (user_paras_local s))"
    "list_all node_ok (regear_nodes g (user_paras_local s))"
    "list_all node_ok (block_nodes (belts s) s)" "list_all node_ok (reset_nodes (belts s) s)"
    "list_all node_ok (restart_nodes s)"
    using n by (auto simp: list_all_iff stop_nodes_def emergency_nodes_def start_nodes_def
        regear_nodes_def block_nodes_def reset_nodes_def restart_nodes_def node_ok_write node_ok_reset)
qed

lemma good_update:
  "good s t \<Longrightarrow> good s (t\<lparr>g_speed_gear_status := g\<rparr>)"
  "good s t \<Longrightarrow> good s (t\<lparr>ODR := od\<rparr>)"
  "good s t \<Longrightarrow> good s (t\<lparr>reset_start_time_cnt := c\<rparr>)"
  "good s t \<Longrightarrow> good s (t\<lparr>reset_start_flag := f\<rparr>)"
  "good s t \<Longrightarrow> good s (t\<lparr>g_link_up_stream_status := l\<rparr>)"
  "good s t \<Longrightarrow> good s (t\<lparr>g_link_down_stream_status := l\<rparr>)"
  "good s t \<Longrightarrow> good s (t\<lparr>g_block_disable_flag := l\<rparr>)"
  "good s t \<Longrightarrow> good s (GPIO_WriteBit p m v t)"
  by (simp_all add: good_def stable_def GPIO_WriteBit_def)

lemma sys_ok_arrays:
  "sys_ok t \<Longrightarrow> length vs = 10 \<Longrightarrow> sys_ok (t\<lparr>inverter_status_buffer := vs\<rparr>)"
  "sys_ok t \<Longrightarrow> length cs = 10 \<Longrightarrow> sys_ok (t\<lparr>block_check_time_cnt := cs\<rparr>)"
  by (simp_all add: sys_defs)

lemma good_status: "good s t \<Longrightarrow> length vs = 10 \<Longrightarrow> good s (t\<lparr>inverter_status_buffer := vs\<rparr>)"
  by (simp add: good_def stable_def sys_ok_arrays)

lemma good_block_cnt: "good s t \<Longrightarrow> length cs = 10 \<Longrightarrow> good s (t\<lparr>block_check_time_cnt := cs\<rparr>)"
  by (simp add: good_def stable_def sys_ok_arrays)

lemma Speed_Ctrl_Process_good:
  assumes "sys_ok s"
  shows "returns (Speed_Ctrl_Process g s) (good s)"
proof -
  note b = sys_okD(1) [OF assms]
  have i: "good s (AddUartNodes xs (InitUartSendQueue s))" if "list_all node_ok xs" for xs
    using good_trans [OF good_InitUart [OF assms] good_AddUartNodes [OF _ that]] good_InitUart [OF assms]
    by (simp add: good_def)
  show ?thesis
    using speed_nodes_ok [OF b] i good_AddUartNodes [OF assms]
    by (simp add: Speed_Ctrl_Process_eq [OF b] B_RUN_STA_OUT_def good_update)
qed

lemma linkage_good:
  assumes "sys_ok s" "linkage_outcome s r"
  shows "returns r (good s)"
proof -
  obtain xs where r: "r = Some (AddUartNodes xs s)" and xs: "list_all (linkage_node s) xs"
    using assms(2) by (auto simp: linkage_outcome_def)
  have "list_all node_ok xs" using xs by (auto simp: list_all_iff linkage_node_def node_ok_def)
  with r show ?thesis using good_AddUartNodes [OF assms(1)] by simp
qed

lemma Block_Check_good:
  assumes "sys_ok s"
  shows "returns (Block_Check_Ctrl_Handle s) (good s)"
proof (cases "g_block_disable_flag s = 1")
  case True
  then show ?thesis using assms by (simp add: Block_Check_Ctrl_Handle_def good_refl)
next
  case False
  note b = sys_okD(1) [OF assms]
  have "good s (AddUartNodes (block_nodes (belts s) s) s)"
    by (rule good_AddUartNodes [OF assms speed_nodes_ok(5) [OF b]])
  then have "good s (block_upto (belts s) s)"
    unfolding block_upto_def using belts_okD [OF b] by (intro good_status good_block_cnt good_update) simp_all
  then show ?thesis by (simp add: Block_Check_Ctrl_Handle_eq [OF b False])
qed

lemma Reset_Ctrl_good:
  assumes "sys_ok s"
  shows "returns (Reset_Ctrl_Handle s) (good s)"
proof -
  note b = sys_okD(1) [OF assms]
  have "good s (AddUartNodes (reset_nodes (belts s) s) s)"
    by (rule good_AddUartNodes [OF assms speed_nodes_ok(6) [OF b]])
  then have "good s (reset_upto (belts s) s)"
    unfolding reset_upto_def by (rule good_status) (simp add: belts_okD [OF b])
  then show ?thesis by (simp add: Reset_Ctrl_Handle_eq [OF b] L_ALARM_OUT_def good_update)
qed

lemma Reset_Start_good:
  assumes "sys_ok s"
  shows "returns (Reset_Start_Inverter_Handle s) (good s)"
proof -
  note b = sys_okD(1) [OF assms]
  have s': "good s (s\<lparr>reset_start_flag := 0\<rparr>)" using good_refl [OF assms] by (rule good_update)
  then have "good (s\<lparr>reset_start_flag := 0\<rparr>) (AddUartNodes (restart_nodes s) (s\<lparr>reset_start_flag := 0\<rparr>))"
    using speed_nodes_ok(7) [OF b] by (intro good_AddUartNodes) (simp_all add: good_def)
  with s' have "good s (AddUartNodes (restart_nodes s) (s\<lparr>reset_start_flag := 0\<rparr>))"
    by (rule good_trans)
  with s' show ?thesis
    using good_refl [OF assms] by (simp add: Reset_Start_Inverter_Handle_eq [OF b])
qed

lemma upstream_io_good:
  assumes "sys_ok s"
  shows "returns (logic_upstream_io_allow_output s) (good s)"
  using belts_okD(3) [OF sys_okD(1) [OF assms]] good_refl [OF assms]
  by (simp add: logic_upstream_io_allow_output_def idx_Some B_STREAM_OUT_def good_update)

section \<open>Parameters and CAN\<close>

text \<open>\<open>safe s\<close>: like \<open>good s\<close>, but the parameters may have been replaced or a reset requested.\<close>

definition safe :: "fw \<Rightarrow> fw \<Rightarrow> bool" where
  "safe s t \<longleftrightarrow> sys_ok t \<and> stable s t"

lemma good_safe: "good s t \<Longrightarrow> safe s t"
  by (simp add: good_def safe_def)

lemma safe_refl: "sys_ok s \<Longrightarrow> safe s s"
  by (simp add: safe_def)

lemma safe_trans: "safe s t \<Longrightarrow> safe t u \<Longrightarrow> safe s u"
  by (auto simp: safe_def intro: stable_trans)

lemma safe_ok: "safe s t \<Longrightarrow> sys_ok t"
  by (simp add: safe_def)

lemma returns_safe: "returns r (good s) \<Longrightarrow> returns r (safe s)"
  by (erule returns_mono) (rule good_safe)

text \<open>Chaining: a step from a safe state.\<close>

lemma returns_safe_step: "safe s t \<Longrightarrow> returns r (safe t) \<Longrightarrow> returns r (safe s)"
  by (erule returns_mono) (rule safe_trans)

lemma returns_good_step: "good s t \<Longrightarrow> returns r (good t) \<Longrightarrow> returns r (good s)"
  by (erule returns_mono) (rule good_trans)

lemma can_message_good:
  assumes "sys_ok s" "length msg \<le> 300"
  shows "good s (can_message func src msg s)"
proof -
  let ?s = "s\<lparr>can_send_len := of_nat (length msg), can_send_buff := msg @ drop (length msg) (can_send_buff s)\<rparr>"
  have "good s ?s" using assms by (simp add: good_def stable_def sys_defs)
  moreover have "list_all frame_ok (msg_frames (uninit_frame s) func src msg)"
    using assms(1) by (intro frame_ok_msg_frames) (simp add: sys_defs)
  ultimately show ?thesis
    unfolding can_message_def using good_trans good_AddCanFrames good_def by blast
qed

lemma flash_frame_sys:
  assumes "flash_frame s t" "sys_ok s"
  shows "good s t"
  using assms(1) by (rule flash_frameE) (use assms(2) in \<open>simp add: good_def stable_def sys_defs\<close>)

lemma sys_ok_paras:
  "sys_ok s \<Longrightarrow> wf_paras p \<Longrightarrow> Belt_Number p \<le> 10 \<Longrightarrow> length sp = 10 \<Longrightarrow>
     safe s (s\<lparr>user_paras_local := p, stopspeed_default := sp\<rparr>)"
  by (simp add: safe_def stable_def sys_defs)

lemma read_user_paras_ok:
  assumes "sys_ok s"
  shows "returns (read_user_paras s) (safe s)"
proof -
  have w: "wf_paras (user_paras_local s)" "length (stopspeed_default s) = 10"
    using assms by (simp_all add: sys_defs)
  show ?thesis unfolding read_user_paras_eq [OF w]
    using w(2) by (simp add: sys_ok_paras [OF assms] stop_speeds_def)
qed

lemma write_user_paras_ok:
  "sys_ok s \<Longrightarrow> 113 \<le> length para \<Longrightarrow> returns (write_user_paras para s) (good s)"
  using write_user_paras_frame [of para s] flash_frame_sys [of s] by (auto simp: returns_def)

lemma send_paras_ok:
  "sys_ok s \<Longrightarrow> wf_paras p \<Longrightarrow> returns (send_paras_msg cmd p s) (good s)"
  using send_paras_msg_eq [OF sys_okD(3)] can_message_good [of s "[235, 0, cmd] @ paras_bytes p"] by simp

lemma sys_ok_slave: "sys_ok s \<Longrightarrow> wf_paras p \<Longrightarrow> Belt_Number p \<le> 10 \<Longrightarrow> good s (s\<lparr>user_paras_slave := p\<rparr>)"
  by (simp add: good_def stable_def sys_defs)

lemma write_then_read_ok:
  assumes "sys_ok s" "113 \<le> length para"
  shows "returns (do { s1 \<leftarrow> write_user_paras para s; read_user_paras s1 }) (safe s)"
proof (rule returns_bind [OF write_user_paras_ok [OF assms]])
  fix t assume "good s t"
  then show "returns (read_user_paras t) (safe s)"
    by (meson good_safe good_def read_user_paras_ok returns_safe_step)
qed

text \<open>Messages within the bounds the handlers rely on without checking them: a status message
  or a parameter reply is about at most ten belts.\<close>

definition msg_safe :: "u8 \<Rightarrow> u8 list \<Rightarrow> bool" where
  "msg_safe func buf \<longleftrightarrow> (func = CAN_FUNC_ID_MODULE_STATUS \<longrightarrow> buf ! 2 \<le> 10) \<and>
     (func = CAN_FUNC_ID_PARA_DATA \<and> (buf ! 2 = 0x91 \<or> buf ! 2 = 0x92) \<longrightarrow>
        Belt_Number (bytes_paras (take sizeof_USER_PARAS_T (drop 3 buf))) \<le> 10)"

lemma para_data_ok:
  assumes "sys_ok s" "length pbuf = 300" "msg_safe CAN_FUNC_ID_PARA_DATA pbuf"
  shows "returns (para_data_recv_process pbuf n s) (safe s)"
proof -
  have i: "idx pbuf 0 = Some (pbuf ! 0)" "idx pbuf (Suc 0) = Some (pbuf ! Suc 0)" "idx pbuf 2 = Some (pbuf ! 2)"
    using assms(2) by (simp_all add: idx_def)
  have reply: "returns (send_paras_msg c (user_paras_local s) s) (safe s)" for c
    using send_paras_ok [OF assms(1)] assms(1) by (intro returns_safe) (simp add: sys_defs)
  have slave: "safe s (AddSendMsgToQueue m (s\<lparr>user_paras_slave := bytes_paras bs\<rparr>))"
    if "Belt_Number (bytes_paras bs) \<le> 10" for m bs
  proof -
    have g: "good s (s\<lparr>user_paras_slave := bytes_paras bs\<rparr>)" using sys_ok_slave [OF assms(1)] that by simp
    then have "sys_ok (s\<lparr>user_paras_slave := bytes_paras bs\<rparr>)" by (simp add: good_def)
    from good_trans [OF g good_AddSendMsg [OF this]] show ?thesis by (rule good_safe)
  qed
  have len: "113 \<le> length (bytes_u16s (drop 9 pbuf))" using assms(2) by simp
  have "returns (do { s1 \<leftarrow> write_user_paras (bytes_u16s (drop 9 pbuf)) s; s2 \<leftarrow> read_user_paras s1;
      can_bus_reply_write_user_paras (user_paras_local s2) s2 }) (safe s)"
  proof -
    have "returns (do { s2 \<leftarrow> (do { s1 \<leftarrow> write_user_paras (bytes_u16s (drop 9 pbuf)) s; read_user_paras s1 });
        can_bus_reply_write_user_paras (user_paras_local s2) s2 }) (safe s)"
    proof (rule returns_bind [OF write_then_read_ok [OF assms(1) len]])
      fix t assume t: "safe s t"
      then have "returns (send_paras_msg 0x92 (user_paras_local t) t) (safe t)"
        by (intro returns_safe send_paras_ok) (auto simp: safe_def sys_defs)
      then show "returns (can_bus_reply_write_user_paras (user_paras_local t) t) (safe s)"
        unfolding can_bus_reply_write_user_paras_def by (rule returns_safe_step [OF t])
    qed
    then show ?thesis by simp
  qed
  then show ?thesis
    using reply slave assms(1,2) assms(3) [unfolded msg_safe_def]
    by (simp add: para_data_recv_process_def i declared_length Let_def can_bus_reply_read_user_paras_def
        safe_refl)
qed

lemma status_ok_inverters: "n \<le> 10 \<Longrightarrow> status_ok \<lparr>station_no = x, belt_number = n, inverter_status = bytes_inverters 10 bs\<rparr>"
  by (simp add: status_ok_def)

lemma module_status_ok:
  assumes "sys_ok s" "length pbuf = 300" "pbuf ! 2 \<le> 10"
  shows "returns (module_status_recv_process pbuf n src s) (good s)"
proof -
  have i: "idx pbuf 0 = Some (pbuf ! 0)" "idx pbuf (Suc 0) = Some (pbuf ! Suc 0)" "idx pbuf 2 = Some (pbuf ! 2)"
    using assms(2) by (simp_all add: idx_def)
  have k: "unat (pbuf ! 2) \<le> 10" using assms(3) by (simp add: word_le_nat_alt)
  have us: "length (inverter_status (uninit_status s)) = 10" using assms(1) by (simp add: sys_defs)
  obtain bs where bs: "memcpy (inverters_bytes (inverter_status (uninit_status s))) 0 (drop 3 pbuf)
      (10 * unat (pbuf ! 2)) = Some bs"
    using k us assms(2) by (simp add: memcpy_def)
  let ?st = "bytes_inverters 10 bs"
  let ?m = "\<lparr>station_no = ucast src, belt_number = ucast (pbuf ! 2), inverter_status = ?st\<rparr>"
  have "(ucast (pbuf ! 2) :: u16) \<le> 10" using k by (simp add: word_le_nat_alt)
  then have add: "good s (AddModuleStatusData2Queue ?m s)"
    by (intro good_AddModuleStatus [OF assms(1)] status_ok_inverters)
  define s1 where "s1 = (if isHost s \<noteq> 0 then AddModuleStatusData2Queue ?m s else s)"
  have s1: "good s s1" using add good_refl [OF assms(1)] by (simp add: s1_def)
  have ok1: "sys_ok s1" using s1 by (simp add: good_def)
  have link: "returns (Linkage_Stream_Ctrl_Handle (ucast (Belt_Number (user_paras_local s1) - 1)) f s1) (good s)"
    if "Belt_Number (user_paras_local s1) \<noteq> 0" for f
  proof (rule returns_good_step [OF s1], rule linkage_good [OF ok1], rule linkage_stream)
    note b = sys_okD(1) [OF ok1]
    show "belts_ok s1" by (rule b)
    have "belts s1 \<noteq> 0" using that by (simp add: unat_eq_0)
    with belt_index_u8 [OF b] belts_okD(2) [OF b]
    show "unat (ucast (Belt_Number (user_paras_local s1) - 1) :: u8) < 10" by simp
  qed
  have idx: "idx ?st j = Some (?st ! j)" if "j < 10" for j using that by (simp add: idx_def)
  have down: "returns (do {
      s2 \<leftarrow> Linkage_Stream_Ctrl_Handle (ucast (Belt_Number (user_paras_local s1) - 1)) f s1;
      Some (s2\<lparr>g_link_down_stream_status := run\<rparr>) }) (good s)"
    if "Belt_Number (user_paras_local s1) \<noteq> 0" for run f
    by (rule returns_bind [OF link [OF that]]) (simp add: good_update)
  show ?thesis
    using s1 k assms(1)
    by (simp add: module_status_recv_process_def i bs declared_length Let_def idx good_refl good_update
        unat_eq_0 down flip: s1_def)
qed

text \<open>What the CAN controller delivers: at most eight data bytes, in an array of eight.\<close>

definition rx_ok :: "CanRxMsg \<Rightarrow> bool" where
  "rx_ok m \<longleftrightarrow> Rx_DLC m \<le> 8 \<and> length (Rx_Data m) = 8"

lemma sys_ok_can_recv:
  "sys_ok s \<Longrightarrow> length b = 300 \<Longrightarrow> good s (s\<lparr>can_recv_buff := b, can_recv_len := n\<rparr>)"
  "sys_ok s \<Longrightarrow> length b = 300 \<Longrightarrow>
     good s (s\<lparr>can_recv_buff := b, g_SegPolo := p, g_SegNum := k, g_SegBytes := c\<rparr>)"
  "sys_ok s \<Longrightarrow> length b = 300 \<Longrightarrow> good s (s\<lparr>can_recv_buff := b, g_SegNum := k, g_SegBytes := c\<rparr>)"
  "sys_ok s \<Longrightarrow> length b = 300 \<Longrightarrow>
     good s (s\<lparr>can_recv_buff := b, can_recv_len := n, g_SegPolo := p, g_SegNum := k, g_SegBytes := c\<rparr>)"
  by (simp_all add: good_def stable_def sys_defs)

lemma can_reassemble_ok:
  assumes "sys_ok s" "rx_ok m"
  shows "returns (can_reassemble x m s) (\<lambda>(_, t). good s t)"
proof -
  have n: "unat (Rx_DLC m) \<le> 8" "length (Rx_Data m) = 8"
    using assms(2) by (simp_all add: rx_ok_def word_le_nat_alt)
  have b: "length (can_recv_buff s) = 300" using assms(1) by (simp add: sys_defs)
  have cp: "\<exists>b'. memcpy (can_recv_buff s) k (Rx_Data m) (unat (Rx_DLC m)) = Some b' \<and> length b' = 300"
    if "k + unat (Rx_DLC m) \<le> 300" for k
    using that n b by (simp add: memcpy_def)
  obtain b0 where b0: "memcpy (can_recv_buff s) 0 (Rx_Data m) (unat (Rx_DLC m)) = Some b0" "length b0 = 300"
    using cp [of 0] n by auto
  show ?thesis
  proof (cases "unat (g_SegBytes s) + unat (Rx_DLC m) \<le> 300")
    case True
    then obtain b1 where "memcpy (can_recv_buff s) (unat (g_SegBytes s)) (Rx_Data m) (unat (Rx_DLC m)) = Some b1"
      "length b1 = 300" using cp by blast
    with b0 show ?thesis
      using sys_ok_can_recv [OF assms(1)] good_refl [OF assms(1)] by (simp add: can_reassemble_def Let_def)
  next
    case False
    with b0 show ?thesis
      using sys_ok_can_recv [OF assms(1)] good_refl [OF assms(1)] by (simp add: can_reassemble_def Let_def)
  qed
qed

lemma can_bus_send_module_status_good:
  assumes "sys_ok s"
  shows "returns (can_bus_send_module_status s) (good s)"
proof (cases "Belt_Number (user_paras_local s) = 0 \<or> Belt_Number (user_paras_local s) > 10")
  case True
  then show ?thesis using good_refl [OF assms] by (simp add: can_bus_send_module_status_def)
next
  case False
  then have n: "Belt_Number (user_paras_local s) \<noteq> 0" "Belt_Number (user_paras_local s) \<le> 10" by auto
  from n(2) have k: "unat (Belt_Number (user_paras_local s)) \<le> 10" by (simp add: word_le_nat_alt)
  have l: "length (inverter_status_buffer s) = 10" using assms by (simp add: sys_defs)
  show ?thesis
    unfolding send_module_status_eq [OF sys_okD(3) [OF assms] l n] returns_Some
    by (rule can_message_good [OF assms]) (use k l in simp)
qed

lemma can_dispatch_ok:
  assumes "sys_ok s" "msg_safe (func_id x) (can_recv_buff s)"
  shows "returns (can_dispatch x s) (safe s)"
proof -
  have b: "length (can_recv_buff s) = 300" using assms(1) by (simp add: sys_defs)
  have i: "idx (can_recv_buff s) 0 = Some (can_recv_buff s ! 0)" using b by (simp add: idx_def)
  have m: "func_id x = CAN_FUNC_ID_MODULE_STATUS \<Longrightarrow> can_recv_buff s ! 2 \<le> 10"
    using assms(2) by (simp add: msg_safe_def)
  have p: "func_id x = CAN_FUNC_ID_PARA_DATA \<Longrightarrow> msg_safe CAN_FUNC_ID_PARA_DATA (can_recv_buff s)"
    using assms(2) by simp
  note ok = para_data_ok [OF assms(1) b p] returns_safe [OF Speed_Ctrl_Process_good [OF assms(1)]]
    returns_safe [OF module_status_ok [OF assms(1) b m]] returns_safe [OF Reset_Ctrl_good [OF assms(1)]]
    returns_safe [OF can_bus_send_module_status_good [OF assms(1)]]
    good_safe [OF good_update(7) [OF good_refl [OF assms(1)]]] safe_refl [OF assms(1)]
  show ?thesis using ok by (simp add: can_dispatch_def i)
qed

lemma enter_boot_mode_safe:
  assumes "sys_ok s"
  shows "safe s (enter_boot_mode s)"
proof -
  have reset: "good s t \<Longrightarrow> safe s (t\<lparr>sys_reset := True\<rparr>)" for t
    by (auto simp: good_def safe_def stable_def sys_defs)
  let ?e = "FLASH_ErasePage UserAppEnFlagAddress (FLASH_ClearFlag 0x34 (FLASH_Unlock s))"
  let ?p = "snd (FLASH_ProgramHalfWord UserAppEnFlagAddress 0 (snd ?e))"
  have "flash_frame s (FLASH_ClearFlag 0x34 (FLASH_Unlock s))"
    by (simp add: FLASH_ClearFlag_def FLASH_Unlock_def)
  from flash_frame_trans [OF this FLASH_ErasePage_frame] have e: "flash_frame s (snd ?e)" .
  have p: "flash_frame s ?p" by (rule flash_frame_trans [OF e FLASH_ProgramHalfWord_frame])
  have lock: "flash_frame s (FLASH_Lock t)" if "flash_frame s t" for t
    unfolding FLASH_Lock_def by (rule flash_frame_trans [OF that]) simp
  from e p have "flash_frame s (FLASH_Lock (if fst ?e = FLASH_COMPLETE then ?p else snd ?e))"
    by (simp add: lock)
  from reset [OF flash_frame_sys [OF this assms]]
  show ?thesis by (simp add: enter_boot_mode_def Let_def case_prod_unfold)
qed

text \<open>A received frame that does not complete a message outside those bounds.\<close>

definition frame_safe :: "CanRxMsg \<Rightarrow> fw \<Rightarrow> bool" where
  "frame_safe m s \<longleftrightarrow> rx_ok m \<and>
     (case can_reassemble (recv_extID (Rx_ExtId m)) m s of
        Some (True, t) \<Rightarrow> msg_safe (func_id (recv_extID (Rx_ExtId m))) (can_recv_buff t)
      | _ \<Rightarrow> True)"

lemma can_bus_frame_receive_ok:
  assumes "sys_ok s" "frame_safe m s"
  shows "returns (can_bus_frame_receive m s) (safe s)"
proof -
  let ?x = "recv_extID (Rx_ExtId m)"
  have "returns (can_reassemble ?x m s) (\<lambda>(_, t). good s t)"
    using can_reassemble_ok [OF assms(1)] assms(2) by (simp add: frame_safe_def)
  then obtain fin t where r: "can_reassemble ?x m s = Some (fin, t)" "good s t" by (auto simp: returns_def)
  have "returns (can_dispatch ?x t) (safe s)" if fin
  proof (rule returns_safe_step [OF good_safe [OF r(2)]], rule can_dispatch_ok)
    show "sys_ok t" using r(2) by (simp add: good_def)
    show "msg_safe (func_id ?x) (can_recv_buff t)"
      using assms(2) r(1) \<open>fin\<close> by (simp add: frame_safe_def)
  qed
  then show ?thesis
    using r enter_boot_mode_safe [OF assms(1)]
    by (simp add: can_bus_frame_receive_def Let_def good_safe)
qed

section \<open>The transmit queue\<close>

lemma can_send_frame_good:
  assumes "sys_ok s"
  shows "returns (can_send_frame_process s) (good s)"
proof -
  note q = queues_invD(4) [OF sys_okD(2) [OF assms]]
  show ?thesis
  proof (cases "can_frames s")
    case Nil
    then have "front (canSendQueue s) = rear (canSendQueue s)"
      using ring_empty_iff [OF q] by (simp add: ring_list_Nil_iff)
    then show ?thesis using good_refl [OF assms] by (simp add: can_send_frame_process_def)
  next
    case (Cons f fs)
    then have f: "frame_ok f" "list_all frame_ok fs" using sys_okD(7) [OF assms] by simp_all
    have "good s (s\<lparr>sTxMailBox := mb, canSendQueue := snd (outQueue (canSendQueue s))\<rparr>)" if "length mb = 3" for mb
      using that assms f(2) canq.invar_deq [OF q] canq.deq_snd [OF q Cons]
      by (simp add: good_def stable_def sys_defs)
    moreover have "length (sTxMailBox s) = 3" using assms by (simp add: sys_defs)
    ultimately show ?thesis
      using good_refl [OF assms] by (simp add: can_send_frame_eq [OF sys_okD(3,2) [OF assms] Cons f(1)])
  qed
qed

end
