(* ===== verification/Inputs.thy ===== *)
theory Inputs
  imports Inv
begin

text \<open>
  \<open>InputScanProc\<close> (logic_ctrl.c), called every millisecond: it debounces ten inputs and
  calls the handlers of those that changed. The same statements appear ten times in the
  source, once per input; \<open>debounce\<close> is that pattern, a step of the filter for one input
  with its acceptance threshold, and each section is the filter with its own handler call.
  The downstream input has different thresholds for the two edges.

  \<open>debounce\<close> returns the new filter state and whether the input was accepted on this call.
\<close>

section \<open>The filter\<close>

definition settle_start :: "u8 \<Rightarrow> sInput_Info \<Rightarrow> sInput_Info" where
  "settle_start level x =
     (if input_state x \<noteq> level \<and> input_confirm_times x = 0
      then x\<lparr>input_middle_state := level\<rparr> else x)"

definition debounce :: "u8 \<Rightarrow> u8 \<Rightarrow> sInput_Info \<Rightarrow> bool \<times> sInput_Info" where
  "debounce limit level x0 =
     (let x = settle_start level x0 in
      if input_middle_state x = level \<and> input_middle_state x \<noteq> input_state x then
        let x1 = x\<lparr>input_confirm_times := input_confirm_times x + 1\<rparr> in
        if input_confirm_times x1 > limit
        then (True, x1\<lparr>input_state := input_middle_state x1, input_confirm_times := 0\<rparr>)
        else (False, x1)
      else (False, x\<lparr>input_middle_state := input_state x, input_confirm_times := 0\<rparr>))"

definition set_info :: "sInput_Info \<Rightarrow> sButton_Info \<Rightarrow> sButton_Info" where
  "set_info x b = b\<lparr>input_info := x\<rparr>"

section \<open>The sections of the scan\<close>

definition scan_reset :: "u8 \<Rightarrow> fw \<Rightarrow> fw option" where
  "scan_reset level s =
     (let (hit, x) = debounce 50 level (input_info (bResetInfo s));
          s1 = s\<lparr>bResetInfo := set_info x (bResetInfo s)\<rparr>
      in if hit then Reset_Ctrl_Handle s1 else Some s1)"

text \<open>A photo sensor: the counter \<open>trig_cnt\<close> repeats the handler every 300 calls while the
  sensor is covered. \<open>get\<close> and \<open>put\<close> select the sensor's struct.\<close>

definition scan_photo ::
  "(fw \<Rightarrow> sButton_Info) \<Rightarrow> (sButton_Info \<Rightarrow> fw \<Rightarrow> fw) \<Rightarrow> u8 \<Rightarrow> u8 \<Rightarrow> fw \<Rightarrow> fw option" where
  "scan_photo get put index level s =
     (let b0 = (get s)\<lparr>trig_cnt := trig_cnt (get s) + 1\<rparr>;
          (hit, x) = debounce 50 level (input_info b0);
          s1 = put (set_info x b0) s
      in do {
        s2 \<leftarrow> (if hit then Linkage_Stop_Photo_Ctrl_Handle index s1 else Some s1);
        if trig_cnt (get s2) > 300 then
          let s3 = put ((get s2)\<lparr>trig_cnt := 0\<rparr>) s2 in
          if input_state (input_info (get s3)) = 1
          then Linkage_Stop_Photo_Ctrl_Handle index s3 else Some s3
        else Some s2
      })"

definition scan_photo1 :: "u8 \<Rightarrow> fw \<Rightarrow> fw option" where
  "scan_photo1 = scan_photo bPhoto1Info (\<lambda>b s. s\<lparr>bPhoto1Info := b\<rparr>) 0"

definition scan_photo2 :: "u8 \<Rightarrow> fw \<Rightarrow> fw option" where
  "scan_photo2 = scan_photo bPhoto2Info (\<lambda>b s. s\<lparr>bPhoto2Info := b\<rparr>) 1"

definition scan_photo3 :: "u8 \<Rightarrow> fw \<Rightarrow> fw option" where
  "scan_photo3 = scan_photo bPhoto3Info (\<lambda>b s. s\<lparr>bPhoto3Info := b\<rparr>) 2"

definition scan_photo4 :: "u8 \<Rightarrow> fw \<Rightarrow> fw option" where
  "scan_photo4 = scan_photo bPhoto4Info (\<lambda>b s. s\<lparr>bPhoto4Info := b\<rparr>) 3"

definition scan_photo5 :: "u8 \<Rightarrow> fw \<Rightarrow> fw option" where
  "scan_photo5 = scan_photo bPhoto5Info (\<lambda>b s. s\<lparr>bPhoto5Info := b\<rparr>) 4"

definition scan_start :: "u8 \<Rightarrow> fw \<Rightarrow> fw option" where
  "scan_start level s =
     (let (hit, x) = debounce 100 level (input_info (bStartInfo s));
          s1 = s\<lparr>bStartInfo := set_info x (bStartInfo s)\<rparr>
      in if hit \<and> input_state x = 1 \<and> isHost s1 \<noteq> 0
         then do { s2 \<leftarrow> Speed_Ctrl_Process 2 s1; can_bus_send_start_cmd 2 s2 }
         else Some s1)"

definition scan_stop :: "u8 \<Rightarrow> fw \<Rightarrow> fw option" where
  "scan_stop level s =
     (let (hit, x) = debounce 100 level (input_info (bStopInfo s));
          s1 = s\<lparr>bStopInfo := set_info x (bStopInfo s)\<rparr>
      in if hit \<and> input_state x = 1 \<and> isHost s1 \<noteq> 0
         then do { s2 \<leftarrow> Speed_Ctrl_Process 0 s1; can_bus_send_start_cmd 0 s2 }
         else Some s1)"

text \<open>The downstream input: active is accepted after 20 further samples, inactive after 200.
  The second test runs after the first has possibly cleared the count.\<close>

definition debounce_stream :: "u8 \<Rightarrow> sInput_Info \<Rightarrow> bool \<times> sInput_Info" where
  "debounce_stream level x0 =
     (let x = settle_start level x0 in
      if input_middle_state x = level \<and> input_middle_state x \<noteq> input_state x then
        let x1 = x\<lparr>input_confirm_times := input_confirm_times x + 1\<rparr>;
            up = input_middle_state x1 = 1 \<and> input_confirm_times x1 > 20;
            x2 = (if up then x1\<lparr>input_state := input_middle_state x1, input_confirm_times := 0\<rparr> else x1);
            down = input_middle_state x2 = 0 \<and> input_confirm_times x2 > 200;
            x3 = (if down then x2\<lparr>input_state := input_middle_state x2, input_confirm_times := 0\<rparr> else x2)
        in (up \<and> input_state x2 = 1, x3)
      else (False, x\<lparr>input_middle_state := input_state x, input_confirm_times := 0\<rparr>))"

definition scan_stream :: "u8 \<Rightarrow> fw \<Rightarrow> fw option" where
  "scan_stream level s =
     (let b0 = (bStreamInfo s)\<lparr>trig_cnt := trig_cnt (bStreamInfo s) + 1\<rparr>;
          (hit, x) = debounce_stream level (input_info b0);
          s1 = s\<lparr>bStreamInfo := set_info x b0\<rparr>
      in do {
        s2 \<leftarrow> (if hit
               then Linkage_stream_extra_signal (ucast (Belt_Number (user_paras_local s1) - 1)) 1 s1
               else Some s1);
        if trig_cnt (bStreamInfo s2) > 2000 then
          let s3 = s2\<lparr>bStreamInfo := (bStreamInfo s2)\<lparr>trig_cnt := 0\<rparr>\<rparr> in
          if input_state (input_info (bStreamInfo s3)) = 1
          then Linkage_stream_extra_signal (ucast (Belt_Number (user_paras_local s3) - 1)) 1 s3
          else Some s3
        else Some s2
      })"

definition scan_emergency :: "u8 \<Rightarrow> fw \<Rightarrow> fw option" where
  "scan_emergency level s =
     (let b0 = (bEmergencyInfo s)\<lparr>trig_cnt := trig_cnt (bEmergencyInfo s) + 1\<rparr>;
          (hit, x) = debounce 50 level (input_info b0);
          s1 = s\<lparr>bEmergencyInfo := set_info x b0\<rparr>
      in do {
        s2 \<leftarrow> (if hit then Speed_Ctrl_Process EMERGENCY_STOP s1 else Some s1);
        if trig_cnt (bEmergencyInfo s2) > 2000 then
          let s3 = s2\<lparr>bEmergencyInfo := (bEmergencyInfo s2)\<lparr>trig_cnt := 0\<rparr>\<rparr> in
          if input_state (input_info (bEmergencyInfo s3)) = 1
          then Speed_Ctrl_Process EMERGENCY_STOP s3 else Some s3
        else Some s2
      })"

text \<open>All inputs are read first, then processed in this order.\<close>

definition InputScanProc :: "fw \<Rightarrow> fw option" where
  "InputScanProc s =
     (let l_reset = B_RESET_IN_STATE s; l_photo_1 = B_PHOTO_1_IN_STATE s;
          l_photo_2 = B_PHOTO_2_IN_STATE s; l_photo_3 = B_PHOTO_3_IN_STATE s;
          l_photo_4 = B_PHOTO_4_IN_STATE s; l_photo_5 = B_PHOTO_5_IN_STATE s;
          l_start = B_START_IN_STATE s; l_stop = B_STOP_IN_STATE s;
          l_stream = B_STREAM_IN_STATE s; l_emergency = B_EMERGENCY_IN_STATE s
      in do {
        s1 \<leftarrow> scan_reset l_reset s;
        s2 \<leftarrow> scan_photo1 l_photo_1 s1;
        s3 \<leftarrow> scan_photo2 l_photo_2 s2;
        s4 \<leftarrow> scan_photo3 l_photo_3 s3;
        s5 \<leftarrow> scan_photo4 l_photo_4 s4;
        s6 \<leftarrow> scan_photo5 l_photo_5 s5;
        s7 \<leftarrow> scan_start l_start s6;
        s8 \<leftarrow> scan_stop l_stop s7;
        s9 \<leftarrow> scan_stream l_stream s8;
        scan_emergency l_emergency s9
      })"

section \<open>The filter and its specification\<close>

text \<open>
  The specification has no counter: on a history of samples (latest first), the accepted level
  is the one before, unless the last \<open>n + 1\<close> samples all differ from it.
\<close>

primrec accepted :: "nat \<Rightarrow> u8 \<Rightarrow> u8 list \<Rightarrow> u8" where
  "accepted n st [] = st"
| "accepted n st (v # h) =
     (if n \<le> length h \<and> list_all (\<lambda>w. w \<noteq> accepted n st h) (take (Suc n) (v # h))
      then v else accepted n st h)"

definition filter_samples :: "u8 \<Rightarrow> u8 list \<Rightarrow> sInput_Info \<Rightarrow> sInput_Info" where
  "filter_samples limit vs x = fold (\<lambda>v x. snd (debounce limit v x)) vs x"

text \<open>A filter that has seen \<open>c\<close> samples against the accepted level.\<close>

definition filter_at :: "u8 \<Rightarrow> nat \<Rightarrow> sInput_Info \<Rightarrow> bool" where
  "filter_at st c x \<longleftrightarrow> st \<le> 1 \<and> input_state x = st \<and> unat (input_confirm_times x) = c \<and>
     input_middle_state x = (if c = 0 then st else 1 - st)"

lemma bin_cases: "(v :: u8) \<le> 1 \<Longrightarrow> v = 0 \<or> v = 1"
  by (simp add: word_le_nat_alt word_unat_eq_iff) arith

lemma debounce_same: "filter_at st c x \<Longrightarrow>
    fst (debounce limit st x) = False \<and> filter_at st 0 (snd (debounce limit st x))"
  by (auto simp: filter_at_def debounce_def settle_start_def Let_def dest!: bin_cases)

lemma debounce_other:
  assumes "filter_at st c x" "v \<le> 1" "v \<noteq> st" "c \<le> unat limit" "unat limit < 255"
  shows "if c = unat limit then debounce limit v x = (True, snd (debounce limit v x)) \<and> filter_at v 0 (snd (debounce limit v x))
    else debounce limit v x = (False, snd (debounce limit v x)) \<and> filter_at st (Suc c) (snd (debounce limit v x))"
proof -
  have "unat (input_confirm_times x + 1) = Suc c"
    using assms by (simp add: filter_at_def unat_word_ariths)
  then show ?thesis
    using assms bin_cases [OF assms(2)]
    by (auto simp: filter_at_def debounce_def settle_start_def Let_def word_less_nat_alt
        unat_eq_zero dest!: bin_cases)
qed

lemma takeWhile_at_least:
  "n \<le> length (takeWhile P h) \<longleftrightarrow> n \<le> length h \<and> list_all P (take n h)"
proof (induction n arbitrary: h)
  case 0
  then show ?case by simp
next
  case (Suc n)
  then show ?case by (cases h) auto
qed

lemma filter_history:
  assumes "filter_at st 0 x" "unat limit < 255"
  shows "list_all (\<lambda>v. v \<le> 1) h \<Longrightarrow>
    filter_at (accepted (unat limit) st h) (length (takeWhile (\<lambda>w. w \<noteq> accepted (unat limit) st h) h))
      (filter_samples limit (rev h) x) \<and>
    length (takeWhile (\<lambda>w. w \<noteq> accepted (unat limit) st h) h) \<le> unat limit"
proof (induction h)
  case Nil
  then show ?case using assms by (simp add: filter_samples_def)
next
  case (Cons v h)
  let ?n = "unat limit" let ?a = "accepted ?n st h" let ?y = "filter_samples limit (rev h) x"
  let ?c = "length (takeWhile (\<lambda>w. w \<noteq> ?a) h)"
  have y: "filter_at ?a ?c ?y" "?c \<le> ?n" and v: "v \<le> 1" using Cons by simp_all
  have step: "filter_samples limit (rev (v # h)) x = snd (debounce limit v ?y)"
    by (simp add: filter_samples_def)
  show ?case
  proof (cases "v = ?a")
    case True
    then have "accepted ?n st (v # h) = ?a" by simp
    with True show ?thesis using debounce_same [OF y(1), of limit] unfolding step by simp
  next
    case False
    have "accepted ?n st (v # h) = (if ?c = ?n then v else ?a)"
      using False takeWhile_at_least [of ?n "\<lambda>w. w \<noteq> ?a" h] y(2) by auto
    with False show ?thesis
      using debounce_other [OF y(1) v False y(2) assms(2)] y(2) unfolding step
      by (simp split: if_splits)
  qed
qed

text \<open>C24. The debounce filter of every scanned input implements its counter-free specification:
  after any sequence of samples, the accepted level is the one the history of samples defines,
  and so changes exactly when the last \<open>limit + 1\<close> samples all differ from it.\<close>

theorem debounce_filter_correct:
  assumes "input_state x \<le> 1" "input_middle_state x = input_state x" "input_confirm_times x = 0"
    and "limit < 255" "list_all (\<lambda>v. v \<le> 1) vs"
  shows "input_state (filter_samples limit vs x) = accepted (unat limit) (input_state x) (rev vs)"
proof -
  have "filter_at (input_state x) 0 x" using assms by (simp add: filter_at_def)
  from filter_history [OF this, of limit "rev vs"] assms(4,5)
  show ?thesis by (simp add: filter_at_def word_less_nat_alt)
qed

theorem debounce_filter_correct_witness:
  "input_state (filter_samples 2 [1, 1, 0, 1, 1] zero_input) = 0 \<and>
   input_state (filter_samples 2 [1, 1, 0, 1, 1, 1] zero_input) = 1"
  using debounce_filter_correct [of zero_input 2 "[1, 1, 0, 1, 1]"]
    debounce_filter_correct [of zero_input 2 "[1, 1, 0, 1, 1, 1]"]
  by (simp add: zero_input_def take_Cons')

text \<open>The downstream input is the same filter with a threshold per level.\<close>

lemma debounce_stream_eq:
  "level \<le> 1 \<Longrightarrow> debounce_stream level x =
     (let (hit, y) = debounce (if level = 1 then 20 else 200) level x in (hit \<and> level = 1, y))"
  by (drule bin_cases) (auto simp: debounce_stream_def debounce_def Let_def)

section \<open>The scan keeps the invariant\<close>

lemma sys_ok_buttons [simp]:
  "sys_ok (t\<lparr>bPhoto1Info := b\<rparr>) = sys_ok t"
  "sys_ok (t\<lparr>bPhoto2Info := b\<rparr>) = sys_ok t"
  "sys_ok (t\<lparr>bPhoto3Info := b\<rparr>) = sys_ok t"
  "sys_ok (t\<lparr>bPhoto4Info := b\<rparr>) = sys_ok t"
  "sys_ok (t\<lparr>bPhoto5Info := b\<rparr>) = sys_ok t"
  "sys_ok (t\<lparr>bResetInfo := b\<rparr>) = sys_ok t"
  "sys_ok (t\<lparr>bStartInfo := b\<rparr>) = sys_ok t"
  "sys_ok (t\<lparr>bStopInfo := b\<rparr>) = sys_ok t"
  "sys_ok (t\<lparr>bStreamInfo := b\<rparr>) = sys_ok t"
  "sys_ok (t\<lparr>bEmergencyInfo := b\<rparr>) = sys_ok t"
  by (simp_all add: sys_defs)

lemma good_buttons:
  "good s t \<Longrightarrow> good s (t\<lparr>bPhoto1Info := b\<rparr>)" "good s t \<Longrightarrow> good s (t\<lparr>bPhoto2Info := b\<rparr>)"
  "good s t \<Longrightarrow> good s (t\<lparr>bPhoto3Info := b\<rparr>)" "good s t \<Longrightarrow> good s (t\<lparr>bPhoto4Info := b\<rparr>)"
  "good s t \<Longrightarrow> good s (t\<lparr>bPhoto5Info := b\<rparr>)" "good s t \<Longrightarrow> good s (t\<lparr>bResetInfo := b\<rparr>)"
  "good s t \<Longrightarrow> good s (t\<lparr>bStartInfo := b\<rparr>)" "good s t \<Longrightarrow> good s (t\<lparr>bStopInfo := b\<rparr>)"
  "good s t \<Longrightarrow> good s (t\<lparr>bStreamInfo := b\<rparr>)"
  by (simp_all add: good_def stable_def)

lemma good_sys_ok: "good s t \<Longrightarrow> sys_ok t"
  by (simp add: good_def)

lemma good_call: "good s t \<Longrightarrow> (sys_ok t \<Longrightarrow> returns (f t) (good t)) \<Longrightarrow> returns (f t) (good s)"
  by (rule returns_good_step) (auto simp: good_def)

lemma scan_reset_good: "sys_ok s \<Longrightarrow> returns (scan_reset level s) (good s)"
  by (auto simp: scan_reset_def Let_def split_beta
      intro: good_call [OF _ Reset_Ctrl_good] good_buttons(6) [OF good_refl])

lemma Linkage_photo_good: "sys_ok s \<Longrightarrow> unat k < 9 \<Longrightarrow> returns (Linkage_Stop_Photo_Ctrl_Handle k s) (good s)"
  by (rule linkage_good) (auto intro: linkage_photo sys_okD)

lemma Linkage_extra_good:
  "sys_ok s \<Longrightarrow> returns (Linkage_stream_extra_signal (ucast (Belt_Number (user_paras_local s) - 1)) f s) (good s)"
  by (rule linkage_good) (auto intro: linkage_extra sys_okD)

lemma scan_photo_good:
  assumes "sys_ok s" "unat k < 9" "\<And>t b. good s t \<Longrightarrow> good s (put b t)"
  shows "returns (scan_photo get put k level s) (good s)"
proof -
  have link: "returns (Linkage_Stop_Photo_Ctrl_Handle k t) (good s)" if "good s t" for t
    using that by (rule good_call) (rule Linkage_photo_good [OF _ assms(2)])
  show ?thesis
    unfolding scan_photo_def Let_def split_beta
    by (rule returns_bind [where P = "good s"]) (auto intro!: link assms(3) good_refl assms(1))
qed

lemma scan_photos_good:
  assumes "sys_ok s"
  shows "returns (scan_photo1 level s) (good s)" "returns (scan_photo2 level s) (good s)"
    "returns (scan_photo3 level s) (good s)" "returns (scan_photo4 level s) (good s)"
    "returns (scan_photo5 level s) (good s)"
  unfolding scan_photo1_def scan_photo2_def scan_photo3_def scan_photo4_def scan_photo5_def
  by (rule scan_photo_good [OF assms]; simp add: good_buttons)+

lemma start_cmd_good: "sys_ok s \<Longrightarrow> returns (can_bus_send_start_cmd cmd s) (good s)"
  using send_start_cmd_eq [OF sys_okD(3)] can_message_good [of s "[cmd]"] by simp

lemma speed_and_cmd_good:
  assumes "good s t"
  shows "returns (do { t1 \<leftarrow> Speed_Ctrl_Process g t; can_bus_send_start_cmd c t1 }) (good s)"
proof (rule returns_bind [where P = "good s"])
  show "returns (Speed_Ctrl_Process g t) (good s)"
    using assms by (rule good_call) (rule Speed_Ctrl_Process_good)
  show "returns (can_bus_send_start_cmd c u) (good s)" if "good s u" for u
    using that by (rule good_call) (rule start_cmd_good)
qed

lemma scan_start_stop_good:
  assumes "sys_ok s"
  shows "returns (scan_start level s) (good s)" "returns (scan_stop level s) (good s)"
  using assms by (auto simp: scan_start_def scan_stop_def Let_def split_beta
      intro!: speed_and_cmd_good good_buttons good_refl)

lemma scan_stream_good:
  assumes "sys_ok s"
  shows "returns (scan_stream level s) (good s)"
proof -
  have link: "returns (Linkage_stream_extra_signal (ucast (Belt_Number (user_paras_local t) - 1)) 1 t) (good s)"
    if "good s t" for t
    using that by (rule returns_good_step) (rule Linkage_extra_good, use that in \<open>simp add: good_def\<close>)
  show ?thesis
    unfolding scan_stream_def Let_def split_beta
    by (rule returns_bind [where P = "good s"])
      (intro returns_if link; simp add: good_buttons good_refl assms)+
qed

section \<open>The emergency stop\<close>

text \<open>What a whole scan keeps: \<open>good\<close> without the emergency filter.\<close>

definition scanned :: "fw \<Rightarrow> fw \<Rightarrow> bool" where
  "scanned s t \<longleftrightarrow> sys_ok t \<and> IDR t = IDR s \<and> isHost t = isHost s \<and> local_station t = local_station s \<and>
     user_paras_local t = user_paras_local s \<and> uart_tx t = uart_tx s \<and> sys_reset t = sys_reset s"

text \<open>The emergency filter after a scan, and the queue when it accepted a change.\<close>

definition emergency_scanned :: "u8 \<Rightarrow> fw \<Rightarrow> fw \<Rightarrow> bool" where
  "emergency_scanned level s t \<longleftrightarrow>
     (let (hit, x) = debounce 50 level (input_info (bEmergencyInfo s)) in
      input_info (bEmergencyInfo t) = x \<and>
      (hit \<longrightarrow> uart_nodes t = emergency_nodes (user_paras_local s)))"

lemma emergency_control:
  assumes "sys_ok s"
  shows "returns (Speed_Ctrl_Process EMERGENCY_STOP s)
    (\<lambda>t. good s t \<and> uart_nodes t = emergency_nodes (user_paras_local s))"
proof -
  note b = sys_okD(1,2) [OF assms]
  have "length (emergency_nodes (user_paras_local s)) \<le> 29"
    using belts_okD(2) [OF b(1)] by (simp add: emergency_nodes_def)
  then have "uart_nodes (AddUartNodes (emergency_nodes (user_paras_local s)) (InitUartSendQueue s)) =
      emergency_nodes (user_paras_local s)"
    using b(2) by (simp add: uart_nodes_AddUartNodes)
  then show ?thesis
    using Speed_Ctrl_Process_good [OF assms, of EMERGENCY_STOP]
    by (auto simp: returns_def Speed_Ctrl_Process_eq [OF b(1)])
qed

text \<open>A second emergency command (the repetition every 2000 scans) leaves the same queue.\<close>

lemma scan_emergency_ok:
  assumes "sys_ok s"
  shows "returns (scan_emergency level s) (\<lambda>t. scanned s t \<and> emergency_scanned level s t)"
proof -
  obtain hit x where d: "debounce 50 level (input_info (bEmergencyInfo s)) = (hit, x)" by fastforce
  then have d': "debounce 50 level (input_info ((bEmergencyInfo s)\<lparr>trig_cnt := n\<rparr>)) = (hit, x)" for n
    by simp
  define P where "P t \<longleftrightarrow> scanned s t \<and> input_info (bEmergencyInfo t) = x \<and>
      (hit \<longrightarrow> uart_nodes t = emergency_nodes (user_paras_local s))" for t
  have P_upd: "P (t\<lparr>bEmergencyInfo := (bEmergencyInfo t)\<lparr>trig_cnt := n\<rparr>\<rparr>)" if "P t" for t n
    using that by (simp add: P_def scanned_def)
  have stop: "returns (Speed_Ctrl_Process EMERGENCY_STOP t) P"
    if "scanned s t" "input_info (bEmergencyInfo t) = x" for t
  proof -
    have "sys_ok t" using that(1) by (simp add: scanned_def)
    from emergency_control [OF this] show ?thesis
      by (rule returns_mono) (use that in \<open>auto simp: P_def scanned_def good_def stable_def\<close>)
  qed
  let ?s1 = "s\<lparr>bEmergencyInfo := set_info x ((bEmergencyInfo s)\<lparr>trig_cnt := trig_cnt (bEmergencyInfo s) + 1\<rparr>)\<rparr>"
  have s1: "scanned s ?s1" "input_info (bEmergencyInfo ?s1) = x"
    using assms by (simp_all add: scanned_def set_info_def)
  have "returns (scan_emergency level s) P"
    unfolding scan_emergency_def Let_def d' prod.case
  proof (rule returns_bind [where P = P], goal_cases)
    case 1
    show ?case using stop [OF s1] s1 by (cases hit) (simp_all add: P_def)
  next
    case (2 t)
    then show ?case using stop [of "t\<lparr>bEmergencyInfo := (bEmergencyInfo t)\<lparr>trig_cnt := 0\<rparr>\<rparr>"] P_upd [OF 2]
      by (auto simp: P_def)
  qed
  then show ?thesis by (rule returns_mono) (simp add: P_def emergency_scanned_def d)
qed

lemma InputScanProc_ok:
  assumes "sys_ok s"
  shows "returns (InputScanProc s) (\<lambda>t. scanned s t \<and> emergency_scanned (B_EMERGENCY_IN_STATE s) s t)"
  unfolding InputScanProc_def Let_def
proof (intro returns_bind [where P = "good s"])
  show "returns (scan_reset l s) (good s)" for l using assms by (rule scan_reset_good)
  show "returns (scan_photo1 l t) (good s)" "returns (scan_photo2 l t) (good s)"
    "returns (scan_photo3 l t) (good s)" "returns (scan_photo4 l t) (good s)"
    "returns (scan_photo5 l t) (good s)" "returns (scan_start l t) (good s)"
    "returns (scan_stop l t) (good s)" "returns (scan_stream l t) (good s)" if "good s t" for l t
    using that by (auto intro!: returns_good_step [OF that] scan_photos_good scan_start_stop_good
        scan_stream_good dest: good_sys_ok)
  show "returns (scan_emergency (B_EMERGENCY_IN_STATE s) t)
      (\<lambda>u. scanned s u \<and> emergency_scanned (B_EMERGENCY_IN_STATE s) s u)" if "good s t" for t
    using scan_emergency_ok [OF good_sys_ok [OF that], of "B_EMERGENCY_IN_STATE s"]
    by (rule returns_mono)
      (use that in \<open>auto simp: scanned_def emergency_scanned_def good_def stable_def\<close>)
qed

lemma level_from_IDR: "IDR t = IDR s \<Longrightarrow> B_EMERGENCY_IN_STATE t = B_EMERGENCY_IN_STATE s"
  by (simp add: B_EMERGENCY_IN_STATE_def input_bit_def GPIO_ReadInputDataBit_def)

end
