(* ===== verification/Modbus.thy ===== *)
theory Modbus
  imports Crc Inputs
begin

text \<open>
  modbus_rtu.c without its checksum (Crc), and the UART interrupt: the firmware is the Modbus
  master of the RS-485 line and the inverters are the slaves. One command at a time is taken
  from the UART queue into \<open>comm_node\<close>, sent when its interval has passed, and finished by
  an answer or by the last time-out.

  Every byte given to the UART is recorded in \<open>uart_tx\<close> with the level of the pin that
  switches the RS-485 driver. The wait for the end of a transmission
  (\<open>while (USART_GetFlagStatus(USART1, USART_FLAG_TC) == RESET)\<close>) has no effect on the
  state; the peripheral is taken to finish. A store behind the end of a buffer is undefined.
\<close>

section \<open>The UART\<close>

definition USART_SendData :: "u16 \<Rightarrow> fw \<Rightarrow> fw" where
  "USART_SendData Data s = s\<lparr>uart_tx := uart_tx s @ [(bit (ODR s GPIOA) 11, ucast (Data AND 0x01FF))]\<rparr>"

definition USART_ReceiveData :: "u16 \<Rightarrow> u16" where
  "USART_ReceiveData DR = DR AND 0x01FF"

text \<open>The receive interrupt, with the content of the data register.\<close>

definition USART1_IRQHandler :: "u16 \<Rightarrow> fw \<Rightarrow> fw option" where
  "USART1_IRQHandler DR s =
     (if uart1_commu_state s = RECV_DATA then do {
        let s1 = s\<lparr>uart1_tmr := 5\<rparr>;
        b \<leftarrow> upd (uart1_recv_buff s1) (unat (uart1_recv_count s1)) (ucast (USART_ReceiveData DR));
        let s2 = s1\<lparr>uart1_recv_buff := b\<rparr>;
        Some (if unat (uart1_recv_count s2) < UART1_BUFF_SIZE
              then s2\<lparr>uart1_recv_count := uart1_recv_count s2 + 1\<rparr> else s2)
      } else Some s)"

definition uart_recv_timeout :: "fw \<Rightarrow> fw" where
  "uart_recv_timeout s =
     (let s1 = (if uart1_tmr s \<noteq> 0 then
                  let t = s\<lparr>uart1_tmr := uart1_tmr s - 1\<rparr> in
                  if uart1_tmr t = 0 then t\<lparr>uart1_commu_state := RECV_DATA_END\<rparr> else t
                else s)
      in if comm_interval (comm_node s1) \<noteq> 0 then
           let t = s1\<lparr>comm_node := (comm_node s1)\<lparr>comm_interval := comm_interval (comm_node s1) - 1\<rparr>\<rparr> in
           if comm_interval (comm_node t) = 0 then t\<lparr>uart1_commu_state := SEND_DATA\<rparr> else t
         else s1)"

definition uart1_send :: "fw \<Rightarrow> fw option" where
  "uart1_send s = do {
     s1 \<leftarrow> for_up 0 (unat (uart1_send_count s))
       (\<lambda>i t. do { b \<leftarrow> idx (uart1_send_buff t) i; Some (USART_SendData (ucast b) t) }) (UART1_TX_485 s);
     Some ((UART1_RX_485 s1)\<lparr>uart1_commu_state := RECV_DATA, uart1_recv_count := 0, uart1_tmr := 50\<rparr>)
   }"

section \<open>Requests\<close>

definition put :: "nat \<Rightarrow> u8 \<Rightarrow> fw \<Rightarrow> fw option" where
  "put k v s = do { b \<leftarrow> upd (uart1_send_buff s) k v; Some (s\<lparr>uart1_send_buff := b\<rparr>) }"

definition Modbus_RTU_Write_Single_Reg_Cmd :: "u16 \<Rightarrow> u16 \<Rightarrow> fw \<Rightarrow> fw option" where
  "Modbus_RTU_Write_Single_Reg_Cmd reg_addr data s = do {
     s \<leftarrow> put 0 0x01 s;
     s \<leftarrow> put 1 0x06 s;
     s \<leftarrow> put 2 (hi8 reg_addr) s;
     s \<leftarrow> put 3 (lo8 reg_addr) s;
     s \<leftarrow> put 4 (hi8 data) s;
     s \<leftarrow> put 5 (lo8 data) s;
     crc \<leftarrow> get_CRC (uart1_send_buff s) 6;
     s \<leftarrow> put 6 (hi8 crc) s;
     s \<leftarrow> put 7 (lo8 crc) s;
     uart1_send (s\<lparr>uart1_send_count := 8\<rparr>)
   }"

definition Modbus_RTU_Write_Multi_Reg_Cmd :: "u16 \<Rightarrow> u16 \<Rightarrow> u16 \<Rightarrow> u16 list \<Rightarrow> fw \<Rightarrow> fw option" where
  "Modbus_RTU_Write_Multi_Reg_Cmd station reg_addr reg_num data s = do {
     s \<leftarrow> put 0 (ucast station) s;
     s \<leftarrow> put 1 0x10 s;
     s \<leftarrow> put 2 (hi8 reg_addr) s;
     s \<leftarrow> put 3 (lo8 reg_addr) s;
     s \<leftarrow> put 4 (hi8 reg_num) s;
     s \<leftarrow> put 5 (lo8 reg_num) s;
     s \<leftarrow> put 6 (ucast (reg_num * 2)) s;
     s \<leftarrow> for_u8 reg_num (\<lambda>i t. do {
       d \<leftarrow> idx data i;
       t \<leftarrow> put (7 + i * 2) (hi8 d) t;
       put (8 + i * 2) (lo8 d) t
     }) s;
     let i = unat reg_num;
     crc \<leftarrow> get_CRC (uart1_send_buff s) (7 + i * 2);
     s \<leftarrow> put (7 + i * 2) (hi8 crc) s;
     s \<leftarrow> put (8 + i * 2) (lo8 crc) s;
     uart1_send (s\<lparr>uart1_send_count := of_nat (9 + i * 2)\<rparr>)
   }"

definition Modbus_RTU_Read_Reg_Cmd :: "u16 \<Rightarrow> u16 \<Rightarrow> u16 \<Rightarrow> fw \<Rightarrow> fw option" where
  "Modbus_RTU_Read_Reg_Cmd station reg_addr reg_num s = do {
     s \<leftarrow> put 0 (ucast station) s;
     s \<leftarrow> put 1 0x03 s;
     s \<leftarrow> put 2 (hi8 reg_addr) s;
     s \<leftarrow> put 3 (lo8 reg_addr) s;
     s \<leftarrow> put 4 (hi8 reg_num) s;
     s \<leftarrow> put 5 (lo8 reg_num) s;
     crc \<leftarrow> get_CRC (uart1_send_buff s) 6;
     s \<leftarrow> put 6 (hi8 crc) s;
     s \<leftarrow> put 7 (lo8 crc) s;
     uart1_send (s\<lparr>uart1_send_count := 8\<rparr>)
   }"

text \<open>\<open>inverter_no-1\<close> as an array index; it is \<open>int\<close>, and -1 is outside.\<close>

definition belt_index :: "u16 \<Rightarrow> nat option" where
  "belt_index no = (if no = 0 then None else Some (unat no - 1))"

definition forward :: "BELT_PARAS_T \<Rightarrow> bool" where
  "forward b \<longleftrightarrow> Func_Select_Switch b AND 1 \<noteq> 0"

text \<open>The three registers command, forward speed, reverse speed.\<close>

definition set_speed :: "u16 \<Rightarrow> BELT_PARAS_T \<Rightarrow> u16 \<Rightarrow> u16 list \<Rightarrow> u16 list" where
  "set_speed cmd b v w =
     (if forward b then w[0 := cmd, 1 := v, 2 := 0] else w[0 := cmd, 1 := 0, 2 := v])"

definition emergency_write_data :: "BELT_PARAS_T \<Rightarrow> nat \<Rightarrow> u16 list \<Rightarrow> fw \<Rightarrow> (u16 list \<times> fw) option" where
  "emergency_write_data b k w s = do { v \<leftarrow> idx (stopspeed_default s) k; Some (set_speed 5 b v w, s) }"

text \<open>A speed that is also remembered as the stop speed (gears 1 to 5).\<close>

definition set_gear :: "BELT_PARAS_T \<Rightarrow> nat \<Rightarrow> u16 \<Rightarrow> u16 list \<Rightarrow> fw \<Rightarrow> (u16 list \<times> fw) option" where
  "set_gear b k v w s = do {
     sp \<leftarrow> upd (stopspeed_default s) k v;
     Some (set_speed 1 b v w, s\<lparr>stopspeed_default := sp\<rparr>)
   }"

text \<open>A gear above 6 leaves the array as it was.\<close>

definition gear_write_data :: "u16 \<Rightarrow> BELT_PARAS_T \<Rightarrow> nat \<Rightarrow> u16 list \<Rightarrow> fw \<Rightarrow> (u16 list \<times> fw) option" where
  "gear_write_data gear b k w s =
     (if gear = 0 then do { v \<leftarrow> idx (stopspeed_default s) k; Some (set_speed 5 b v w, s) }
      else if gear = 1 then set_gear b k (Gear_1_Speed_Freq b) w s
      else if gear = 2 then set_gear b k (Gear_2_Speed_Freq b) w s
      else if gear = 3 then set_gear b k (Gear_3_Speed_Freq b) w s
      else if gear = 4 then set_gear b k (Gear_4_Speed_Freq b) w s
      else if gear = 5 then set_gear b k (Gear_5_Speed_Freq b) w s
      else if gear = 6 then Some (set_speed 1 b (Sleep_Mode_Speed_Freq b) w, s)
      else Some (w, s))"

definition speed_set_flag :: "BELT_PARAS_T \<Rightarrow> u16 list \<Rightarrow> fw \<Rightarrow> u8" where
  "speed_set_flag b w s =
     (if input_state (input_info (bEmergencyInfo s)) = 1 \<or> speed_gear (comm_node s) = 0 then 0
      else if forward b then (if w ! 1 = 0 then 0 else 1)
      else (if w ! 2 = 0 then 0 else 1))"

definition comm_send_rw_comand :: "fw \<Rightarrow> fw option" where
  "comm_send_rw_comand s =
     (let node = comm_node s; no = inverter_no node in
      if rw_flag node = 0 then Modbus_RTU_Read_Reg_Cmd no 0x7200 7 s
      else if rw_flag node = 1 then do {
        k \<leftarrow> belt_index no;
        b \<leftarrow> idx (belt_para (user_paras_local s)) k;
        (w, s1) \<leftarrow>
          (if input_state (input_info (bEmergencyInfo s)) = 1
           then emergency_write_data b k (uninit_write_data s) s
           else gear_write_data (speed_gear node) b k (uninit_write_data s) s);
        let w' = w[3 := Func_Select_Switch b AND 1];
        s2 \<leftarrow> Modbus_RTU_Write_Multi_Reg_Cmd no 0x7000 4 w' s1;
        Some (s2\<lparr>g_speed_set_sta := speed_set_flag b w' s2\<rparr>)
      }
      else if rw_flag node = 2
      then Modbus_RTU_Write_Multi_Reg_Cmd no 0x7000 1 ((uninit_write_data s)[0 := 0x8]) s
      else Some s)"

section \<open>Answers\<close>

definition read_regs :: "u8 list \<Rightarrow> u16 list option" where
  "read_regs buf =
     (if 17 \<le> length buf
      then Some (map (\<lambda>i. push_bit 8 (ucast (buf ! (3 + i * 2))) OR ucast (buf ! (4 + i * 2))) [0..<7])
      else None)"

definition run_status_of :: "u16 \<Rightarrow> u8" where
  "run_status_of d0 = (if d0 AND 0xFF = 1 then 1 else 0)"

definition status_update :: "u16 list \<Rightarrow> INVERTER_STATUS_T \<Rightarrow> INVERTER_STATUS_T" where
  "status_update data v =
     v\<lparr>fault_code := (fault_code v AND 2) OR (data ! 0 AND 0xFF00) OR push_bit 4 (ucast (run_status_of (data ! 0)))
          OR push_bit 3 (data ! 1 AND 1) OR push_bit 2 (data ! 5 AND 1),
       input_status := input_status v OR (data ! 6 AND 0x1F),
       line_speed := data ! 2, electric_current := data ! 3, inverter_freq := data ! 4\<rparr>"

definition write_answer_outputs :: "u8 \<Rightarrow> fw \<Rightarrow> fw" where
  "write_answer_outputs b0 s =
     (let v = (if g_speed_set_sta s = 1 then 1 else 0) in
      if b0 = 1 then B_RUN_1_OUT v s
      else if b0 = 2 then B_RUN_2_OUT v s
      else if b0 = 3 then B_RUN_3_OUT v s
      else if b0 = 4 then B_RUN_4_OUT v s
      else if b0 = 5 then B_RUN_5_OUT v s
      else s)"

definition read_answer :: "u8 list \<Rightarrow> fw \<Rightarrow> fw option" where
  "read_answer buf s = do {
     let no = inverter_no (comm_node s);
     data \<leftarrow> read_regs buf;
     k \<leftarrow> belt_index no;
     v \<leftarrow> idx (inverter_status_buffer s) k;
     let run_status = (ucast (drop_bit 4 (fault_code v) AND 1) :: u8);
     s1 \<leftarrow>
       (if run_status \<noteq> run_status_of (data ! 0) \<and> no > 1
        then Linkage_Stream_Ctrl_Handle (ucast (no - 2)) (if run_status = 1 then 0 else 1) s
        else Some s);
     v1 \<leftarrow> idx (inverter_status_buffer s1) k;
     vs \<leftarrow> upd (inverter_status_buffer s1) k (status_update data v1);
     Some (s1\<lparr>inverter_status_buffer := vs\<rparr>)
   }"

definition comm_recv_rw_comand :: "u8 list \<Rightarrow> u16 \<Rightarrow> fw \<Rightarrow> (u8 \<times> fw) option" where
  "comm_recv_rw_comand buf len s =
     (let n = unat len in
      if n < 4 then Some (0, s)
      else do {
        crc_Cal \<leftarrow> get_CRC buf (n - 2);
        c1 \<leftarrow> idx buf (n - 2);
        c2 \<leftarrow> idx buf (n - 1);
        b0 \<leftarrow> idx buf 0;
        b1 \<leftarrow> idx buf 1;
        if crc_Cal \<noteq> push_bit 8 (ucast c1) OR ucast c2 then Some (0, s)
        else if ucast b0 \<noteq> inverter_no (comm_node s) then Some (0, s)
        else if rw_flag (comm_node s) = 0 then
          if b1 \<noteq> 0x03 then Some (0, s)
          else do { s1 \<leftarrow> read_answer buf s; Some (1, s1) }
        else if b1 \<noteq> 0x10 then Some (0, s)
        else Some (1, write_answer_outputs b0 s)
      })"

section \<open>The process\<close>

definition map_fault :: "(u16 \<Rightarrow> u16) \<Rightarrow> fw \<Rightarrow> fw option" where
  "map_fault f s = do {
     k \<leftarrow> belt_index (inverter_no (comm_node s));
     v \<leftarrow> idx (inverter_status_buffer s) k;
     vs \<leftarrow> upd (inverter_status_buffer s) k (v\<lparr>fault_code := f (fault_code v)\<rparr>);
     Some (s\<lparr>inverter_status_buffer := vs\<rparr>)
   }"

definition Modbus_RTU_Comm_Process :: "fw \<Rightarrow> fw option" where
  "Modbus_RTU_Comm_Process s =
     (if comm_busy_flag s = 0 then
        (case GetUartSendDataFromQueue s of
           (None, s1) \<Rightarrow> Some s1
         | (Some node, s1) \<Rightarrow>
             Some (s1\<lparr>comm_node := (if comm_interval node = 0 then node\<lparr>comm_interval := 15\<rparr> else node),
                      comm_busy_flag := 1, uart1_commu_state := SEND_READY\<rparr>))
      else if uart1_commu_state s = SEND_DATA then comm_send_rw_comand s
      else if uart1_commu_state s = RECV_DATA_END then do {
        (ok, s1) \<leftarrow> comm_recv_rw_comand (uart1_recv_buff s) (uart1_recv_count s) s;
        s2 \<leftarrow>
          (if ok \<noteq> 0 then do {
             t \<leftarrow> map_fault (\<lambda>c. c AND NOT 1) s1;
             Some (t\<lparr>comm_busy_flag := 0\<rparr>)
           }
           else if comm_retry (comm_node s1) > 0 then
             Some (s1\<lparr>comm_node := (comm_node s1)\<lparr>comm_retry := comm_retry (comm_node s1) - 1, comm_interval := 20\<rparr>,
                      uart1_commu_state := SEND_READY\<rparr>)
           else do {
             t \<leftarrow> map_fault (\<lambda>c. c OR 1) s1;
             Some (t\<lparr>comm_busy_flag := 0\<rparr>)
           });
        Some (s2\<lparr>uart1_recv_count := 0\<rparr>)
      }
      else Some s)"

section \<open>Frames on the line\<close>

text \<open>A Modbus RTU frame: the checksum follows, low byte first.\<close>

definition rtu_frame :: "u8 list \<Rightarrow> u8 list" where
  "rtu_frame bs = bs @ [lo8 (crc16 bs), hi8 (crc16 bs)]"

definition be_bytes :: "u16 list \<Rightarrow> u8 list" where
  "be_bytes ds = concat (map (\<lambda>d. [hi8 d, lo8 d]) ds)"

definition write_request :: "u16 \<Rightarrow> u16 \<Rightarrow> u16 list \<Rightarrow> u8 list" where
  "write_request no reg ds = [ucast no, 0x10, hi8 reg, lo8 reg, 0, of_nat (length ds), of_nat (2 * length ds)] @ be_bytes ds"

definition read_request :: "u16 \<Rightarrow> u16 \<Rightarrow> u16 \<Rightarrow> u8 list" where
  "read_request no reg n = [ucast no, 0x03, hi8 reg, lo8 reg, hi8 n, lo8 n]"

text \<open>The state with \<open>bs\<close> at the start of the send buffer, and after \<open>bs\<close> has been
  sent.\<close>

definition filled :: "u8 list \<Rightarrow> fw \<Rightarrow> fw" where
  "filled bs s = s\<lparr>uart1_send_buff := bs @ drop (length bs) (uart1_send_buff s)\<rparr>"

definition transmitted :: "u8 list \<Rightarrow> fw \<Rightarrow> fw" where
  "transmitted bs s =
     (UART1_RX_485 ((UART1_TX_485 (filled bs s))\<lparr>uart1_send_count := of_nat (length bs),
         uart_tx := uart_tx s @ map (Pair True) bs\<rparr>))
       \<lparr>uart1_commu_state := RECV_DATA, uart1_recv_count := 0, uart1_tmr := 50\<rparr>"

lemma length_be_bytes [simp]: "length (be_bytes ds) = 2 * length ds"
  by (induction ds) (simp_all add: be_bytes_def)

lemma filled_Nil [simp]: "filled [] s = s"
  by (simp add: filled_def)

lemma length_filled [simp]:
  "length bs \<le> length (uart1_send_buff s) \<Longrightarrow> length (uart1_send_buff (filled bs s)) = length (uart1_send_buff s)"
  by (simp add: filled_def)

lemma put_filled:
  assumes "length (uart1_send_buff s) = 50" "k = length bs" "k < 50"
  shows "put k v (filled bs s) = Some (filled (bs @ [v]) s)"
proof -
  have "(bs @ drop (length bs) (uart1_send_buff s))[length bs := v] =
      (bs @ [v]) @ drop (Suc (length bs)) (uart1_send_buff s)"
    using assms by (simp add: list_update_append flip: Cons_nth_drop_Suc)
  then show ?thesis using assms by (simp add: put_def filled_def upd_def)
qed

lemma crc_bytes:
  assumes "length (uart1_send_buff s) = 50" "n = length bs" "n \<le> 50"
  shows "\<exists>crc. get_CRC (uart1_send_buff (filled bs s)) n = Some crc \<and>
    hi8 crc = lo8 (crc16 bs) \<and> lo8 crc = hi8 (crc16 bs)"
  using assms by (simp add: get_CRC_def CRC_sub_eq filled_def)

lemma USART_SendData_byte [simp]:
  "USART_SendData (ucast (b :: u8)) s = s\<lparr>uart_tx := uart_tx s @ [(bit (ODR s GPIOA) 11, b)]\<rparr>"
proof -
  have "ucast (ucast b AND (0x01FF :: u16)) = b"
  proof -
    have m: "(0x01FF :: u16) = mask 9" by (simp add: mask_eq_exp_minus_1)
    show ?thesis unfolding m by (rule bit_word_eqI) (auto simp: bit_simps simp del: mask_numeral)
  qed
  then show ?thesis by (simp add: USART_SendData_def)
qed

lemma TX_485_fields [simp]:
  "uart1_send_buff (UART1_TX_485 s) = uart1_send_buff s" "uart_tx (UART1_TX_485 s) = uart_tx s"
  "uart1_send_count (UART1_TX_485 s) = uart1_send_count s" "bit (ODR (UART1_TX_485 s) GPIOA) 11"
  by (simp_all add: UART1_TX_485_def GPIO_SetBits_def bit_or_iff bit_GPIO_Pin)

lemma uart1_send_filled:
  assumes "length (uart1_send_buff s) = 50" "length bs \<le> 50"
  shows "uart1_send ((filled bs s)\<lparr>uart1_send_count := of_nat (length bs)\<rparr>) = Some (transmitted bs s)"
proof -
  let ?s = "(filled bs s)\<lparr>uart1_send_count := of_nat (length bs)\<rparr>"
  let ?P = "\<lambda>i t. t = (UART1_TX_485 ?s)\<lparr>uart_tx := uart_tx s @ map (Pair True) (take i bs)\<rparr>"
  have c: "unat (uart1_send_count ?s) = length bs" using assms by (simp add: unat_of_nat)
  have "\<exists>t. for_up 0 (length bs) (\<lambda>i t. do { b \<leftarrow> idx (uart1_send_buff t) i; Some (USART_SendData (ucast b) t) })
      (UART1_TX_485 ?s) = Some t \<and> ?P (length bs) t"
  proof (rule for_up_rule [where P = ?P])
    show "?P 0 (UART1_TX_485 ?s)" by (simp add: filled_def UART1_TX_485_def GPIO_SetBits_def)
    show "\<exists>t'. (do { b \<leftarrow> idx (uart1_send_buff t) i; Some (USART_SendData (ucast b) t) }) = Some t' \<and> ?P (Suc i) t'"
      if "i < length bs" "?P i t" for i t
    proof -
      have "idx (uart1_send_buff t) i = Some (bs ! i)"
        using that assms by (simp add: filled_def idx_def nth_append)
      with that show ?thesis by (simp add: take_Suc_conv_app_nth)
    qed
  qed simp
  then show ?thesis
    unfolding uart1_send_def c transmitted_def
    by (auto simp: UART1_TX_485_def GPIO_SetBits_def UART1_RX_485_def GPIO_ResetBits_def filled_def)
qed

lemma put_first: "length (uart1_send_buff s) = 50 \<Longrightarrow> put 0 v s = Some (filled [v] s)"
  using put_filled [of s 0 "[]"] by simp

text \<open>The tail of every request: append the checksum and send.\<close>

lemma seal_and_send:
  assumes "length (uart1_send_buff s) = 50" "n = length bs" "n \<le> 48" "c = of_nat (n + 2)"
  shows "(do {
     crc \<leftarrow> get_CRC (uart1_send_buff (filled bs s)) n;
     t \<leftarrow> put n (hi8 crc) (filled bs s);
     t \<leftarrow> put (Suc n) (lo8 crc) t;
     uart1_send (t\<lparr>uart1_send_count := c\<rparr>)
   }) = Some (transmitted (rtu_frame bs) s)"
proof -
  obtain crc where crc: "get_CRC (uart1_send_buff (filled bs s)) n = Some crc"
    "hi8 crc = lo8 (crc16 bs)" "lo8 crc = hi8 (crc16 bs)"
    using crc_bytes [OF assms(1,2)] assms(3) by auto
  have "uart1_send ((filled (rtu_frame bs) s)\<lparr>uart1_send_count := c\<rparr>) = Some (transmitted (rtu_frame bs) s)"
    using uart1_send_filled [OF assms(1), of "rtu_frame bs"] assms(2,3,4) by (simp add: rtu_frame_def)
  then show ?thesis
    using crc assms(1-3) by (simp add: put_filled rtu_frame_def)
qed

lemma read_request_sent:
  assumes "length (uart1_send_buff s) = 50"
  shows "Modbus_RTU_Read_Reg_Cmd no reg n s = Some (transmitted (rtu_frame (read_request no reg n)) s)"
  using assms seal_and_send [OF assms, of 6 "read_request no reg n" 8]
  by (simp add: Modbus_RTU_Read_Reg_Cmd_def put_first put_filled read_request_def)

lemma single_request_sent:
  assumes "length (uart1_send_buff s) = 50"
  shows "Modbus_RTU_Write_Single_Reg_Cmd reg d s =
    Some (transmitted (rtu_frame [0x01, 0x06, hi8 reg, lo8 reg, hi8 d, lo8 d]) s)"
  using assms seal_and_send [OF assms, of 6 "[0x01, 0x06, hi8 reg, lo8 reg, hi8 d, lo8 d]" 8]
  by (simp add: Modbus_RTU_Write_Single_Reg_Cmd_def put_first put_filled)

lemma be_bytes_Suc: "i < length ds \<Longrightarrow> be_bytes (take (Suc i) ds) = be_bytes (take i ds) @ [hi8 (ds ! i), lo8 (ds ! i)]"
  by (simp add: be_bytes_def take_Suc_conv_app_nth)

lemma put_registers:
  assumes "length (uart1_send_buff s) = 50" "length bs = 7" "length ds \<le> 20"
  shows "for_up 0 (length ds) (\<lambda>i t. do {
       d \<leftarrow> idx ds i;
       t \<leftarrow> put (7 + i * 2) (hi8 d) t;
       put (8 + i * 2) (lo8 d) t
     }) (filled bs s) = Some (filled (bs @ be_bytes ds) s)"
proof -
  let ?P = "\<lambda>i t. t = filled (bs @ be_bytes (take i ds)) s"
  let ?body = "\<lambda>i t. do { d \<leftarrow> idx ds i; t \<leftarrow> put (7 + i * 2) (hi8 d) t; put (8 + i * 2) (lo8 d) t }"
  have "\<exists>t. for_up 0 (length ds) ?body (filled bs s) = Some t \<and> ?P (length ds) t"
  proof (rule for_up_rule [where P = ?P])
    show "?P 0 (filled bs s)" by (simp add: be_bytes_def)
    show "\<exists>t'. ?body i t = Some t' \<and> ?P (Suc i) t'" if "i < length ds" "?P i t" for i t
      using that assms by (simp add: idx_def put_filled be_bytes_Suc)
  qed simp
  then show ?thesis by auto
qed

lemma write_request_sent:
  assumes "length (uart1_send_buff s) = 50" "unat n = length ds" "length ds \<le> 20" "take (length ds) data = ds"
  shows "Modbus_RTU_Write_Multi_Reg_Cmd no reg n data s =
    Some (transmitted (rtu_frame (write_request no reg ds)) s)"
proof -
  have n2: "unat (n * 2) = 2 * length ds" using assms(2,3) by (simp add: unat_word_ariths)
  have small: "hi8 n = 0" "lo8 n = of_nat (length ds)" "ucast (n * 2) = (of_nat (2 * length ds) :: u8)"
    using assms(2,3) by (simp add: hi8_small, metis assms(2) lo8_ucast of_nat_unat, metis n2 of_nat_unat)
  have le: "n \<le> 255" using assms(2,3) by (simp add: word_le_nat_alt)
  have body: "for_up 0 (length ds) (\<lambda>i t. do { d \<leftarrow> idx data i; t \<leftarrow> put (7 + i * 2) (hi8 d) t; put (8 + i * 2) (lo8 d) t }) t =
      for_up 0 (length ds) (\<lambda>i t. do { d \<leftarrow> idx ds i; t \<leftarrow> put (7 + i * 2) (hi8 d) t; put (8 + i * 2) (lo8 d) t }) t" for t
  proof (rule for_up_cong)
    fix i t assume "i < length ds"
    then have "idx data i = idx ds i"
      using assms(4) by (metis idx_Some length_take min_less_iff_conj nth_take)
    then show "(do { d \<leftarrow> idx data i; t \<leftarrow> put (7 + i * 2) (hi8 d) t; put (8 + i * 2) (lo8 d) t }) =
        (do { d \<leftarrow> idx ds i; t \<leftarrow> put (7 + i * 2) (hi8 d) t; put (8 + i * 2) (lo8 d) t })" by simp
  qed
  show ?thesis
    using assms(1-3) seal_and_send [OF assms(1), of "7 + length ds * 2" "write_request no reg ds" "of_nat (9 + length ds * 2)"]
      put_registers [OF assms(1), of _ ds]
    by (simp add: Modbus_RTU_Write_Multi_Reg_Cmd_def put_first put_filled for_u8_def le body small Let_def write_request_def)
qed

section \<open>Commands to an inverter\<close>

text \<open>The registers a speed command writes: command, forward speed, reverse speed, direction.\<close>

definition speed_regs :: "u16 \<Rightarrow> BELT_PARAS_T \<Rightarrow> u16 \<Rightarrow> u16 list" where
  "speed_regs cmd b v = (if forward b then [cmd, v, 0, 1] else [cmd, 0, v, 0])"

definition gear_speed :: "u16 \<Rightarrow> BELT_PARAS_T \<Rightarrow> u16" where
  "gear_speed g b =
     (if g = 1 then Gear_1_Speed_Freq b else if g = 2 then Gear_2_Speed_Freq b
      else if g = 3 then Gear_3_Speed_Freq b else if g = 4 then Gear_4_Speed_Freq b
      else if g = 5 then Gear_5_Speed_Freq b else Sleep_Mode_Speed_Freq b)"

abbreviation emergency_active :: "fw \<Rightarrow> bool" where
  "emergency_active s \<equiv> input_state (input_info (bEmergencyInfo s)) = 1"

abbreviation node_belt :: "fw \<Rightarrow> nat" where
  "node_belt s \<equiv> unat (inverter_no (comm_node s)) - 1"

lemma node_belt_less: "node_ok (comm_node s) \<Longrightarrow> node_belt s < 10"
  by (simp add: node_ok_def word_le_nat_alt) arith

lemma belt_index_node: "node_ok (comm_node s) \<Longrightarrow> belt_index (inverter_no (comm_node s)) = Some (node_belt s)"
  by (auto simp: node_ok_def belt_index_def)

lemma direction_bit: "Func_Select_Switch b AND 1 = (if forward b then 1 else 0)"
  by (simp add: forward_def and_one_eq)

lemma four_regs: "length (w :: u16 list) = 4 \<Longrightarrow> \<exists>a b c d. w = [a, b, c, d]"
  by (simp add: length_Suc_conv numeral_eq_Suc) blast

lemma set_speed_regs:
  "length w = 4 \<Longrightarrow> (set_speed cmd b v w)[3 := Func_Select_Switch b AND 1] = speed_regs cmd b v"
  by (auto dest!: four_regs simp: set_speed_def speed_regs_def direction_bit numeral_3_eq_3 numeral_2_eq_2)

lemma transmitted_fields [simp]:
  "bEmergencyInfo (transmitted bs s) = bEmergencyInfo s" "comm_node (transmitted bs s) = comm_node s"
  "stopspeed_default (transmitted bs s) = stopspeed_default s"
  "uart_tx (transmitted bs s) = uart_tx s @ map (Pair True) bs"
  "uart1_commu_state (transmitted bs s) = RECV_DATA" "uart1_recv_count (transmitted bs s) = 0"
  "uart1_tmr (transmitted bs s) = 50" "comm_busy_flag (transmitted bs s) = comm_busy_flag s"
  "\<not> pin_level GPIOA 11 (transmitted bs s)"
  by (simp_all add: transmitted_def filled_def UART1_TX_485_def UART1_RX_485_def GPIO_SetBits_def
      GPIO_ResetBits_def pin_level_def bit_and_iff bit_not_iff bit_GPIO_Pin)

text \<open>What a write command for belt \<open>b\<close> puts into the registers, and the stop speeds it
  leaves: the emergency input overrides the gear of the command.\<close>

definition command_regs :: "fw \<Rightarrow> u16 list" where
  "command_regs s =
     (let g = speed_gear (comm_node s); k = node_belt s; b = belt_para (user_paras_local s) ! k in
      if emergency_active s \<or> g = 0 then speed_regs 5 b (stopspeed_default s ! k)
      else if g \<le> 6 then speed_regs 1 b (gear_speed g b)
      else take 3 (uninit_write_data s) @ [if forward b then 1 else 0])"

definition command_stop_speeds :: "fw \<Rightarrow> u16 list" where
  "command_stop_speeds s =
     (let g = speed_gear (comm_node s); k = node_belt s; b = belt_para (user_paras_local s) ! k in
      if emergency_active s \<or> g = 0 \<or> g > 5 then stopspeed_default s
      else (stopspeed_default s)[k := gear_speed g b])"

lemma length_command_regs: "length (uninit_write_data s) = 4 \<Longrightarrow> length (command_regs s) = 4"
  by (simp add: command_regs_def speed_regs_def Let_def)

lemma gear_cases: "(g :: u16) \<le> 6 \<Longrightarrow> g = 0 \<or> g = 1 \<or> g = 2 \<or> g = 3 \<or> g = 4 \<or> g = 5 \<or> g = 6"
proof -
  assume "g \<le> 6"
  then have "unat g \<le> 6" by (simp add: word_le_nat_alt)
  then have "unat g = 0 \<or> unat g = 1 \<or> unat g = 2 \<or> unat g = 3 \<or> unat g = 4 \<or> unat g = 5 \<or> unat g = 6"
    by arith
  then show ?thesis by (simp add: word_unat_eq_iff)
qed

lemma write_data_regs:
  assumes "length (stopspeed_default s) = 10" "length (uninit_write_data s) = 4" "node_belt s < 10"
    and "b = belt_para (user_paras_local s) ! node_belt s"
  shows "\<exists>w. (if emergency_active s then emergency_write_data b (node_belt s) (uninit_write_data s) s
      else gear_write_data (speed_gear (comm_node s)) b (node_belt s) (uninit_write_data s) s) =
        Some (w, s\<lparr>stopspeed_default := command_stop_speeds s\<rparr>) \<and>
      w[3 := Func_Select_Switch b AND 1] = command_regs s"
proof (cases "emergency_active s \<or> speed_gear (comm_node s) \<le> 6")
  case True
  have i: "idx (stopspeed_default s) (node_belt s) = Some (stopspeed_default s ! node_belt s)"
    "upd (stopspeed_default s) (node_belt s) v = Some ((stopspeed_default s)[node_belt s := v])" for v
    using assms(1,3) by (simp_all add: idx_def upd_def)
  show ?thesis
  proof (cases "emergency_active s")
    case True
    then show ?thesis
      using i assms(2,4) by (simp add: emergency_write_data_def command_regs_def command_stop_speeds_def Let_def
          set_speed_regs)
  next
    case False
    with True gear_cases have "speed_gear (comm_node s) \<in> {0, 1, 2, 3, 4, 5, 6}" by blast
    with False show ?thesis
      using i assms(2,4) by (auto simp: gear_write_data_def set_gear_def command_regs_def command_stop_speeds_def
          Let_def gear_speed_def set_speed_regs)
  qed
next
  case False
  then have "speed_gear (comm_node s) \<notin> {0, 1, 2, 3, 4, 5, 6}" "5 < speed_gear (comm_node s)"
    by (auto simp: not_le elim: order.strict_trans [rotated])
  with False show ?thesis
    using assms(2,4) four_regs [OF assms(2)]
    by (auto simp: gear_write_data_def command_regs_def command_stop_speeds_def Let_def direction_bit numeral_3_eq_3)
qed

definition command_flag :: "fw \<Rightarrow> u8" where
  "command_flag s =
     (let b = belt_para (user_paras_local s) ! node_belt s in
      if emergency_active s \<or> speed_gear (comm_node s) = 0 \<or> command_regs s ! (if forward b then 1 else 2) = 0
      then 0 else 1)"

lemma comm_send_write_eq:
  assumes "sys_ok s" "node_ok (comm_node s)" "rw_flag (comm_node s) = 1"
  shows "comm_send_rw_comand s =
    Some ((transmitted (rtu_frame (write_request (inverter_no (comm_node s)) 0x7000 (command_regs s)))
      (s\<lparr>stopspeed_default := command_stop_speeds s\<rparr>))\<lparr>g_speed_set_sta := command_flag s\<rparr>)"
proof -
  define k b e where "k = node_belt s" and "b = belt_para (user_paras_local s) ! k" and
    "e = (if emergency_active s then emergency_write_data b k (uninit_write_data s) s
      else gear_write_data (speed_gear (comm_node s)) b k (uninit_write_data s) s)"
  have len: "length (stopspeed_default s) = 10" "length (uninit_write_data s) = 4"
    "length (uart1_send_buff s) = 50" "length (belt_para (user_paras_local s)) = 10"
    using assms(1) by (simp_all add: sys_defs wf_paras_def)
  have k: "node_belt s < 10" using node_belt_less [OF assms(2)] .
  obtain w where w: "e = Some (w, s\<lparr>stopspeed_default := command_stop_speeds s\<rparr>)"
    "w[3 := Func_Select_Switch b AND 1] = command_regs s"
    unfolding e_def b_def k_def using write_data_regs [OF len(1,2) k refl] by auto
  have ib: "belt_index (inverter_no (comm_node s)) = Some k" "idx (belt_para (user_paras_local s)) k = Some b"
    using k len(4) belt_index_node [OF assms(2)] unfolding k_def b_def by (simp_all only: idx_Some)
  have send: "Modbus_RTU_Write_Multi_Reg_Cmd (inverter_no (comm_node s)) 0x7000 4 (command_regs s) t =
      Some (transmitted (rtu_frame (write_request (inverter_no (comm_node s)) 0x7000 (command_regs s))) t)"
    if "length (uart1_send_buff t) = 50" for t
    by (rule write_request_sent [OF that]) (simp_all add: length_command_regs [OF len(2)])
  have flag: "speed_set_flag b (command_regs s) t = command_flag s"
    if "bEmergencyInfo t = bEmergencyInfo s" "comm_node t = comm_node s" for t
    using that by (simp add: speed_set_flag_def command_flag_def b_def k_def Let_def)
  have "comm_send_rw_comand s = (do {
      (w, s1) \<leftarrow> e;
      let w' = w[3 := Func_Select_Switch b AND 1];
      s2 \<leftarrow> Modbus_RTU_Write_Multi_Reg_Cmd (inverter_no (comm_node s)) 0x7000 4 w' s1;
      Some (s2\<lparr>g_speed_set_sta := speed_set_flag b w' s2\<rparr>) })"
    unfolding e_def comm_send_rw_comand_def using assms(3) ib by (simp add: Let_def split del: if_split)
  then show ?thesis using len by (simp add: w send flag Let_def)
qed

text \<open>C25. A write command sends exactly one well-formed Modbus frame (function 0x10, four
  registers from 0x7000, CRC-16 low byte first) with the RS-485 driver switched on for every
  byte and off afterwards, and then listens for the answer: the registers are the stop command
  for gear 0, the run command with the speed of the gear in the belt's direction for gears 1 to
  6, and the speed of gears 1 to 5 becomes the belt's stop speed.\<close>

theorem write_command_on_the_line:
  assumes "sys_ok s" "node_ok (comm_node s)" "rw_flag (comm_node s) = 1"
    and "\<not> emergency_active s" "speed_gear (comm_node s) \<le> 6"
  shows "\<exists>s'. comm_send_rw_comand s = Some s' \<and>
    (let no = inverter_no (comm_node s); g = speed_gear (comm_node s); k = unat no - 1;
         b = belt_para (user_paras_local s) ! k;
         regs = (if g = 0 then speed_regs 5 b (stopspeed_default s ! k) else speed_regs 1 b (gear_speed g b))
     in uart_tx s' = uart_tx s @ map (Pair True) (rtu_frame (write_request no 0x7000 regs)) \<and>
        \<not> pin_level GPIOA 11 s' \<and> uart1_commu_state s' = RECV_DATA \<and> uart1_recv_count s' = 0 \<and>
        stopspeed_default s' =
          (if 1 \<le> g \<and> g \<le> 5 then (stopspeed_default s)[k := gear_speed g b] else stopspeed_default s) \<and>
        g_speed_set_sta s' = (if g \<noteq> 0 \<and> gear_speed g b \<noteq> 0 then 1 else 0))"
proof -
  have one: "1 \<le> g \<longleftrightarrow> g \<noteq> 0" for g :: u16 by (simp add: word_le_nat_alt word_unat_eq_iff) arith
  have pin: "pin_level GPIOA 11 (t\<lparr>g_speed_set_sta := x\<rparr>) = pin_level GPIOA 11 t" for t x
    by (simp add: pin_level_def)
  have stop: "command_stop_speeds s = (if 1 \<le> speed_gear (comm_node s) \<and> speed_gear (comm_node s) \<le> 5
      then (stopspeed_default s)[node_belt s := gear_speed (speed_gear (comm_node s))
        (belt_para (user_paras_local s) ! node_belt s)] else stopspeed_default s)"
    using assms(4) unfolding command_stop_speeds_def one Let_def by (auto simp: not_le)
  show ?thesis
    using assms(4,5)
    by (simp add: comm_send_write_eq [OF assms(1-3)] Let_def stop command_regs_def command_flag_def pin speed_regs_def)
qed

definition demo_write :: "u16 \<Rightarrow> fw" where
  "demo_write g = demo\<lparr>comm_node := write_node 2 g 10, comm_busy_flag := 1, uart1_commu_state := SEND_DATA\<rparr>"

lemma zero_paras_fields: "wf_paras zero_paras" "Belt_Number zero_paras = 0"
  by (simp_all add: zero_paras_def) (simp add: u16s_paras_def)

lemma sys_ok_demo: "sys_ok demo"
  using demo_ok(1,2) can_ok_demo(1)
  by (simp add: sys_ok_def modbus_ok_def net_ok_def can_ok_demo(2))
    (simp add: demo_def queues_ready_def power_on_def InitModuleStatusQueue_def
      InitSendMsgQueue_def InitCanSendQueue_def InitUartSendQueue_def zero_client_def zero_paras_fields)
lemma demo_write_ok: "sys_ok (demo_write g)" "node_ok (comm_node (demo_write g))" "\<not> emergency_active (demo_write g)"
    "rw_flag (comm_node (demo_write g)) = 1" "speed_gear (comm_node (demo_write g)) = g"
    "inverter_no (comm_node (demo_write g)) = 2" "user_paras_local (demo_write g) = demo_paras"
    "stopspeed_default (demo_write g) = replicate 10 0" "uart_tx (demo_write g) = []"
    "uninit_write_data (demo_write g) = replicate 4 0"
proof -
  show n: "node_ok (comm_node (demo_write g))" by (simp add: demo_write_def write_node_def node_ok_def)
  with sys_ok_demo show "sys_ok (demo_write g)" by (simp add: demo_write_def sys_defs)
qed (simp_all add: demo_write_def write_node_def demo_def power_on_def queues_ready_def InitModuleStatusQueue_def
      InitSendMsgQueue_def InitCanSendQueue_def InitUartSendQueue_def zero_button_def zero_input_def)

theorem write_command_on_the_line_witness:
  "\<exists>s'. comm_send_rw_comand (demo_write 2) = Some s' \<and>
     uart_tx s' = map (Pair True) (rtu_frame [2, 0x10, 0x70, 0, 0, 4, 8, 0, 1, 0x07, 0xD0, 0, 0, 0, 1]) \<and>
     stopspeed_default s' ! 1 = 2000"
  using write_command_on_the_line [of "demo_write 2"]
  by (auto simp: demo_write_ok Let_def demo_paras_def demo_belt_def speed_regs_def forward_def gear_speed_def
      write_request_def be_bytes_def hi8_def lo8_def word_le_nat_alt)

text \<open>While the emergency input is accepted as active, every write command that is sent,
  whatever gear it asks for, is the stop command (5); no stop speed changes, and the belt will
  be reported as stopped.\<close>

lemma emergency_overrides_gear:
  assumes "sys_ok s" "node_ok (comm_node s)" "rw_flag (comm_node s) = 1" "emergency_active s"
  shows "\<exists>s'. comm_send_rw_comand s = Some s' \<and>
    (let no = inverter_no (comm_node s); k = unat no - 1; b = belt_para (user_paras_local s) ! k
     in uart_tx s' = uart_tx s @ map (Pair True) (rtu_frame (write_request no 0x7000
          (speed_regs 5 b (stopspeed_default s ! k)))) \<and>
        stopspeed_default s' = stopspeed_default s \<and> g_speed_set_sta s' = 0)"
  using assms(4) by (simp add: comm_send_write_eq [OF assms(1-3)] Let_def command_regs_def
      command_stop_speeds_def command_flag_def)

definition demo_emergency :: "u16 \<Rightarrow> fw" where
  "demo_emergency g = (demo_write g)\<lparr>bEmergencyInfo := zero_button\<lparr>input_info := zero_input\<lparr>input_state := 1\<rparr>\<rparr>\<rparr>"

text \<open>C33. A gear above 6, which no check of the firmware excludes, sends a run of whatever the
  local array contains: the first three registers are uninitialised.\<close>

theorem bad_gear_sends_garbage:
  assumes "sys_ok s" "node_ok (comm_node s)" "rw_flag (comm_node s) = 1"
    and "\<not> emergency_active s" "speed_gear (comm_node s) > 6"
  shows "\<exists>s'. comm_send_rw_comand s = Some s' \<and>
    uart_tx s' = uart_tx s @ map (Pair True) (rtu_frame (write_request (inverter_no (comm_node s)) 0x7000
      (take 3 (uninit_write_data s) @
       [Func_Select_Switch (belt_para (user_paras_local s) ! (unat (inverter_no (comm_node s)) - 1)) AND 1])))"
proof -
  have "speed_gear (comm_node s) \<noteq> 0" "(speed_gear (comm_node s) \<le> 6) = False" using assms(5) by auto
  then show ?thesis
    using assms(4) by (simp add: comm_send_write_eq [OF assms(1-3)] command_regs_def Let_def direction_bit)
qed

theorem bad_gear_sends_garbage_witness:
  "(\<exists>s'. comm_send_rw_comand (demo_write 7) = Some s' \<and>
     uart_tx s' = map (Pair True) (rtu_frame [2, 0x10, 0x70, 0, 0, 4, 8, 0, 0, 0, 0, 0, 0, 0, 1])) \<and>
   (\<exists>s'. comm_send_rw_comand ((demo_write 7)\<lparr>uninit_write_data := [1, 5000, 0, 0]\<rparr>) = Some s' \<and>
     uart_tx s' = map (Pair True) (rtu_frame [2, 0x10, 0x70, 0, 0, 4, 8, 0, 1, 0x13, 0x88, 0, 0, 0, 1]))"
proof -
  have "sys_ok ((demo_write 7)\<lparr>uninit_write_data := [1, 5000, 0, 0]\<rparr>)"
    using demo_write_ok(1) [of 7] by (simp add: sys_defs)
  then show ?thesis
    using bad_gear_sends_garbage [of "demo_write 7"] demo_write_ok [of 7]
      bad_gear_sends_garbage [of "(demo_write 7)\<lparr>uninit_write_data := [1, 5000, 0, 0]\<rparr>"]
    by (simp add: demo_paras_def demo_belt_def write_request_def be_bytes_def hi8_def lo8_def
        numeral_3_eq_3 word_less_nat_alt)
qed

section \<open>The process keeps the invariant\<close>

text \<open>Frames that set no belt in motion: a status request, a fault reset, a stop command.\<close>

definition harmless :: "u8 list \<Rightarrow> bool" where
  "harmless fr \<longleftrightarrow> (\<exists>no. fr = rtu_frame (read_request no 0x7200 7)) \<or>
     (\<exists>no. fr = rtu_frame (write_request no 0x7000 [8])) \<or>
     (\<exists>no b v. fr = rtu_frame (write_request no 0x7000 (speed_regs 5 b v)))"

text \<open>\<open>sends s t\<close>: like \<open>good s t\<close>, but a frame may have been sent, a harmless one while
  the emergency input is active.\<close>

definition sends :: "fw \<Rightarrow> fw \<Rightarrow> bool" where
  "sends s t \<longleftrightarrow> (\<exists>fr. good (s\<lparr>uart_tx := uart_tx s @ map (Pair True) fr\<rparr>) t \<and>
     (emergency_active s \<longrightarrow> fr = [] \<or> harmless fr))"

lemma good_sends: "good s t \<Longrightarrow> sends s t"
  unfolding sends_def by (rule exI [of _ "[]"]) (simp add: good_def stable_def)

lemma sends_ok: "sends s t \<Longrightarrow> sys_ok t"
  by (auto simp: sends_def good_def)

lemma good_transmitted:
  assumes "sys_ok s" "length bs \<le> 50"
  shows "good (s\<lparr>uart_tx := uart_tx s @ map (Pair True) bs\<rparr>) (transmitted bs s)"
  using assms by (simp add: good_def stable_def sys_defs transmitted_def filled_def UART1_TX_485_def
      UART1_RX_485_def GPIO_SetBits_def GPIO_ResetBits_def)

lemma sends_transmitted:
  "sys_ok s \<Longrightarrow> length fr \<le> 50 \<Longrightarrow> harmless fr \<Longrightarrow> sends s (transmitted fr s)"
  unfolding sends_def using good_transmitted by blast

lemma good_speed_fields:
  "sys_ok s \<Longrightarrow> length sp = 10 \<Longrightarrow> good s (s\<lparr>stopspeed_default := sp\<rparr>)"
  "good s t \<Longrightarrow> good s (t\<lparr>g_speed_set_sta := f\<rparr>)"
  by (simp add: good_def stable_def sys_defs) (auto simp: good_def stable_def sys_defs)

lemma length_write_request [simp]: "length (write_request no reg ds) = 7 + 2 * length ds"
  by (simp add: write_request_def)

lemma length_rtu_frame [simp]: "length (rtu_frame bs) = length bs + 2"
  by (simp add: rtu_frame_def)

lemma length_command_stop_speeds [simp]: "length (command_stop_speeds s) = length (stopspeed_default s)"
  by (simp add: command_stop_speeds_def Let_def)

lemma write_node_sends:
  assumes "sys_ok s" "node_ok (comm_node s)" "rw_flag (comm_node s) = 1"
  shows "returns (comm_send_rw_comand s) (sends s)"
proof -
  have len: "length (uninit_write_data s) = 4" "length (stopspeed_default s) = 10"
    using assms(1) by (simp_all add: sys_defs)
  let ?t = "s\<lparr>stopspeed_default := command_stop_speeds s\<rparr>"
  let ?fr = "rtu_frame (write_request (inverter_no (comm_node s)) 0x7000 (command_regs s))"
  let ?u = "s\<lparr>uart_tx := uart_tx s @ map (Pair True) ?fr\<rparr>"
  have t: "good s ?t" using assms(1) len(2) by (intro good_speed_fields) simp_all
  have "good (?t\<lparr>uart_tx := uart_tx ?t @ map (Pair True) ?fr\<rparr>) (transmitted ?fr ?t)"
    by (rule good_transmitted [OF good_sys_ok [OF t]]) (simp add: length_command_regs [OF len(1)])
  then have "good ?u (transmitted ?fr ?t)" by (simp add: good_def stable_def)
  then have "good ?u ((transmitted ?fr ?t)\<lparr>g_speed_set_sta := x\<rparr>)" for x by (rule good_speed_fields)
  moreover have "harmless ?fr" if "emergency_active s"
    using that unfolding harmless_def command_regs_def Let_def by (intro disjI2) (simp, blast)
  ultimately show ?thesis
    unfolding comm_send_write_eq [OF assms] Let_def returns_Some sends_def by blast
qed

lemma comm_send_sends:
  assumes "sys_ok s" "node_ok (comm_node s)"
  shows "returns (comm_send_rw_comand s) (sends s)"
proof (cases "rw_flag (comm_node s) = 1")
  case True
  with assms show ?thesis by (rule write_node_sends)
next
  case False
  have len: "length (uart1_send_buff s) = 50" "length (uninit_write_data s) = 4"
    using assms(1) by (simp_all add: sys_defs)
  have "take 1 ((uninit_write_data s)[0 := 8]) = [8]" using len(2) by (cases "uninit_write_data s") simp_all
  then have "Modbus_RTU_Write_Multi_Reg_Cmd no 0x7000 1 ((uninit_write_data s)[0 := 8]) s =
      Some (transmitted (rtu_frame (write_request no 0x7000 [8])) s)" for no
    by (intro write_request_sent [OF len(1)]) simp_all
  moreover have "sends s (transmitted (rtu_frame (write_request no 0x7000 [8])) s)"
    "sends s (transmitted (rtu_frame (read_request no 0x7200 7)) s)" for no
    by (rule sends_transmitted [OF assms(1)]; auto simp: harmless_def read_request_def)+
  ultimately show ?thesis
    using False good_sends [OF good_refl [OF assms(1)]] read_request_sent [OF len(1)]
    by (simp add: comm_send_rw_comand_def Let_def)
qed

lemma good_outputs: "good s t \<Longrightarrow> good s (write_answer_outputs b t)"
  by (simp add: write_answer_outputs_def out_defs good_update Let_def)

text \<open>The linkage call for the upstream neighbour is defined, and touches only the UART queue.\<close>

lemma upstream_link_frame:
  assumes "sys_ok s" "node_ok (comm_node s)" "inverter_no (comm_node s) > 1"
  shows "\<exists>t. Linkage_Stream_Ctrl_Handle (ucast (inverter_no (comm_node s) - 2)) f s = Some t \<and>
    good s t \<and> comm_node t = comm_node s \<and> inverter_status_buffer t = inverter_status_buffer s"
proof -
  have "unat (inverter_no (comm_node s)) \<le> 10" using assms(2) by (simp add: node_ok_def word_le_nat_alt)
  then have "unat (inverter_no (comm_node s) - 2) < 10"
    using assms(3) by (simp add: word_less_nat_alt word_le_nat_alt unat_sub)
  then have "unat (ucast (inverter_no (comm_node s) - 2) :: u8) < 10"
    by (simp add: unsigned_ucast_eq take_bit_eq_mod)
  then have o: "linkage_outcome s (Linkage_Stream_Ctrl_Handle (ucast (inverter_no (comm_node s) - 2)) f s)"
    by (rule linkage_stream [OF sys_okD(1) [OF assms(1)]])
  with linkage_good [OF assms(1) o] show ?thesis
    by (auto simp: linkage_outcome_def returns_def AddUartNodes_def)
qed

lemma read_answer_good:
  assumes "sys_ok s" "node_ok (comm_node s)" "length buf = 50"
  shows "returns (read_answer buf s) (\<lambda>t. good s t \<and> comm_node t = comm_node s)"
proof -
  obtain data where d: "read_regs buf = Some data" using assms(3) by (simp add: read_regs_def)
  note k = node_belt_less [OF assms(2)] belt_index_node [OF assms(2)]
  have link: "returns (Linkage_Stream_Ctrl_Handle (ucast (inverter_no (comm_node s) - 2)) f s)
      (\<lambda>t. good s t \<and> comm_node t = comm_node s)" if "inverter_no (comm_node s) > 1" for f
    using upstream_link_frame [OF assms(1,2) that] by (auto simp: returns_def)
  have fin: "returns (do {
      v1 \<leftarrow> idx (inverter_status_buffer t) (node_belt s);
      vs \<leftarrow> upd (inverter_status_buffer t) (node_belt s) (status_update data v1);
      Some (t\<lparr>inverter_status_buffer := vs\<rparr>) }) (\<lambda>t. good s t \<and> comm_node t = comm_node s)"
    if "good s t \<and> comm_node t = comm_node s" for t
  proof -
    have "length (inverter_status_buffer t) = 10" using that by (simp add: good_def sys_defs)
    with that k(1) show ?thesis by (simp add: idx_def upd_def good_status)
  qed
  have "length (inverter_status_buffer s) = 10" using assms(1) by (simp add: sys_defs)
  then have i: "idx (inverter_status_buffer s) (node_belt s) = Some (inverter_status_buffer s ! node_belt s)"
    using k(1) by (simp add: idx_def)
  show ?thesis
    unfolding read_answer_def Let_def d k(2) Option.bind.bind_lunit i
    by (rule returns_bind [OF _ fin]) (use link good_refl [OF assms(1)] in auto)
qed

text \<open>The checksum comparison of an answer is the Modbus frame check.\<close>

definition frame_valid :: "u8 list \<Rightarrow> bool" where
  "frame_valid bs \<longleftrightarrow> (\<exists>m. bs = rtu_frame m)"

lemma crc_tail_valid:
  assumes "2 \<le> n" "n \<le> length buf"
  shows "CRC_sub (take (n - 2) buf) 0xFFFF 0 = push_bit 8 (ucast (buf ! (n - 2))) OR ucast (buf ! (n - 1)) \<longleftrightarrow>
    frame_valid (take n buf)"
proof -
  let ?m = "take (n - 2) buf"
  have t: "take n buf = ?m @ [buf ! (n - 2), buf ! (n - 1)]"
    using assms by (cases n; cases "n - 1") (simp_all add: take_Suc_conv_app_nth)
  have "CRC_sub ?m 0xFFFF 0 = push_bit 8 (ucast (buf ! (n - 2))) OR ucast (buf ! (n - 1)) \<longleftrightarrow>
      le16 (hi8 (crc16 ?m)) (lo8 (crc16 ?m)) = le16 (buf ! (n - 1)) (buf ! (n - 2))"
    unfolding CRC_sub_eq by (simp only: le16_def or.commute)
  also have "\<dots> \<longleftrightarrow> [lo8 (crc16 ?m), hi8 (crc16 ?m)] = [buf ! (n - 2), buf ! (n - 1)]" by auto
  also have "\<dots> \<longleftrightarrow> frame_valid (take n buf)"
    unfolding frame_valid_def rtu_frame_def t by auto
  finally show ?thesis .
qed

text \<open>When an answer is accepted.\<close>

definition answer_accepted :: "u8 list \<Rightarrow> u16 \<Rightarrow> fw \<Rightarrow> bool" where
  "answer_accepted buf len s \<longleftrightarrow> 4 \<le> unat len \<and> frame_valid (take (unat len) buf) \<and>
     ucast (buf ! 0) = inverter_no (comm_node s) \<and>
     buf ! 1 = (if rw_flag (comm_node s) = 0 then 0x03 else 0x10)"

lemma comm_recv_eq:
  assumes "length buf = 50" "len \<le> 50"
  shows "comm_recv_rw_comand buf len s =
    (if answer_accepted buf len s then
       if rw_flag (comm_node s) = 0 then do { t \<leftarrow> read_answer buf s; Some (1, t) }
       else Some (1, write_answer_outputs (buf ! 0) s)
     else Some (0, s))"
proof -
  have n: "unat len \<le> 50" using assms(2) by (simp add: word_le_nat_alt)
  show ?thesis
  proof (cases "unat len < 4")
    case True
    then show ?thesis by (simp add: comm_recv_rw_comand_def answer_accepted_def)
  next
    case False
    have "get_CRC buf (unat len - 2) = Some (CRC_sub (take (unat len - 2) buf) 0xFFFF 0)"
      "idx buf (unat len - 2) = Some (buf ! (unat len - 2))" "idx buf (unat len - 1) = Some (buf ! (unat len - 1))"
      "idx buf 0 = Some (buf ! 0)" "idx buf 1 = Some (buf ! 1)"
      using False n assms(1) by (simp_all add: get_CRC_def idx_def)
    note r = this
    note crc = crc_tail_valid [of "unat len" buf]
    show ?thesis
      unfolding comm_recv_rw_comand_def r Let_def Option.bind.bind_lunit
      using False crc n assms(1) by (auto simp: answer_accepted_def)
  qed
qed

lemma comm_recv_good:
  assumes "sys_ok s" "node_ok (comm_node s)"
  shows "returns (comm_recv_rw_comand (uart1_recv_buff s) (uart1_recv_count s) s)
    (\<lambda>(_, t). good s t \<and> comm_node t = comm_node s)"
proof -
  have b: "length (uart1_recv_buff s) = 50" "uart1_recv_count s \<le> 50" using assms(1) by (simp_all add: sys_defs)
  have out: "good s (write_answer_outputs x s)" for x using good_refl [OF assms(1)] by (rule good_outputs)
  have cn: "comm_node (write_answer_outputs x s) = comm_node s" for x
    by (simp add: write_answer_outputs_def out_defs GPIO_WriteBit_def Let_def)
  show ?thesis
    unfolding comm_recv_eq [OF b]
    using read_answer_good [OF assms b(1)] good_refl [OF assms(1)] out cn
    by (auto simp: returns_def)
qed

lemma returns_bind2:
  "returns r (\<lambda>(a, t). P a t) \<Longrightarrow> (\<And>a t. P a t \<Longrightarrow> returns (f a t) Q) \<Longrightarrow>
     returns (Option.bind r (\<lambda>(a, t). f a t)) Q"
  by (auto simp: returns_def)

lemma map_fault_good:
  assumes "good s t" "node_ok (comm_node t)"
  shows "returns (map_fault f t) (\<lambda>u. good s u \<and> comm_node u = comm_node t)"
proof -
  have "length (inverter_status_buffer t) = 10" using assms(1) by (simp add: good_def sys_defs)
  then show ?thesis
    using assms node_belt_less [OF assms(2)]
    by (simp add: map_fault_def belt_index_node [OF assms(2)] idx_def upd_def good_status)
qed

lemma good_comm_fields:
  "good s t \<Longrightarrow> good s (t\<lparr>comm_busy_flag := 0\<rparr>)"
  "good s t \<Longrightarrow> good s (t\<lparr>uart1_recv_count := 0\<rparr>)"
  "good s t \<Longrightarrow> node_ok x \<Longrightarrow> good s (t\<lparr>comm_node := x, uart1_commu_state := c\<rparr>)"
  "good s t \<Longrightarrow> node_ok x \<Longrightarrow> good s (t\<lparr>comm_node := x, comm_busy_flag := 1, uart1_commu_state := c\<rparr>)"
  by (auto simp: good_def stable_def sys_defs)

lemma node_ok_interval [simp]:
  "node_ok (x\<lparr>comm_interval := i\<rparr>) = node_ok x" "node_ok (x\<lparr>comm_retry := r\<rparr>) = node_ok x"
  by (simp_all add: node_ok_def)

lemma Comm_Process_sends:
  assumes "sys_ok s"
  shows "returns (Modbus_RTU_Comm_Process s) (sends s)"
proof (cases "comm_busy_flag s = 0")
  case True
  note q = queues_invD(1) [OF sys_okD(2) [OF assms]]
  obtain x q' where o: "outQueue (uartSendQueue s) = (x, q')" by fastforce
  have "ring_inv 30 q'" "list_all node_ok (ring_list 30 q')" "\<And>n. x = Some n \<Longrightarrow> node_ok n"
    using uartq.deq_list_all [OF q sys_okD(6) [OF assms]] uartq.invar_deq [OF q] o by auto
  note q' = this
  have g: "good s (s\<lparr>uartSendQueue := q'\<rparr>)" using q'(1,2) assms by (simp add: good_def stable_def sys_defs)
  show ?thesis
  proof (cases x)
    case None
    then show ?thesis using good_sends [OF g] True o
      by (simp add: Modbus_RTU_Comm_Process_def GetUartSendDataFromQueue_def)
  next
    case (Some n)
    then have "node_ok (if comm_interval n = 0 then n\<lparr>comm_interval := 15\<rparr> else n)" using q'(3) by simp
    with Some show ?thesis
      using good_sends [OF good_comm_fields(4) [OF g]] True o
      by (simp add: Modbus_RTU_Comm_Process_def GetUartSendDataFromQueue_def)
  qed
next
  case False
  then have n: "node_ok (comm_node s)" using assms by (simp add: sys_defs)
  have "returns (do {
      (ok, s1) \<leftarrow> comm_recv_rw_comand (uart1_recv_buff s) (uart1_recv_count s) s;
      s2 \<leftarrow> (if ok \<noteq> 0 then do { t \<leftarrow> map_fault (\<lambda>c. c AND NOT 1) s1; Some (t\<lparr>comm_busy_flag := 0\<rparr>) }
         else if comm_retry (comm_node s1) > 0 then
           Some (s1\<lparr>comm_node := (comm_node s1)\<lparr>comm_retry := comm_retry (comm_node s1) - 1, comm_interval := 20\<rparr>,
                    uart1_commu_state := SEND_READY\<rparr>)
         else do { t \<leftarrow> map_fault (\<lambda>c. c OR 1) s1; Some (t\<lparr>comm_busy_flag := 0\<rparr>) });
      Some (s2\<lparr>uart1_recv_count := 0\<rparr>) }) (good s)"
  proof (rule returns_bind2 [OF comm_recv_good [OF assms n]], rule returns_bind [where P = "good s"], goal_cases)
    case (1 ok t)
    then have t: "good s t" "node_ok (comm_node t)" using n by simp_all
    from map_fault_good [OF this] have "returns (do { u \<leftarrow> map_fault f t; Some (u\<lparr>comm_busy_flag := 0\<rparr>) }) (good s)" for f
      by (rule returns_bind) (simp add: good_comm_fields)
    with t show ?case by (auto intro!: good_comm_fields(3))
  next
    case (2 ok t u)
    then show ?case by (simp add: good_comm_fields)
  qed
  from returns_mono [OF this good_sends] show ?thesis
    using False comm_send_sends [OF assms n] good_sends [OF good_refl [OF assms]]
    by (simp add: Modbus_RTU_Comm_Process_def)
qed

section \<open>Answers\<close>

lemma frame_valid_residue: "frame_valid (bs @ [a, b]) \<longleftrightarrow> crc16 (bs @ [a, b]) = 0"
  unfolding crc16_residue by (auto simp: frame_valid_def rtu_frame_def)

lemma frame_valid_crc: "2 \<le> length fr \<Longrightarrow> frame_valid fr \<longleftrightarrow> crc16 fr = 0"
proof -
  assume "2 \<le> length fr"
  then have "fr = butlast (butlast fr) @ [last (butlast fr), last fr]"
    by (cases fr rule: rev_cases; cases "butlast fr" rule: rev_cases) (auto simp: butlast_append)
  then show ?thesis by (metis frame_valid_residue)
qed

text \<open>C28. An answer with a transmission error confined to two adjacent bytes (checksum
  included) is rejected and leaves the state unchanged.\<close>

theorem corrupted_answer_rejected:
  assumes "frame_valid (pre @ [a, b] @ post)" "(a, b) \<noteq> (a', b')"
    and "buf = (pre @ [a', b'] @ post) @ rest" "length buf = 50" "unat len = length pre + 2 + length post"
  shows "comm_recv_rw_comand buf len s = Some (0, s)"
proof -
  have n: "len \<le> 50" using assms(3-5) by (simp add: word_le_nat_alt)
  have "crc16 (pre @ [a, b] @ post) = 0" using assms(1) frame_valid_crc [of "pre @ [a, b] @ post"] by simp
  with assms(2) crc16_burst [of pre a b post a' b'] have "crc16 (pre @ [a', b'] @ post) \<noteq> 0" by auto
  then have "\<not> frame_valid (take (unat len) buf)"
    using frame_valid_crc [of "pre @ [a', b'] @ post"] assms(3,5) by simp
  then show ?thesis by (simp add: comm_recv_eq [OF assms(4) n] answer_accepted_def)
qed

definition demo_reply :: "u8 list" where
  "demo_reply = rtu_frame [2, 0x03, 14, 0, 1, 0, 0, 0, 100, 0, 5, 0x07, 0xD0, 0, 1, 0, 2]"

theorem corrupted_answer_rejected_witness:
  "comm_recv_rw_comand ([2, 0x03, 15] @ drop 3 demo_reply @ replicate 31 0) 19 (demo_write 2) = Some (0, demo_write 2)"
proof -
  have v: "frame_valid ([2] @ [0x03, 14] @ drop 3 demo_reply)"
    unfolding frame_valid_def demo_reply_def rtu_frame_def
    by (rule exI [of _ "[2, 0x03, 14, 0, 1, 0, 0, 0, 100, 0, 5, 0x07, 0xD0, 0, 1, 0, 2]"])
      (simp add: numeral_3_eq_3)
  from corrupted_answer_rejected [OF v, of 3 15 _ "replicate 31 0" 19 "demo_write 2"]
  show ?thesis by (simp add: demo_reply_def rtu_frame_def)
qed

text \<open>The answer of an inverter to the read request: seven registers.\<close>

definition read_reply :: "u16 \<Rightarrow> u16 list \<Rightarrow> u8 list" where
  "read_reply no ds = rtu_frame ([ucast no, 0x03, 14] @ be_bytes ds)"

lemma be16: "push_bit 8 (ucast (hi8 d)) OR ucast (lo8 d) = d"
  using le16_lo8_hi8 [of d] by (simp add: le16_def or.commute)

lemma nth_be_bytes:
  "i < length ds \<Longrightarrow> be_bytes ds ! (2 * i) = hi8 (ds ! i) \<and> be_bytes ds ! Suc (2 * i) = lo8 (ds ! i)"
proof (induction ds arbitrary: i)
  case (Cons d ds)
  then show ?case by (cases i) (auto simp: be_bytes_def)
qed simp

lemma read_regs_reply:
  assumes "length ds = 7" "buf = read_reply no ds @ rest"
  shows "read_regs buf = Some ds"
proof -
  have r: "read_reply no ds = ucast no # 3 # 14 # be_bytes ds @ c" if "c = drop 17 (read_reply no ds)" for c
    using that assms(1) by (simp add: read_reply_def rtu_frame_def)
  have "push_bit 8 (ucast (buf ! (3 + i * 2))) OR ucast (buf ! (4 + i * 2)) = ds ! i" if "i < 7" for i
    using that assms nth_be_bytes [of i ds]
    by (simp add: read_reply_def rtu_frame_def nth_append nth_Cons' be16 mult.commute)
  then have "map (\<lambda>i. push_bit 8 (ucast (buf ! (3 + i * 2))) OR ucast (buf ! (4 + i * 2))) [0..<7] = ds"
    using assms(1) by (intro nth_equalityI) simp_all
  moreover have "17 \<le> length buf" using assms by (simp add: read_reply_def)
  ultimately show ?thesis by (simp add: read_regs_def)
qed

lemma status_update_fields [simp]:
  "input_status (status_update ds v) = input_status v OR (ds ! 6 AND 0x1F)"
  "line_speed (status_update ds v) = ds ! 2" "electric_current (status_update ds v) = ds ! 3"
  "inverter_freq (status_update ds v) = ds ! 4"
  by (simp_all add: status_update_def)

text \<open>The fault word of an inverter after a read answer: bit 0 (communication fault) is clear, bit 1
  (jam) is kept, bits 2 and 3 are the settled and encoder flags, bit 4 the running state, and the
  high byte the inverter's own fault code.\<close>

lemma status_update_bits:
  "\<not> bit (fault_code (status_update ds v)) 0"
  "bit (fault_code (status_update ds v)) 1 = bit (fault_code v) 1"
  "bit (fault_code (status_update ds v)) 2 = bit (ds ! 5) 0"
  "bit (fault_code (status_update ds v)) 3 = bit (ds ! 1) 0"
  "bit (fault_code (status_update ds v)) 4 = (ds ! 0 AND 0xFF = 1)"
  "hi8 (fault_code (status_update ds v)) = hi8 (ds ! 0)"
proof -
  have "(2 :: u16) = push_bit 1 1" by simp
  then have b2: "bit (f AND 2) n \<longleftrightarrow> n = 1 \<and> bit f 1" for f :: u16 and n
    by (simp only: bit_and_iff bit_push_bit_iff bit_1_iff) (auto dest: le_antisym)
  have "(0xFF00 :: u16) = NOT (mask 8)" by (simp add: mask_eq_exp_minus_1)
  then have bh: "bit (d AND 0xFF00) n \<longleftrightarrow> 8 \<le> n \<and> bit d n" for d :: u16 and n
    by (simp only: bit_and_iff bit_not_iff bit_mask_iff not_less) (auto dest: bit_imp_possible_bit)
  have b1: "n < 16 \<Longrightarrow> m < 16 \<Longrightarrow> bit (push_bit m (d AND 1)) n \<longleftrightarrow> n = m \<and> bit d 0" for d :: u16 and n m
    by (simp only: bit_push_bit_iff bit_and_iff bit_1_iff) (auto dest: le_antisym)
  have br: "n < 16 \<Longrightarrow> bit (push_bit 4 (ucast (run_status_of d) :: u16)) n \<longleftrightarrow> n = 4 \<and> d AND 0xFF = 1" for d n
    by (auto simp: run_status_of_def bit_push_bit_iff bit_1_iff)
  have b: "bit (fault_code (status_update ds v)) n \<longleftrightarrow>
      n = 1 \<and> bit (fault_code v) 1 \<or> 8 \<le> n \<and> bit (ds ! 0) n \<or> n = 4 \<and> ds ! 0 AND 0xFF = 1 \<or>
      n = 3 \<and> bit (ds ! 1) 0 \<or> n = 2 \<and> bit (ds ! 5) 0" if "n < 16" for n
  proof -
    have fc: "fault_code (status_update ds v) = (fault_code v AND 2) OR (ds ! 0 AND 0xFF00) OR
        push_bit 4 (ucast (run_status_of (ds ! 0))) OR push_bit 3 (ds ! 1 AND 1) OR push_bit 2 (ds ! 5 AND 1)"
      by (simp add: status_update_def)
    have "bit (push_bit 3 (ds ! 1 AND 1)) n \<longleftrightarrow> n = 3 \<and> bit (ds ! 1) 0"
      "bit (push_bit 2 (ds ! 5 AND 1)) n \<longleftrightarrow> n = 2 \<and> bit (ds ! 5) 0"
      by (rule b1 [OF that], simp)+
    then show ?thesis by (simp only: fc bit_or_iff b2 bh br [OF that] disj_assoc)
  qed
  show "\<not> bit (fault_code (status_update ds v)) 0" "bit (fault_code (status_update ds v)) 1 = bit (fault_code v) 1"
    "bit (fault_code (status_update ds v)) 2 = bit (ds ! 5) 0" "bit (fault_code (status_update ds v)) 3 = bit (ds ! 1) 0"
    "bit (fault_code (status_update ds v)) 4 = (ds ! 0 AND 0xFF = 1)"
    by (simp_all add: b)
  show "hi8 (fault_code (status_update ds v)) = hi8 (ds ! 0)"
    by (rule bit_word_eqI) (auto simp: bit_hi8 b)
qed

lemma read_reply_accepted:
  assumes "node_ok (comm_node s)" "rw_flag (comm_node s) = 0" "length ds = 7"
    and "buf = read_reply (inverter_no (comm_node s)) ds @ rest"
  shows "answer_accepted buf 19 s"
proof -
  have no: "ucast (ucast (inverter_no (comm_node s)) :: u8) = inverter_no (comm_node s)"
  proof -
    have "unat (inverter_no (comm_node s)) < 256" using assms(1) by (simp add: node_ok_def word_le_nat_alt)
    then have "unat (ucast (inverter_no (comm_node s)) :: u8) = unat (inverter_no (comm_node s))"
      by (simp add: unsigned_ucast_eq take_bit_eq_mod)
    then show ?thesis by (metis of_nat_unat ucast_id)
  qed
  have "take 19 buf = read_reply (inverter_no (comm_node s)) ds"
    using assms(3,4) by (simp add: read_reply_def)
  then have "frame_valid (take 19 buf)" by (auto simp: frame_valid_def read_reply_def)
  moreover have "buf ! 0 = ucast (inverter_no (comm_node s))" "buf ! 1 = 3"
    using assms(4) by (simp_all add: read_reply_def rtu_frame_def)
  ultimately show ?thesis using no assms(2) by (simp add: answer_accepted_def)
qed

lemma if_Some_eq: "(if c then x else Some s) = Some t \<Longrightarrow> if c then x = Some t else t = s"
  by (cases c) auto

text \<open>C26. An inverter's answer to a status request is decoded into its entry of the status
  table and into no other entry: running state, jam flag, speed, current and frequency as
  described above; input bits accumulate and are never cleared. When the running state
  changed and the belt has an upstream neighbour on this station, the neighbour is stopped
  (this belt stopped) or started (it runs) by the linkage rule.\<close>

theorem read_answer_decoded:
  assumes "sys_ok s" "node_ok (comm_node s)" "rw_flag (comm_node s) = 0" "length ds = 7"
    and "buf = read_reply (inverter_no (comm_node s)) ds @ rest" "length buf = 50"
  shows "\<exists>s' t. comm_recv_rw_comand buf 19 s = Some (1, s') \<and>
    (let no = inverter_no (comm_node s); k = unat no - 1; old = inverter_status_buffer s ! k;
         new = inverter_status_buffer s' ! k
     in s' = t\<lparr>inverter_status_buffer := (inverter_status_buffer s)[k := new]\<rparr> \<and>
        (if bit (fault_code old) 4 \<noteq> (ds ! 0 AND 0xFF = 1) \<and> no > 1
         then Linkage_Stream_Ctrl_Handle (ucast (no - 2)) (if bit (fault_code old) 4 then 0 else 1) s = Some t
         else t = s) \<and>
        bit (fault_code new) 4 = (ds ! 0 AND 0xFF = 1) \<and> \<not> bit (fault_code new) 0 \<and>
        bit (fault_code new) 1 = bit (fault_code old) 1 \<and> bit (fault_code new) 3 = bit (ds ! 1) 0 \<and>
        bit (fault_code new) 2 = bit (ds ! 5) 0 \<and> hi8 (fault_code new) = hi8 (ds ! 0) \<and>
        input_status new = input_status old OR (ds ! 6 AND 0x1F) \<and>
        line_speed new = ds ! 2 \<and> electric_current new = ds ! 3 \<and> inverter_freq new = ds ! 4)"
proof -
  define k where "k = node_belt s"
  define v where "v = inverter_status_buffer s ! k"
  have k: "k < 10" "belt_index (inverter_no (comm_node s)) = Some k"
    unfolding k_def using node_belt_less [OF assms(2)] belt_index_node [OF assms(2)] .
  have len: "length (inverter_status_buffer s) = 10" using assms(1) by (simp add: sys_defs)
  have run: "(ucast (drop_bit 4 (fault_code v) AND 1) = (1 :: u8)) = bit (fault_code v) 4"
    "(ucast (drop_bit 4 (fault_code v) AND 1) \<noteq> run_status_of (ds ! 0)) = (bit (fault_code v) 4 \<noteq> (ds ! 0 AND 0xFF = 1))"
    using bit_test_1 [of 4 "fault_code v"] bit_test_0 [of 4 "fault_code v"]
    by (cases "bit (fault_code v) 4"; simp add: run_status_of_def)+
  let ?c = "bit (fault_code v) 4 \<noteq> (ds ! 0 AND 0xFF = 1) \<and> inverter_no (comm_node s) > 1"
  let ?link = "Linkage_Stream_Ctrl_Handle (ucast (inverter_no (comm_node s) - 2)) (if bit (fault_code v) 4 then 0 else 1) s"
  have ra: "read_answer buf s = (do { s1 \<leftarrow> (if ?c then ?link else Some s);
      v1 \<leftarrow> idx (inverter_status_buffer s1) k;
      vs \<leftarrow> upd (inverter_status_buffer s1) k (status_update ds v1);
      Some (s1\<lparr>inverter_status_buffer := vs\<rparr>) })"
    using k(1) len by (simp add: read_answer_def read_regs_reply [OF assms(4,5)] k(2) idx_Some run v_def[symmetric] Let_def
        split del: if_split cong: if_cong)
  obtain t where t: "(if ?c then ?link else Some s) = Some t" "inverter_status_buffer t = inverter_status_buffer s"
    using upstream_link_frame [OF assms(1,2)] by (cases ?c) auto
  then have "comm_recv_rw_comand buf 19 s =
      Some (1, t\<lparr>inverter_status_buffer := (inverter_status_buffer s)[k := status_update ds v]\<rparr>)"
    using read_reply_accepted [OF assms(2-5)] k len
    by (simp add: comm_recv_eq [OF assms(6)] assms(3) ra idx_Some upd_Some v_def[symmetric])
  moreover have "unat (inverter_no (comm_node s)) - Suc 0 = k" by (simp add: k_def)
  moreover have "if ?c then ?link = Some t else t = s"
    using t(1) by (rule if_Some_eq)
  ultimately show ?thesis
    using k(1) len status_update_bits [of ds v]
    by - (rule exI [of _ "t\<lparr>inverter_status_buffer := (inverter_status_buffer s)[k := status_update ds v]\<rparr>"],
        rule exI [of _ t], simp add: Let_def v_def[symmetric] split del: if_split cong: if_cong)
qed

definition demo_read :: fw where
  "demo_read = (demo_write 0)\<lparr>comm_node := \<lparr>rw_flag = 0, inverter_no = 2, speed_gear = 0, comm_interval = 0, comm_retry = 0\<rparr>\<rparr>"

theorem read_answer_decoded_witness:
  "\<exists>s'. comm_recv_rw_comand (read_reply 2 [0x0501, 1, 100, 5, 2000, 1, 2] @ replicate 31 0) 19 demo_read = Some (1, s') \<and>
     bit (fault_code (inverter_status_buffer s' ! 1)) 4 \<and> hi8 (fault_code (inverter_status_buffer s' ! 1)) = 5 \<and>
     inverter_freq (inverter_status_buffer s' ! 1) = 2000"
proof -
  have n: "node_ok (comm_node demo_read)" by (simp add: demo_read_def node_ok_def)
  then have ok: "sys_ok demo_read" using demo_write_ok(1) [of 0] by (simp add: demo_read_def sys_defs)
  have hi: "hi8 0x0501 = 5" by (simp add: hi8_def)
  show ?thesis
    using read_answer_decoded [OF ok n, of "[0x0501, 1, 100, 5, 2000, 1, 2]"
        "read_reply 2 [0x0501, 1, 100, 5, 2000, 1, 2] @ replicate 31 0" "replicate 31 0"]
    by (auto simp: demo_read_def read_reply_def Let_def hi)
qed

text \<open>The positive answer to a speed command for inverters 1 to 5 drives the belt's run output:
  on when the command set a non-zero speed, off otherwise, and no other run output changes.\<close>

lemma write_answer_drives_output:
  assumes "sys_ok s" "node_ok (comm_node s)" "rw_flag (comm_node s) = 1"
    and "answer_accepted buf len s" "length buf = 50" "len \<le> 50" "inverter_no (comm_node s) \<le> 5"
  shows "\<exists>s'. comm_recv_rw_comand buf len s = Some (1, s') \<and>
    (\<forall>j < 5. let (p, n) = [(GPIOB, 9), (GPIOE, 0), (GPIOE, 1), (GPIOE, 2), (GPIOE, 3)] ! j in
       pin_level p n s' = (if Suc j = unat (inverter_no (comm_node s)) then g_speed_set_sta s = 1 else pin_level p n s))"
proof -
  have all5: "(\<forall>j < 5. P j) = (P 0 \<and> P 1 \<and> P 2 \<and> P 3 \<and> P (4 :: nat))" for P
    by (auto simp: less_Suc_eq numeral_eq_Suc)
  have no: "unat (buf ! 0) = unat (inverter_no (comm_node s))"
    using assms(4) by (metis answer_accepted_def unat_ucast_u8_u16)
  have "0 < unat (inverter_no (comm_node s))" "unat (inverter_no (comm_node s)) \<le> 5"
    using assms(2,7) by (simp_all add: node_ok_def word_less_nat_alt word_le_nat_alt)
  with no have "unat (buf ! 0) = 1 \<or> unat (buf ! 0) = 2 \<or> unat (buf ! 0) = 3 \<or> unat (buf ! 0) = 4 \<or> unat (buf ! 0) = 5"
    by arith
  then have "buf ! 0 = 1 \<or> buf ! 0 = 2 \<or> buf ! 0 = 3 \<or> buf ! 0 = 4 \<or> buf ! 0 = 5"
    by (simp add: word_unat_eq_iff)
  then show ?thesis
    using assms(3,4) unfolding all5 no [symmetric]
    by (elim disjE) (simp_all add: comm_recv_eq [OF assms(5,6)] write_answer_outputs_def out_defs pin_level_write Let_def)
qed

lemma write_answer_drives_output_witness:
  "\<exists>s'. comm_recv_rw_comand (rtu_frame [2, 0x10, 0x70, 0, 0, 4] @ replicate 42 0) 8
       ((demo_write 2)\<lparr>g_speed_set_sta := 1\<rparr>) = Some (1, s') \<and> pin_level GPIOE 0 s'"
proof -
  let ?s = "(demo_write 2)\<lparr>g_speed_set_sta := 1\<rparr>" and ?b = "rtu_frame [2, 0x10, 0x70, 0, 0, 4] @ replicate 42 0"
  have ok: "sys_ok ?s" "node_ok (comm_node ?s)" using demo_write_ok(1,2) [of 2] by (simp_all add: sys_defs)
  have "frame_valid (take 8 ?b)" by (auto simp: frame_valid_def rtu_frame_def)
  then have "answer_accepted ?b 8 ?s"
    using demo_write_ok(4,6) [of 2] by (simp add: answer_accepted_def rtu_frame_def)
  from write_answer_drives_output [OF ok _ this] show ?thesis
    using demo_write_ok(4,6) [of 2] by (auto simp: word_le_nat_alt dest!: spec [of _ "1 :: nat"])
qed

section \<open>Receiving bytes\<close>

primrec usart_receive :: "u8 list \<Rightarrow> fw \<Rightarrow> fw option" where
  "usart_receive [] s = Some s"
| "usart_receive (b # bs) s = do { s1 \<leftarrow> USART1_IRQHandler (ucast b) s; usart_receive bs s1 }"

lemma USART_ReceiveData_byte [simp]: "ucast (USART_ReceiveData (ucast (b :: u8))) = b"
  unfolding USART_ReceiveData_def
proof -
  have m: "(0x01FF :: u16) = mask 9" by (simp add: mask_eq_exp_minus_1)
  show "ucast (ucast b AND (0x01FF :: u16)) = b"
    unfolding m by (rule bit_word_eqI) (auto simp: bit_simps simp del: mask_numeral)
qed

lemma USART1_IRQHandler_eq:
  assumes "uart1_commu_state s = RECV_DATA" "length (uart1_recv_buff s) = 50" "unat (uart1_recv_count s) = n" "n \<le> 50"
  shows "USART1_IRQHandler (ucast b) s =
    (if n < 50 then Some (s\<lparr>uart1_tmr := 5, uart1_recv_buff := (uart1_recv_buff s)[n := b],
       uart1_recv_count := uart1_recv_count s + 1\<rparr>) else None)"
  using assms by (simp add: USART1_IRQHandler_def upd_def Let_def)

lemma usart_receive_from:
  assumes "uart1_commu_state s = RECV_DATA" "length (uart1_recv_buff s) = 50" "unat (uart1_recv_count s) = n" "n \<le> 50"
  shows "usart_receive bs s = (if n + length bs \<le> 50 then
      Some (s\<lparr>uart1_tmr := (if bs = [] then uart1_tmr s else 5),
        uart1_recv_buff := take n (uart1_recv_buff s) @ bs @ drop (n + length bs) (uart1_recv_buff s),
        uart1_recv_count := of_nat (n + length bs)\<rparr>) else None)"
  using assms
proof (induction bs arbitrary: s n)
  case Nil
  then show ?case by (auto simp flip: Nil(3))
next
  case (Cons b bs)
  show ?case
  proof (cases "n < 50")
    case True
    let ?s = "s\<lparr>uart1_tmr := 5, uart1_recv_buff := (uart1_recv_buff s)[n := b], uart1_recv_count := uart1_recv_count s + 1\<rparr>"
    have "unat (uart1_recv_count ?s) = Suc n" using Cons.prems True by (simp add: unat_word_ariths)
    with Cons.IH [of ?s "Suc n"] Cons.prems True have "usart_receive bs ?s = (if Suc n + length bs \<le> 50 then
      Some (?s\<lparr>uart1_tmr := 5,
        uart1_recv_buff := take (Suc n) (uart1_recv_buff ?s) @ bs @ drop (Suc n + length bs) (uart1_recv_buff ?s),
        uart1_recv_count := of_nat (Suc n + length bs)\<rparr>) else None)" by simp
    moreover have "take (Suc n) ((uart1_recv_buff s)[n := b]) = take n (uart1_recv_buff s) @ [b]"
      using True Cons.prems(2) by (simp add: take_Suc_conv_app_nth)
    ultimately show ?thesis
      using Cons.prems True by (simp add: USART1_IRQHandler_eq [OF Cons.prems] del: of_nat_Suc of_nat_add)
  next
    case False
    with Cons.prems show ?thesis by (simp add: USART1_IRQHandler_eq [OF Cons.prems])
  qed
qed

text \<open>C29. The bytes of an answer are stored in order at the start of the receive buffer, and the
  end-of-frame timer restarts with each; the 51st byte of an answer is written behind the end
  of the buffer, since the bound is tested only after the store.\<close>

theorem usart_bytes_stored:
  assumes "uart1_commu_state s = RECV_DATA" "length (uart1_recv_buff s) = 50" "uart1_recv_count s = 0"
  shows "usart_receive bs s = (if length bs \<le> 50 then
      Some (s\<lparr>uart1_tmr := (if bs = [] then uart1_tmr s else 5),
        uart1_recv_buff := bs @ drop (length bs) (uart1_recv_buff s),
        uart1_recv_count := of_nat (length bs)\<rparr>) else None)"
  using usart_receive_from [of s 0 bs] assms by simp

theorem usart_bytes_stored_witness:
  "usart_receive (replicate 51 7) (demo\<lparr>uart1_commu_state := RECV_DATA\<rparr>) = None \<and>
   (\<exists>t. usart_receive [1, 2] (demo\<lparr>uart1_commu_state := RECV_DATA\<rparr>) = Some t \<and> uart1_recv_count t = 2)"
proof -
  have d: "length (uart1_recv_buff demo) = 50" "uart1_recv_count demo = 0"
    using sys_ok_demo
    by (simp_all add: sys_defs, simp add: demo_def queues_ready_def power_on_def InitModuleStatusQueue_def
        InitSendMsgQueue_def InitCanSendQueue_def InitUartSendQueue_def)
  then show ?thesis
    using usart_bytes_stored [of "demo\<lparr>uart1_commu_state := RECV_DATA\<rparr>"] by simp
qed

section \<open>Time-outs\<close>

lemma uart_recv_timeout_good: "sys_ok s \<Longrightarrow> good s (uart_recv_timeout s)"
  by (auto simp: uart_recv_timeout_def Let_def good_def stable_def sys_defs)

text \<open>A millisecond in which the inverter is silent: the timer interrupt, and the main loop.\<close>

primrec silent_ms :: "nat \<Rightarrow> fw \<Rightarrow> fw option" where
  "silent_ms 0 s = Some s"
| "silent_ms (Suc n) s = do { s1 \<leftarrow> Modbus_RTU_Comm_Process (uart_recv_timeout s); silent_ms n s1 }"

lemma silent_ms_add: "silent_ms (m + n) s = do { s1 \<leftarrow> silent_ms m s; silent_ms n s1 }"
  by (induction m arbitrary: s) (simp_all add: bind_assoc)

text \<open>A command for inverter \<open>no\<close> with \<open>r\<close> retries left: waiting \<open>d\<close> more
  milliseconds to be sent, and listening \<open>c\<close> more milliseconds for its answer.\<close>

definition transaction :: "u16 \<Rightarrow> nat \<Rightarrow> fw \<Rightarrow> bool" where
  "transaction no r s \<longleftrightarrow> sys_ok s \<and> node_ok (comm_node s) \<and> rw_flag (comm_node s) \<le> 2 \<and> comm_busy_flag s \<noteq> 0 \<and>
     inverter_no (comm_node s) = no \<and> unat (comm_retry (comm_node s)) = r"

definition waiting :: "u16 \<Rightarrow> nat \<Rightarrow> nat \<Rightarrow> fw \<Rightarrow> bool" where
  "waiting no r d s \<longleftrightarrow> transaction no r s \<and> uart1_commu_state s = SEND_READY \<and> uart1_tmr s = 0 \<and>
     unat (comm_interval (comm_node s)) = d"

definition listening :: "u16 \<Rightarrow> nat \<Rightarrow> nat \<Rightarrow> fw \<Rightarrow> bool" where
  "listening no r c s \<longleftrightarrow> transaction no r s \<and> uart1_commu_state s = RECV_DATA \<and> uart1_recv_count s = 0 \<and>
     comm_interval (comm_node s) = 0 \<and> unat (uart1_tmr s) = c"

definition given_up :: "u16 \<Rightarrow> fw \<Rightarrow> bool" where
  "given_up no s \<longleftrightarrow> sys_ok s \<and> comm_busy_flag s = 0 \<and> bit (fault_code (inverter_status_buffer s ! (unat no - 1))) 0"

lemma rw_cases: "(f :: u16) \<le> 2 \<Longrightarrow> f = 0 \<or> f = 1 \<or> f = 2"
proof -
  assume "f \<le> 2"
  then have "unat f \<le> 2" by (simp add: word_le_nat_alt)
  then have "unat f = 0 \<or> unat f = 1 \<or> unat f = 2" by arith
  then show ?thesis by (simp add: word_unat_eq_iff)
qed

lemma comm_send_state:
  assumes "sys_ok s" "node_ok (comm_node s)" "rw_flag (comm_node s) \<le> 2"
  shows "returns (comm_send_rw_comand s) (\<lambda>t. sys_ok t \<and> comm_node t = comm_node s \<and>
    comm_busy_flag t = comm_busy_flag s \<and> uart1_commu_state t = RECV_DATA \<and> uart1_recv_count t = 0 \<and> uart1_tmr t = 50)"
proof -
  have len: "length (uart1_send_buff s) = 50" "length (uninit_write_data s) = 4"
    using assms(1) by (simp_all add: sys_defs)
  have "take 1 ((uninit_write_data s)[0 := 8]) = [8]" using len(2) by (cases "uninit_write_data s") simp_all
  then have reset: "Modbus_RTU_Write_Multi_Reg_Cmd no 0x7000 1 ((uninit_write_data s)[0 := 8]) s =
      Some (transmitted (rtu_frame (write_request no 0x7000 [8])) s)" for no
    by (intro write_request_sent [OF len(1)]) simp_all
  have ok: "\<And>t. comm_send_rw_comand s = Some t \<Longrightarrow> sys_ok t"
    using comm_send_sends [OF assms(1,2)] by (auto simp: returns_def sends_ok)
  consider "rw_flag (comm_node s) = 1" | "rw_flag (comm_node s) = 0" | "rw_flag (comm_node s) = 2"
    using rw_cases [OF assms(3)] by blast
  then show ?thesis
  proof cases
    case 1
    then show ?thesis using ok by (simp add: comm_send_write_eq [OF assms(1,2)])
  next
    case 2
    then show ?thesis using ok read_request_sent [OF len(1)] by (simp add: comm_send_rw_comand_def Let_def)
  next
    case 3
    then show ?thesis using ok reset by (simp add: comm_send_rw_comand_def Let_def)
  qed
qed

lemma wait_step:
  assumes "waiting no r (Suc (Suc d)) s"
  shows "returns (silent_ms 1 s) (waiting no r (Suc d))"
proof -
  have "comm_interval (comm_node s) \<noteq> 0" using assms by (auto simp: waiting_def)
  with unat_minus_one [OF this] assms
  have i: "comm_interval (comm_node s) \<noteq> 0" "unat (comm_interval (comm_node s) - 1) = Suc d"
    by (simp_all add: waiting_def)
  then have j: "comm_interval (comm_node s) - 1 \<noteq> 0" by (metis nat.distinct(1) unat_0)
  have "good s (uart_recv_timeout s)" using assms by (simp add: waiting_def transaction_def uart_recv_timeout_good)
  with i j assms show ?thesis
    by (simp add: waiting_def transaction_def uart_recv_timeout_def Let_def Modbus_RTU_Comm_Process_def good_def)
qed

lemma send_step:
  assumes "waiting no r (Suc 0) s"
  shows "returns (silent_ms 1 s) (listening no r 50)"
proof -
  let ?t = "uart_recv_timeout s"
  have i: "comm_interval (comm_node s) = 1" using assms by (simp add: waiting_def word_unat_eq_iff)
  have t: "?t = s\<lparr>comm_node := (comm_node s)\<lparr>comm_interval := 0\<rparr>, uart1_commu_state := SEND_DATA\<rparr>"
    using assms i by (simp add: waiting_def uart_recv_timeout_def Let_def)
  have ok: "sys_ok ?t" "node_ok (comm_node ?t)" "rw_flag (comm_node ?t) \<le> 2"
    using assms uart_recv_timeout_good [of s] by (simp_all add: waiting_def transaction_def good_def t)
  have "Modbus_RTU_Comm_Process ?t = comm_send_rw_comand ?t"
    using assms by (simp add: Modbus_RTU_Comm_Process_def t waiting_def transaction_def)
  moreover have "returns (comm_send_rw_comand ?t) (listening no r 50)"
    using comm_send_state [OF ok]
    by (rule returns_mono) (use assms in \<open>auto simp: t listening_def waiting_def transaction_def\<close>)
  ultimately show ?thesis by (simp add: returns_def)
qed

lemma listen_step:
  assumes "listening no r (Suc (Suc c)) s"
  shows "returns (silent_ms 1 s) (listening no r (Suc c))"
proof -
  have "uart1_tmr s \<noteq> 0" using assms by (auto simp: listening_def)
  with unat_minus_one [OF this] assms
  have i: "uart1_tmr s \<noteq> 0" "unat (uart1_tmr s - 1) = Suc c" by (simp_all add: listening_def)
  then have j: "uart1_tmr s - 1 \<noteq> 0" by (metis nat.distinct(1) unat_0)
  have "good s (uart_recv_timeout s)" using assms by (simp add: listening_def transaction_def uart_recv_timeout_good)
  with i j assms show ?thesis
    by (simp add: listening_def transaction_def uart_recv_timeout_def Let_def Modbus_RTU_Comm_Process_def good_def)
qed

lemma timeout_step:
  assumes "listening no r (Suc 0) s"
  shows "returns (silent_ms 1 s) (\<lambda>t. case r of 0 \<Rightarrow> given_up no t | Suc r' \<Rightarrow> waiting no r' 20 t)"
proof -
  let ?t = "uart_recv_timeout s"
  have "uart1_tmr s = 1" using assms by (simp add: listening_def word_unat_eq_iff)
  then have t: "?t = s\<lparr>uart1_tmr := 0, uart1_commu_state := RECV_DATA_END\<rparr>"
    using assms by (simp add: listening_def uart_recv_timeout_def Let_def)
  have ok: "sys_ok ?t" "node_ok (comm_node ?t)" "comm_busy_flag ?t \<noteq> 0"
    using assms uart_recv_timeout_good [of s] by (simp_all add: listening_def transaction_def good_def t)
  have recv: "comm_recv_rw_comand (uart1_recv_buff ?t) (uart1_recv_count ?t) ?t = Some (0, ?t)"
    using assms by (simp add: comm_recv_rw_comand_def t listening_def)
  have g: "returns (Modbus_RTU_Comm_Process ?t) sys_ok"
    by (rule returns_mono [OF Comm_Process_sends [OF ok(1)] sends_ok])
  have "returns (Modbus_RTU_Comm_Process ?t) (\<lambda>t. case r of 0 \<Rightarrow> given_up no t | Suc r' \<Rightarrow> waiting no r' 20 t)"
  proof (cases r)
    case 0
    then have "\<not> 0 < comm_retry (comm_node ?t)" using assms by (simp add: t listening_def transaction_def unat_eq_zero)
    have len: "length (inverter_status_buffer ?t) = 10" using ok(1) by (simp add: sys_defs)
    note k = node_belt_less [OF ok(2)] belt_index_node [OF ok(2)]
    have "unat (inverter_no (comm_node ?t)) - 1 = unat no - 1" using assms by (simp add: t listening_def transaction_def)
    then show ?thesis
      using g 0 recv ok(3) k len \<open>\<not> 0 < comm_retry (comm_node ?t)\<close>
      by (simp add: Modbus_RTU_Comm_Process_def t map_fault_def idx_def upd_def given_up_def good_def bit_or_iff)
  next
    case (Suc r')
    then have r: "comm_retry (comm_node s) \<noteq> 0" "unat (comm_retry (comm_node s)) = Suc r'"
      using assms by (auto simp: listening_def transaction_def)
    with unat_minus_one [OF r(1)] have "unat (comm_retry (comm_node s) - 1) = r'" by simp
    then show ?thesis
      using g Suc recv ok assms r
      by (simp add: Modbus_RTU_Comm_Process_def t listening_def transaction_def waiting_def good_def word_gt_0)
  qed
  then show ?thesis by (simp add: returns_def)
qed

lemma silent_ms_then:
  "returns (silent_ms m s) P \<Longrightarrow> (\<And>t. P t \<Longrightarrow> returns (silent_ms n t) Q) \<Longrightarrow> returns (silent_ms (m + n) s) Q"
  unfolding silent_ms_add by (rule returns_bind)

lemma wait_run: "waiting no r (Suc d) s \<Longrightarrow> returns (silent_ms (1 + d) s) (listening no r 50)"
proof (induction d arbitrary: s)
  case 0
  then show ?case using send_step by simp
next
  case (Suc d)
  from silent_ms_then [OF wait_step [OF Suc.prems], of "1 + d"] Suc.IH show ?case by simp
qed

lemma listen_run:
  "listening no r (Suc c) s \<Longrightarrow>
     returns (silent_ms (1 + c) s) (\<lambda>t. case r of 0 \<Rightarrow> given_up no t | Suc r' \<Rightarrow> waiting no r' 20 t)"
proof (induction c arbitrary: s)
  case 0
  then show ?case using timeout_step by simp
next
  case (Suc c)
  from silent_ms_then [OF listen_step [OF Suc.prems], of "1 + c"] Suc.IH show ?case by simp
qed

lemma silent_transaction:
  "waiting no r (Suc d) s \<Longrightarrow> returns (silent_ms ((1 + d) + (1 + 49) + 70 * r) s) (given_up no)"
proof (induction r arbitrary: d s)
  case 0
  have "returns (silent_ms ((1 + d) + (1 + 49)) s) (given_up no)"
    by (rule silent_ms_then [OF wait_run [OF 0]]) (use listen_run [of no 0 49] in simp)
  then show ?case by simp
next
  case (Suc r)
  have once: "returns (silent_ms ((1 + d) + (1 + 49)) s) (waiting no r (Suc 19))"
    by (rule silent_ms_then [OF wait_run [OF Suc.prems]]) (use listen_run [of no "Suc r" 49] in simp)
  have "returns (silent_ms ((1 + d) + (1 + 49) + (70 + 70 * r)) s) (given_up no)"
    by (rule silent_ms_then [OF once]) (use Suc.IH [of 19] in simp)
  then show ?case by simp
qed

text \<open>C27. A command to an inverter that never answers is finished in bounded time: it is sent
  after its interval of \<open>d\<close> ms, each of its \<open>r\<close> repetitions follows 70 ms after the
  attempt before, and after \<open>d + 50 + 70 r\<close> ms the communication fault of that
  inverter is set and the line is free for the next command.\<close>

theorem silent_inverter_reported:
  assumes "sys_ok s" "comm_busy_flag s = 1" "uart1_commu_state s = SEND_READY" "uart1_tmr s = 0"
    and "comm_interval (comm_node s) \<noteq> 0"
  shows "\<exists>s'. silent_ms (unat (comm_interval (comm_node s)) + 50 + 70 * unat (comm_retry (comm_node s))) s = Some s' \<and>
    comm_busy_flag s' = 0 \<and>
    bit (fault_code (inverter_status_buffer s' ! (unat (inverter_no (comm_node s)) - 1))) 0"
proof -
  have "0 < unat (comm_interval (comm_node s))" using assms(5) by (simp add: unat_gt_0)
  then obtain d where d: "unat (comm_interval (comm_node s)) = Suc d" by (metis gr0_implies_Suc)
  have "node_ok (comm_node s)" using assms(1,2) by (simp add: sys_defs)
  with assms d have "waiting (inverter_no (comm_node s)) (unat (comm_retry (comm_node s))) (Suc d) s"
    by (simp add: waiting_def transaction_def node_ok_def)
  from silent_transaction [OF this] show ?thesis by (auto simp: returns_def given_up_def d)
qed

theorem silent_inverter_reported_witness:
  "\<exists>s'. silent_ms 270 ((demo_write 2)\<lparr>uart1_commu_state := SEND_READY\<rparr>) = Some s' \<and> comm_busy_flag s' = 0 \<and>
     bit (fault_code (inverter_status_buffer s' ! 1)) 0"
proof -
  let ?s = "(demo_write 2)\<lparr>uart1_commu_state := SEND_READY\<rparr>"
  have "sys_ok ?s" using demo_write_ok(1) [of 2] by (simp add: sys_defs)
  moreover have "comm_busy_flag ?s = 1" "comm_node ?s = write_node 2 2 10" by (simp_all add: demo_write_def)
  moreover have "uart1_tmr ?s = 0"
    by (simp add: demo_write_def demo_def power_on_def queues_ready_def InitModuleStatusQueue_def
      InitSendMsgQueue_def InitCanSendQueue_def InitUartSendQueue_def)
  ultimately show ?thesis
    using silent_inverter_reported [of ?s] by (simp add: write_node_def)
qed

end
