(* ===== verification/Server.thy ===== *)
theory Server
  imports Modbus
begin

text \<open>
  The message layer of fun.c between the host station and the server: checking and executing
  received messages, and building the messages that are sent. A message starts with
  \<open>MSG_HEAD_DATA\<close> (packed: tag AA AA, id, length, checksum, type); the checksum is the
  exclusive-or of the bytes from the type on.

  The functions of fun.c work on a buffer and a length they get as pointers; here the buffer is
  an argument, and the new buffer and length are part of the result.
\<close>

section \<open>Checksum and header\<close>

definition xor_byte :: "u8 \<Rightarrow> u8 \<Rightarrow> u8" where
  "xor_byte w b = w XOR b"

interpretation xorsum: checksum "0 :: u8" xor_byte
proof
  show "xor_byte w b = xor_byte w' b \<Longrightarrow> w = w'" for w w' b
    by (simp add: xor_byte_def xor_cancel_right)
  show "xor_byte w b = xor_byte w b' \<Longrightarrow> b = b'" for w b b'
    by (simp add: xor_byte_def) (metis xor.commute xor_cancel_right)
qed

text \<open>The loop \<open>sum = p[9]; for(i = 1; i < len - 9; i++) sum ^= p[9 + i];\<close>.\<close>

definition msg_sum :: "u8 list \<Rightarrow> nat \<Rightarrow> u8 option" where
  "msg_sum point len = do {
     s0 \<leftarrow> idx point 9;
     for_up 1 (len - 9) (\<lambda>i sum. do { b \<leftarrow> idx point (9 + i); Some (sum XOR b) }) s0
   }"

record MSG_HEAD_DATA =
  MSG_TAG :: "u8 list"
  MSG_ID :: u32
  MSG_LENGTH :: u16
  MSG_CRC :: u8
  MSG_TYPE :: u16

text \<open>\<open>(MSG_HEAD_DATA * )point\<close>\<close>

definition msg_head :: "u8 list \<Rightarrow> MSG_HEAD_DATA option" where
  "msg_head point =
     (if 11 \<le> length point
      then Some \<lparr>MSG_TAG = take 2 point,
        MSG_ID = ucast (point ! 2) OR push_bit 8 (ucast (point ! 3)) OR push_bit 16 (ucast (point ! 4)) OR
          push_bit 24 (ucast (point ! 5)),
        MSG_LENGTH = le16 (point ! 6) (point ! 7), MSG_CRC = point ! 8,
        MSG_TYPE = le16 (point ! 9) (point ! 10)\<rparr>
      else None)"

section \<open>Received messages\<close>

definition recv_msg_check :: "u8 list \<Rightarrow> u16 \<Rightarrow> u8 option" where
  "recv_msg_check point len = do {
     p0 \<leftarrow> idx point 0;
     p1 \<leftarrow> idx point 1;
     p6 \<leftarrow> idx point 6;
     p7 \<leftarrow> idx point 7;
     p8 \<leftarrow> idx point 8;
     if p0 \<noteq> 0xAA \<or> p1 \<noteq> 0xAA then Some 0
     else if ucast p6 OR push_bit 8 (ucast p7) \<noteq> len then Some 0
     else do {
       sum \<leftarrow> msg_sum point (unat len);
       Some (if sum \<noteq> p8 then 0 else 1)
     }
   }"

definition recv_msg_process :: "u8 list \<Rightarrow> fw \<Rightarrow> fw option" where
  "recv_msg_process point s = do {
     head \<leftarrow> msg_head point;
     if MSG_TYPE head = RECV_MSG_BOOT_CMD_TYPE then Some (enter_boot_mode s)
     else if MSG_TYPE head = RECV_MSG_READ_PARA_CMD_TYPE then do {
       st \<leftarrow> idx point 11;
       if st = local_station s
       then Some (AddSendMsgToQueue REPLY_RECV_MSG_READ_PARA_CMD_TYPE (s\<lparr>user_paras_slave := user_paras_local s\<rparr>))
       else can_bus_send_read_user_paras st s
     }
     else if MSG_TYPE head = RECV_MSG_WRITE_PARA_CMD_TYPE then
       if 11 + sizeof_USER_PARAS_T \<le> length point then do {
         let s0 = s\<lparr>user_paras_temp := bytes_paras (take sizeof_USER_PARAS_T (drop 11 point))\<rparr>;
         if Station_No (user_paras_temp s0) = ucast (local_station s0) then do {
           s1 \<leftarrow> write_user_paras (bytes_u16s (drop 17 point)) s0;
           s2 \<leftarrow> read_user_paras s1;
           Some (AddSendMsgToQueue REPLY_RECV_MSG_WRITE_PARA_CMD_TYPE (s2\<lparr>user_paras_slave := user_paras_local s2\<rparr>))
         }
         else can_bus_send_write_user_paras (user_paras_temp s0) s0
       } else None
     else if MSG_TYPE head = RECV_MSG_START_CMD_TYPE then do {
       g \<leftarrow> idx point 11;
       s1 \<leftarrow> Speed_Ctrl_Process g s;
       can_bus_send_start_cmd g s1
     }
     else if MSG_TYPE head = RECV_MSG_RESET_CMD_TYPE then do {
       s1 \<leftarrow> Reset_Ctrl_Handle s;
       can_bus_send_reset_cmd s1
     }
     else if MSG_TYPE head = RECV_MSG_FUNC_SELECT_CMD_TYPE then do {
       v \<leftarrow> idx point 11;
       can_bus_send_func_select_cmd (drop 11 point) (s\<lparr>g_block_disable_flag := v\<rparr>)
     }
     else Some s
   }"

text \<open>The result is the new length (always 0) and the state.\<close>

definition recv_message_from_server :: "u8 list \<Rightarrow> u16 \<Rightarrow> fw \<Rightarrow> (u16 \<times> fw) option" where
  "recv_message_from_server point len s = do {
     ok \<leftarrow> recv_msg_check point len;
     if ok = 0 then Some (0, s)
     else do { s1 \<leftarrow> recv_msg_process point s; Some (0, s1) }
   }"

section \<open>Sent messages\<close>

primrec store_all :: "(nat \<times> u8) list \<Rightarrow> u8 list \<Rightarrow> u8 list option" where
  "store_all [] buf = Some buf"
| "store_all (p # ps) buf = do { b \<leftarrow> upd buf (fst p) (snd p); store_all ps b }"

definition put_type :: "u16 \<Rightarrow> u8 list \<Rightarrow> u8 list option" where
  "put_type type buf = store_all [(9, lo8 type), (10, hi8 type)] buf"

definition put_head :: "u16 \<Rightarrow> u8 \<Rightarrow> u8 list \<Rightarrow> u8 list option" where
  "put_head sendlen chk buf =
     store_all [(0, 0xAA), (1, 0xAA), (2, 0x01), (3, 0x00), (4, 0x00), (5, 0x00), (6, lo8 sendlen),
       (7, hi8 sendlen), (8, chk)] buf"

definition send_heart_msg :: "u16 \<Rightarrow> u8 list \<Rightarrow> (u8 list \<times> u16) option" where
  "send_heart_msg type buf = do {
     b \<leftarrow> store_all [(0, 0xAA), (1, 0xAA), (2, 0x01), (3, 0x00), (4, 0x00), (5, 0x00), (6, 0x0B), (7, 0x00),
       (8, ucast (type AND 0xFF) XOR ucast (drop_bit 8 type)), (9, lo8 type), (10, hi8 type)] buf;
     Some (b, 11)
   }"

text \<open>The two parameter replies have the same body. \<open>sendlen\<close> is a half-word; the copy
  loop reads \<open>user_paras_slave\<close> byte by byte.\<close>

definition reply_para :: "u16 \<Rightarrow> u8 list \<Rightarrow> fw \<Rightarrow> (u8 list \<times> u16) option" where
  "reply_para type buf s = do {
     let sendlen = (11 + 12 + of_nat sizeof_BELT_PARAS_T * Belt_Number (user_paras_slave s) :: u16);
     b1 \<leftarrow> put_type type buf;
     b2 \<leftarrow> for_up 0 (unat sendlen - 11)
       (\<lambda>i b. do { v \<leftarrow> idx (paras_bytes (user_paras_slave s)) i; upd b (11 + i) v }) b1;
     sum \<leftarrow> msg_sum b2 (unat sendlen);
     b3 \<leftarrow> put_head sendlen sum b2;
     Some (b3, sendlen)
   }"

definition send_reply_read_para_cmd :: "u16 \<Rightarrow> u8 list \<Rightarrow> fw \<Rightarrow> (u8 list \<times> u16) option" where
  "send_reply_read_para_cmd = reply_para"

definition send_reply_write_para_cmd :: "u16 \<Rightarrow> u8 list \<Rightarrow> fw \<Rightarrow> (u8 list \<times> u16) option" where
  "send_reply_write_para_cmd = reply_para"

definition send_msg_module_status_cmd :: "u16 \<Rightarrow> u8 list \<Rightarrow> fw \<Rightarrow> ((u8 list \<times> u16) \<times> fw) option" where
  "send_msg_module_status_cmd type buf s =
     (case GetModuleStatusDataFromQueue s of
        (None, s1) \<Rightarrow> Some ((buf, 0), s1)
      | (Some m, s1) \<Rightarrow> do {
          b1 \<leftarrow> put_type type buf;
          b2 \<leftarrow> store_all [(11, 1), (12, ucast (station_no m)), (13, ucast (belt_number m))] b1;
          b3 \<leftarrow> memcpy b2 14 (inverters_bytes (inverter_status m)) (sizeof_INVERTER_STATUS_T * unat (belt_number m));
          let sendlen = (14 + of_nat sizeof_INVERTER_STATUS_T * belt_number m :: u16);
          sum \<leftarrow> msg_sum b3 (unat sendlen);
          b4 \<leftarrow> put_head sendlen sum b3;
          Some ((b4, sendlen), s1)
        })"

definition set_send :: "u8 list \<times> u16 \<Rightarrow> u8 \<Rightarrow> fw \<Rightarrow> fw" where
  "set_send r en s = s\<lparr>tcp_client := (tcp_client s)\<lparr>tcp_send_buf := fst r, tcp_send_len := snd r, tcp_send_en := en\<rparr>\<rparr>"

definition send_message_to_server :: "fw \<Rightarrow> fw option" where
  "send_message_to_server s =
     (if tcp_send_en (tcp_client s) = 0 then
        (let (msg_type, s1) = GetSendMsgFromQueue s in
         if msg_type = SEND_MSG_MODULE_STATUS_TYPE then do {
           (r, s2) \<leftarrow> send_msg_module_status_cmd msg_type (tcp_send_buf (tcp_client s1)) s1;
           Some (set_send r (if snd r \<noteq> 0 then 1 else tcp_send_en (tcp_client s2)) s2)
         }
         else if msg_type = REPLY_RECV_MSG_READ_PARA_CMD_TYPE then do {
           r \<leftarrow> send_reply_read_para_cmd msg_type (tcp_send_buf (tcp_client s1)) s1;
           Some (set_send r 1 s1)
         }
         else if msg_type = REPLY_RECV_MSG_WRITE_PARA_CMD_TYPE then do {
           r \<leftarrow> send_reply_write_para_cmd msg_type (tcp_send_buf (tcp_client s1)) s1;
           Some (set_send r 1 s1)
         }
         else Some s1)
      else Some s)"

section \<open>Messages as byte sequences\<close>

text \<open>A message with the given body (the type and what follows it).\<close>

definition server_msg :: "u8 list \<Rightarrow> u8 list" where
  "server_msg body =
     (let n = (of_nat (9 + length body) :: u16) in
      [0xAA, 0xAA, 0x01, 0x00, 0x00, 0x00, lo8 n, hi8 n, xorsum.digest body] @ body)"

lemma length_server_msg [simp]: "length (server_msg body) = 9 + length body"
  by (simp add: server_msg_def Let_def)

lemma xorsum_snoc: "xorsum.digest (xs @ [b]) = xorsum.digest xs XOR b"
  by (simp add: xorsum.digest_append xor_byte_def)

lemma msg_sum_eq:
  assumes "10 \<le> n" "n \<le> length point"
  shows "msg_sum point n = Some (xorsum.digest (take (n - 9) (drop 9 point)))"
proof -
  let ?body = "\<lambda>i sm. do { b \<leftarrow> idx point (9 + i); Some (sm XOR b) }"
  let ?P = "\<lambda>i sm. sm = xorsum.digest (take i (drop 9 point))"
  have one: "take 1 (drop 9 point) = [point ! 9]"
    using take_Suc_conv_app_nth [of 0 "drop 9 point"] assms by simp
  have "\<exists>t. for_up 1 (n - 9) ?body (point ! 9) = Some t \<and> ?P (n - 9) t"
  proof (rule for_up_rule [where P = ?P])
    show "?P 1 (point ! 9)" unfolding one by (simp add: xorsum.digest_def xor_byte_def)
    show "1 \<le> n - 9" using assms(1) by simp
    show "\<exists>t'. ?body i t = Some t' \<and> ?P (Suc i) t'" if "1 \<le> i" "i < n - 9" "?P i t" for i t
    proof -
      have "take (Suc i) (drop 9 point) = take i (drop 9 point) @ [point ! (9 + i)]"
        using that assms by (simp add: take_Suc_conv_app_nth)
      with that assms show ?thesis by (simp add: idx_def xorsum_snoc)
    qed
  qed
  then show ?thesis using assms by (auto simp: msg_sum_def idx_def)
qed

lemma store_seq:
  "k + length vs \<le> length buf \<Longrightarrow>
     store_all (zip [k..<k + length vs] vs) buf = Some (take k buf @ vs @ drop (k + length vs) buf)"
proof (induction vs arbitrary: k buf)
  case Nil
  then show ?case by simp
next
  case (Cons v vs)
  have u: "[k..<k + length (v # vs)] = k # [Suc k..<Suc k + length vs]"
    by (subst upt_conv_Cons) simp_all
  have "take (Suc k) (buf[k := v]) = take k buf @ [v]"
    using Cons.prems by (simp add: take_Suc_conv_app_nth)
  then show ?case
    using Cons.prems Cons.IH [of "Suc k" "buf[k := v]"] unfolding u by (simp add: upd_def)
qed

lemma put_type_eq: "11 \<le> length buf \<Longrightarrow> put_type ty buf = Some (take 9 buf @ [lo8 ty, hi8 ty] @ drop 11 buf)"
  using store_seq [of 9 "[lo8 ty, hi8 ty]" buf] by (simp add: put_type_def upt_rec numeral_eq_Suc)

lemma put_head_eq:
  assumes "9 \<le> length buf"
  shows "put_head n c buf = Some ([0xAA, 0xAA, 0x01, 0x00, 0x00, 0x00, lo8 n, hi8 n, c] @ drop 9 buf)"
  using store_seq [of 0 "[0xAA, 0xAA, 0x01, 0x00, 0x00, 0x00, lo8 n, hi8 n, c]" buf] assms
  by (simp add: put_head_def upt_rec numeral_eq_Suc)

text \<open>The tail of every builder: checksum and header around a body that starts at offset 9.\<close>

lemma seal_msg:
  assumes "buf = pre @ body @ rest" "length pre = 9" "body \<noteq> []" "n = 9 + length body"
  shows "msg_sum buf n = Some (xorsum.digest body)"
    and "put_head (of_nat n) (xorsum.digest body) buf = Some (server_msg body @ rest)"
proof -
  have "10 \<le> n" using assms(3,4) by (cases body) simp_all
  then show "msg_sum buf n = Some (xorsum.digest body)"
    using assms by (simp add: msg_sum_eq)
  show "put_head (of_nat n) (xorsum.digest body) buf = Some (server_msg body @ rest)"
    using assms by (simp add: put_head_eq server_msg_def Let_def)
qed

lemma recv_msg_check_eq:
  assumes "buf = [a, b, i0, i1, i2, i3, l0, l1, c] @ body @ rest" "body \<noteq> []" "unat len = 9 + length body"
  shows "recv_msg_check buf len =
    Some (if a = 0xAA \<and> b = 0xAA \<and> le16 l0 l1 = len \<and> c = xorsum.digest body then 1 else 0)"
proof -
  have "msg_sum buf (unat len) = Some (xorsum.digest body)"
    by (rule seal_msg(1) [OF _ _ assms(2,3), of _ "[a, b, i0, i1, i2, i3, l0, l1, c]" rest])
      (simp_all add: assms(1))
  moreover have "idx buf 0 = Some a" "idx buf 1 = Some b" "idx buf 6 = Some l0" "idx buf 7 = Some l1" "idx buf 8 = Some c"
    unfolding assms(1) by (simp_all add: idx_def)
  ultimately show ?thesis
    by (auto simp: recv_msg_check_def le16_def)
qed

lemma recv_headed_msg:
  assumes "body \<noteq> []" "9 + length body < 65536" "n = of_nat (9 + length body)"
  shows "recv_msg_check ([0xAA, 0xAA, 0x01, 0x00, 0x00, 0x00, lo8 n, hi8 n, c] @ body @ rest) n =
    Some (if c = xorsum.digest body then 1 else 0)"
proof -
  have "unat n = 9 + length body" unfolding assms(3) using assms(2) by (intro unat_of_nat_small) simp
  from recv_msg_check_eq [OF refl assms(1) this, of "0xAA" "0xAA" 1 0 0 0 "lo8 n" "hi8 n" c rest]
  show ?thesis by simp
qed

lemma recv_server_msg:
  "body \<noteq> [] \<Longrightarrow> 9 + length body < 65536 \<Longrightarrow>
     recv_msg_check (server_msg body @ rest) (of_nat (9 + length body)) = Some 1"
  using recv_headed_msg [OF _ _ refl, of body "xorsum.digest body" rest]
  unfolding server_msg_def Let_def append_assoc by simp

text \<open>A message with the header the firmware builds passes the firmware's own check, whatever
  follows it in the buffer; a change of one byte of its body, or of its checksum byte, makes
  the check fail.\<close>

lemma server_msg_check:
  assumes "body \<noteq> []" "9 + length body < 65536"
  shows "recv_msg_check (server_msg body @ rest) (of_nat (9 + length body)) = Some 1 \<and>
    (\<forall>pre x post y. body = pre @ [x] @ post \<and> y \<noteq> x \<longrightarrow>
       recv_msg_check (take 9 (server_msg body) @ (pre @ [y] @ post) @ rest) (of_nat (9 + length body)) = Some 0) \<and>
    (\<forall>c. c \<noteq> xorsum.digest body \<longrightarrow>
       recv_msg_check (take 8 (server_msg body) @ [c] @ body @ rest) (of_nat (9 + length body)) = Some 0)"
proof -
  let ?n = "of_nat (9 + length body) :: u16"
  let ?h = "\<lambda>c. [0xAA, 0xAA, 0x01, 0x00, 0x00, 0x00, lo8 ?n, hi8 ?n, c]"
  have h: "server_msg body = ?h (xorsum.digest body) @ body" "take 9 (server_msg body) = ?h (xorsum.digest body)"
    "take 8 (server_msg body) @ [c] = ?h c" for c
    by (simp_all add: server_msg_def Let_def)
  have chk: "recv_msg_check (?h c @ b @ rest) ?n = Some (if c = xorsum.digest b then 1 else 0)"
    if "length b = length body" for c b
    by (rule recv_headed_msg) (use that assms in \<open>auto simp flip: length_greater_0_conv\<close>)
  have "recv_msg_check (?h (xorsum.digest body) @ (pre @ [y] @ post) @ rest) ?n = Some 0"
    if "body = pre @ [x] @ post \<and> y \<noteq> x" for pre x post y
  proof -
    have "xorsum.digest body \<noteq> xorsum.digest (pre @ [y] @ post)"
      using xorsum.single_byte_detected [of x y pre post] that by auto
    with chk [of "pre @ [y] @ post"] that show ?thesis by simp
  qed
  moreover have "recv_msg_check (take 8 (server_msg body) @ [c] @ body @ rest) ?n = Some 0"
    if "c \<noteq> xorsum.digest body" for c
  proof -
    have "take 8 (server_msg body) @ [c] @ body @ rest = ?h c @ body @ rest"
      by (simp add: server_msg_def Let_def)
    with chk [of body c] that show ?thesis by simp
  qed
  moreover have "recv_msg_check (server_msg body @ rest) ?n = Some 1"
    using chk [of body "xorsum.digest body"] unfolding h(1) by simp
  ultimately show ?thesis unfolding h(2) by blast
qed

lemma server_msg_check_witness:
  "recv_msg_check (server_msg [0x10, 0x16, 2] @ [0, 0]) 12 = Some 1 \<and>
   recv_msg_check (take 9 (server_msg [0x10, 0x16, 2]) @ ([0x10, 0x16] @ [3] @ []) @ [0, 0]) 12 = Some 0"
proof -
  note chk = server_msg_check [of "[0x10, 0x16, 2]" "[0, 0]"]
  have "recv_msg_check (server_msg [0x10, 0x16, 2] @ [0, 0]) (of_nat 12) = Some 1" using chk by simp
  moreover have "recv_msg_check (take 9 (server_msg [0x10, 0x16, 2]) @ ([0x10, 0x16] @ [3] @ []) @ [0, 0]) (of_nat 12) = Some 0"
    using chk [THEN conjunct2, THEN conjunct1, THEN spec [of _ "[0x10, 0x16]"], THEN spec [of _ 2],
        THEN spec [of _ "[]"], THEN spec [of _ 3]] by simp
  ultimately show ?thesis by simp
qed

section \<open>What is sent\<close>

lemma copy_loop:
  assumes "m \<le> length src" "m \<le> length rest" "length pre = n"
  shows "for_up 0 m (\<lambda>i b. do { v \<leftarrow> idx src i; upd b (n + i) v }) (pre @ rest) =
    Some (pre @ take m src @ drop m rest)"
proof -
  let ?P = "\<lambda>i b. b = pre @ take i src @ drop i rest"
  let ?body = "\<lambda>i b. do { v \<leftarrow> idx src i; upd b (n + i) v }"
  have "\<exists>b. for_up 0 m ?body (pre @ rest) = Some b \<and> ?P m b"
  proof (rule for_up_rule [where P = ?P])
    show "\<exists>b'. ?body i b = Some b' \<and> ?P (Suc i) b'" if "i < m" "?P i b" for i b
    proof -
      have "drop i rest = rest ! i # drop (Suc i) rest" using that assms by (simp add: Cons_nth_drop_Suc)
      then show ?thesis
        using that assms by (simp add: idx_def upd_def list_update_append take_Suc_conv_app_nth)
    qed
  qed simp_all
  then show ?thesis by auto
qed

definition para_reply_body :: "u16 \<Rightarrow> USER_PARAS_T \<Rightarrow> u8 list" where
  "para_reply_body ty p = [lo8 ty, hi8 ty] @ take (12 + 22 * unat (Belt_Number p)) (paras_bytes p)"

lemma reply_para_eq:
  assumes "wf_paras (user_paras_slave s)" "Belt_Number (user_paras_slave s) \<le> 10" "length buf = 300"
    and "k = unat (Belt_Number (user_paras_slave s))"
  shows "reply_para ty buf s =
    Some (server_msg (para_reply_body ty (user_paras_slave s)) @ drop (23 + 22 * k) buf, of_nat (23 + 22 * k))"
proof -
  let ?p = "user_paras_slave s" and ?body = "para_reply_body ty (user_paras_slave s)"
  have k: "k \<le> 10" using assms(2,4) by (simp add: word_le_nat_alt)
  have n: "11 + 12 + of_nat sizeof_BELT_PARAS_T * Belt_Number ?p = (of_nat (23 + 22 * k) :: u16)"
    by (simp add: assms(4))
  have u: "unat (of_nat (23 + 22 * k) :: u16) = 23 + 22 * k" using k by (intro unat_of_nat_small) simp
  have l: "length (paras_bytes ?p) = 232" using assms(1) by simp
  have body: "length ?body = 14 + 22 * k" using k l by (simp add: para_reply_body_def assms(4))
  have ty: "put_type ty buf = Some ((take 9 buf @ [lo8 ty, hi8 ty]) @ drop 11 buf)"
    using assms(3) by (simp add: put_type_eq)
  have cp: "for_up 0 (12 + 22 * k) (\<lambda>i b. do { v \<leftarrow> idx (paras_bytes ?p) i; upd b (11 + i) v })
      ((take 9 buf @ [lo8 ty, hi8 ty]) @ drop 11 buf) = Some (take 9 buf @ ?body @ drop (23 + 22 * k) buf)"
    using copy_loop [of "12 + 22 * k" "paras_bytes ?p" "drop 11 buf" "take 9 buf @ [lo8 ty, hi8 ty]" 11] k l assms(3)
    by (simp add: para_reply_body_def assms(4) add.commute)
  have "?body \<noteq> []" by (simp add: para_reply_body_def)
  note seal = seal_msg [OF refl _ this, of "take 9 buf" "23 + 22 * k" "drop (23 + 22 * k) buf"]
  have i: "23 + 22 * k - 11 = 12 + 22 * k" by simp
  show ?thesis
    unfolding reply_para_def Let_def n u ty i
    using cp seal assms(3) body by simp
qed

text \<open>The reply to a parameter request is a message that passes the check, fits the send
  buffer, and carries the reply's type and the parameter block of the station up to its
  last belt, as it lies in memory.\<close>

lemma para_reply_sent:
  assumes "wf_paras (user_paras_slave s)" "Belt_Number (user_paras_slave s) \<le> 10" "length buf = 300"
  shows "\<exists>b n. send_reply_read_para_cmd ty buf s = Some (b, n) \<and> send_reply_write_para_cmd ty buf s = Some (b, n) \<and>
    recv_msg_check b n = Some 1 \<and> length b = 300 \<and>
    (let k = unat (Belt_Number (user_paras_slave s)) in unat n = 23 + 22 * k \<and>
      take (unat n) b = server_msg ([lo8 ty, hi8 ty] @ take (12 + 22 * k) (paras_bytes (user_paras_slave s))))"
proof -
  let ?k = "unat (Belt_Number (user_paras_slave s))" and ?body = "para_reply_body ty (user_paras_slave s)"
  have k: "?k \<le> 10" using assms(2) by (simp add: word_le_nat_alt)
  have body: "length ?body = 14 + 22 * ?k" using k assms(1) by (simp add: para_reply_body_def)
  have "recv_msg_check (server_msg ?body @ drop (23 + 22 * ?k) buf) (of_nat (23 + 22 * ?k)) = Some 1"
    using recv_server_msg [of ?body "drop (23 + 22 * ?k) buf"] body k by (cases ?body) simp_all
  moreover have "unat (of_nat (23 + 22 * ?k) :: u16) = 23 + 22 * ?k" using k by (intro unat_of_nat_small) simp
  ultimately show ?thesis
    using k body assms(3)
    by (simp add: send_reply_read_para_cmd_def send_reply_write_para_cmd_def reply_para_eq [OF assms refl]
        para_reply_body_def Let_def del: of_nat_add of_nat_mult)
qed

definition demo_host :: fw where
  "demo_host = demo\<lparr>isHost := 1, local_station := 1, user_paras_slave := demo_paras\<rparr>"

lemma para_reply_sent_witness:
  "\<exists>b n. send_reply_read_para_cmd 0x9603 (replicate 300 0) demo_host = Some (b, n) \<and> recv_msg_check b n = Some 1 \<and> unat n = 89"
  using para_reply_sent [of demo_host "replicate 300 0" "0x9603"]
  by (auto simp: demo_host_def demo_paras_def wf_paras_def Let_def word_le_nat_alt)

text \<open>The status message.\<close>

definition status_body :: "u16 \<Rightarrow> MODULE_STATUS_T \<Rightarrow> u8 list" where
  "status_body ty m = [lo8 ty, hi8 ty, 1, ucast (station_no m), ucast (belt_number m)] @
     take (10 * unat (belt_number m)) (inverters_bytes (inverter_status m))"

lemma status_cmd_eq:
  assumes "queues_inv s" "status_msgs s = m # ms" "status_ok m" "length buf = 300" "k = unat (belt_number m)"
  shows "send_msg_module_status_cmd ty buf s =
    Some ((server_msg (status_body ty m) @ drop (14 + 10 * k) buf, of_nat (14 + 10 * k)),
      s\<lparr>moduleStatusQueue := snd (outQueue (moduleStatusQueue s))\<rparr>)"
proof -
  note q = queues_invD(2) [OF assms(1)]
  have g: "GetModuleStatusDataFromQueue s = (Some m, s\<lparr>moduleStatusQueue := snd (outQueue (moduleStatusQueue s))\<rparr>)"
    using statusq.deq_fst [OF q assms(2)] by (simp add: GetModuleStatusDataFromQueue_def Let_def case_prod_unfold)
  have k: "k \<le> 10" and l: "length (inverters_bytes (inverter_status m)) = 100"
    using assms(3,5) by (simp_all add: status_ok_def word_le_nat_alt)
  have n: "14 + of_nat sizeof_INVERTER_STATUS_T * belt_number m = (of_nat (14 + 10 * k) :: u16)" by (simp add: assms(5))
  have u: "unat (of_nat (14 + 10 * k) :: u16) = 14 + 10 * k" using k by (intro unat_of_nat_small) simp
  have drop5: "drop (5 + j) (a # b # c # d # e # xs) = drop j xs" for j a b c d e and xs :: "u8 list"
    by (simp add: numeral_eq_Suc)
  have body: "length (status_body ty m) = 5 + 10 * k" using k l by (simp add: status_body_def assms(5))
  have "store_all [(11, 1), (12, ucast (station_no m)), (13, ucast (belt_number m))]
      (take 9 buf @ [lo8 ty, hi8 ty] @ drop 11 buf) =
      Some (take 9 buf @ [lo8 ty, hi8 ty, 1, ucast (station_no m), ucast (belt_number m)] @ drop 14 buf)"
    using store_seq [of 11 "[1, ucast (station_no m), ucast (belt_number m)]" "take 9 buf @ [lo8 ty, hi8 ty] @ drop 11 buf"] assms(4)
    by (simp add: upt_rec)
  moreover have "memcpy (take 9 buf @ [lo8 ty, hi8 ty, 1, ucast (station_no m), ucast (belt_number m)] @ drop 14 buf) 14
      (inverters_bytes (inverter_status m)) (10 * k) = Some (take 9 buf @ status_body ty m @ drop (14 + 10 * k) buf)"
    using k l assms(4) by (simp add: memcpy_def status_body_def assms(5) drop5) (simp add: add.commute)
  moreover have "status_body ty m \<noteq> []" by (simp add: status_body_def)
  note seal = seal_msg [OF refl _ this, of "take 9 buf" "14 + 10 * k" "drop (14 + 10 * k) buf"]
  ultimately show ?thesis
    unfolding send_msg_module_status_cmd_def g n u Let_def prod.case option.case
    using seal assms(4) body k
    by (simp add: put_type_eq u assms(5)[symmetric] del: of_nat_add of_nat_mult store_all.simps)
qed

section \<open>The message layer keeps the invariant\<close>

lemma sys_ok_set_send:
  "sys_ok t \<Longrightarrow> length (fst r) = 300 \<Longrightarrow> snd r \<le> 300 \<Longrightarrow> sys_ok (set_send r en t)"
  by (simp add: sys_defs set_send_def)

lemma good_set_send:
  "good s t \<Longrightarrow> length (fst r) = 300 \<Longrightarrow> snd r \<le> 300 \<Longrightarrow> good s (set_send r en t)"
  by (simp add: good_def sys_ok_set_send) (simp add: stable_def set_send_def)

lemma good_msgq: "sys_ok s \<Longrightarrow> good s (snd (GetSendMsgFromQueue s))"
  by (simp add: good_def stable_def sys_defs GetSendMsgFromQueue_def msgq.invar_deq case_prod_unfold split: option.split)

lemma small_of_nat: "n \<le> 300 \<Longrightarrow> (of_nat n :: u16) \<le> 300"
  by (simp add: word_le_nat_alt unat_of_nat)

lemma reply_para_ok:
  assumes "sys_ok s"
  shows "\<exists>r. reply_para ty (tcp_send_buf (tcp_client s)) s = Some r \<and> length (fst r) = 300 \<and> snd r \<le> 300"
proof -
  have p: "wf_paras (user_paras_slave s)" "Belt_Number (user_paras_slave s) \<le> 10" "length (tcp_send_buf (tcp_client s)) = 300"
    using assms by (simp_all add: sys_defs)
  have "unat (Belt_Number (user_paras_slave s)) \<le> 10" using p(2) by (simp add: word_le_nat_alt)
  then show ?thesis
    using p(1,3) small_of_nat [of "23 + 22 * unat (Belt_Number (user_paras_slave s))"]
    by (simp add: reply_para_eq [OF p refl] para_reply_body_def)
qed

lemma status_cmd_ok:
  assumes "sys_ok s"
  shows "\<exists>r t. send_msg_module_status_cmd ty (tcp_send_buf (tcp_client s)) s = Some (r, t) \<and>
    length (fst r) = 300 \<and> snd r \<le> 300 \<and> good s t"
proof (cases "status_msgs s")
  case Nil
  then have "GetModuleStatusDataFromQueue s = (None, s)"
    using statusq.deq_empty [OF queues_invD(2) [OF sys_okD(2) [OF assms]]] by (simp add: GetModuleStatusDataFromQueue_def)
  moreover have "length (tcp_send_buf (tcp_client s)) = 300" using assms by (simp add: sys_defs)
  ultimately show ?thesis using good_refl [OF assms] by (simp add: send_msg_module_status_cmd_def)
next
  case (Cons m ms)
  note q = queues_invD(2) [OF sys_okD(2) [OF assms]]
  have m: "status_ok m" "list_all status_ok ms" using sys_okD(8) [OF assms] Cons by simp_all
  have l: "length (tcp_send_buf (tcp_client s)) = 300" using assms by (simp add: sys_defs)
  have k: "unat (belt_number m) \<le> 10" using m(1) by (simp add: status_ok_def word_le_nat_alt)
  have "good s (s\<lparr>moduleStatusQueue := snd (outQueue (moduleStatusQueue s))\<rparr>)"
    using assms m(2) statusq.invar_deq [OF q] statusq.deq_snd [OF q Cons] by (simp add: good_def stable_def sys_defs)
  with k l m(1) show ?thesis
    using small_of_nat [of "14 + 10 * unat (belt_number m)"]
    by (simp add: status_cmd_eq [OF sys_okD(2) [OF assms] Cons m(1) l refl] status_body_def status_ok_def)
qed

lemma send_message_good:
  assumes "sys_ok s"
  shows "returns (send_message_to_server s) (good s)"
proof -
  obtain m t where t: "GetSendMsgFromQueue s = (m, t)" by fastforce
  have g: "good s t" using good_msgq [OF assms] t by simp
  then have ok: "sys_ok t" by (rule good_sys_ok)
  have st: "returns (do { (r, u) \<leftarrow> send_msg_module_status_cmd ty (tcp_send_buf (tcp_client t)) t;
      Some (set_send r (if snd r \<noteq> 0 then 1 else tcp_send_en (tcp_client u)) u) }) (good s)" for ty
    using status_cmd_ok [OF ok, of ty] good_trans [OF g] by (auto simp: good_set_send)
  have rp: "returns (do { r \<leftarrow> reply_para ty (tcp_send_buf (tcp_client t)) t; Some (set_send r 1 t) }) (good s)" for ty
    using reply_para_ok [OF ok, of ty] g by (auto simp: good_set_send)
  show ?thesis
    using t st rp g good_refl [OF assms]
    by (simp add: send_message_to_server_def send_reply_read_para_cmd_def send_reply_write_para_cmd_def)
qed

lemma recv_msg_check_defined:
  assumes "length point = 300" "len \<le> 300"
  shows "\<exists>v. recv_msg_check point len = Some v"
proof -
  have n: "unat len \<le> 300" using assms(2) by (simp add: word_le_nat_alt)
  have "\<exists>v. msg_sum point (unat len) = Some v"
  proof (cases "10 \<le> unat len")
    case True
    then show ?thesis using msg_sum_eq n assms(1) by simp
  next
    case False
    then show ?thesis using assms(1) by (simp add: msg_sum_def idx_def for_up_stop)
  qed
  then show ?thesis using assms(1) by (auto simp: recv_msg_check_def idx_def)
qed

lemma good_temp: "sys_ok s \<Longrightarrow> good s (s\<lparr>user_paras_temp := p\<rparr>)"
  by (simp add: good_def stable_def sys_defs)

lemma reset_and_cmd_good:
  assumes "sys_ok s"
  shows "returns (do { s1 \<leftarrow> Reset_Ctrl_Handle s; can_bus_send_reset_cmd s1 }) (good s)"
proof (rule returns_bind [OF Reset_Ctrl_good [OF assms]])
  fix t assume t: "good s t"
  then have "sys_ok t" by (rule good_sys_ok)
  with t show "returns (can_bus_send_reset_cmd t) (good s)"
    using send_reset_cmd_eq [OF sys_okD(3)] can_message_good [of t "[]"] good_trans [OF t] by simp
qed

lemma own_write_ok:
  assumes "sys_ok s" "113 \<le> length para"
  shows "returns (do { s1 \<leftarrow> write_user_paras para s; s2 \<leftarrow> read_user_paras s1;
    Some (AddSendMsgToQueue m (s2\<lparr>user_paras_slave := user_paras_local s2\<rparr>)) }) (safe s)"
proof -
  have "returns (do { s2 \<leftarrow> (do { s1 \<leftarrow> write_user_paras para s; read_user_paras s1 });
    Some (AddSendMsgToQueue m (s2\<lparr>user_paras_slave := user_paras_local s2\<rparr>)) }) (safe s)"
  proof (rule returns_bind [OF write_then_read_ok [OF assms]])
    fix t assume t: "safe s t"
    then have ok: "sys_ok t" by (rule safe_ok)
    then have g: "good t (t\<lparr>user_paras_slave := user_paras_local t\<rparr>)"
      by (intro sys_ok_slave) (simp_all add: sys_defs)
    have "good t (AddSendMsgToQueue m (t\<lparr>user_paras_slave := user_paras_local t\<rparr>))"
      by (rule good_trans [OF g good_AddSendMsg [OF good_sys_ok [OF g]]])
    then show "returns (Some (AddSendMsgToQueue m (t\<lparr>user_paras_slave := user_paras_local t\<rparr>))) (safe s)"
      using safe_trans [OF t] good_safe by simp
  qed
  then show ?thesis by simp
qed

lemma recv_msg_process_ok:
  assumes "sys_ok s" "length point = 300"
  shows "returns (recv_msg_process point s) (safe s)"
proof -
  obtain h where h: "msg_head point = Some h" using assms(2) by (simp add: msg_head_def)
  have i: "idx point 11 = Some (point ! 11)" using assms(2) by (simp add: idx_def)
  have own_read: "safe s (AddSendMsgToQueue m (s\<lparr>user_paras_slave := user_paras_local s\<rparr>))" for m
  proof -
    have g: "good s (s\<lparr>user_paras_slave := user_paras_local s\<rparr>)"
      using assms(1) by (intro sys_ok_slave) (simp_all add: sys_defs)
    show ?thesis by (rule good_safe [OF good_trans [OF g good_AddSendMsg [OF good_sys_ok [OF g]]]])
  qed
  have far_read: "returns (can_bus_send_read_user_paras st s) (safe s)" for st
    using send_read_user_paras_eq [OF sys_okD(3) [OF assms(1)]] can_message_good [OF assms(1), of "[3, 0, 1]"]
    by (simp add: good_safe)
  let ?t = "s\<lparr>user_paras_temp := bytes_paras (take 232 (drop 11 point))\<rparr>"
  have t: "good s ?t" using assms(1) by (rule good_temp)
  note ok = good_sys_ok [OF t]
  have own_write: "returns (do { s1 \<leftarrow> write_user_paras (bytes_u16s (drop 17 point)) ?t; s2 \<leftarrow> read_user_paras s1;
      Some (AddSendMsgToQueue m (s2\<lparr>user_paras_slave := user_paras_local s2\<rparr>)) }) (safe s)" for m
    by (rule returns_safe_step [OF good_safe [OF t] own_write_ok [OF ok]]) (simp add: assms(2))
  have far_write: "returns (can_bus_send_write_user_paras (bytes_paras (take 232 (drop 11 point))) ?t) (safe s)"
    unfolding can_bus_send_write_user_paras_def
    by (rule returns_safe_step [OF good_safe [OF t] returns_safe [OF send_paras_ok [OF ok]]]) simp
  have start: "returns (do { s1 \<leftarrow> Speed_Ctrl_Process g s; can_bus_send_start_cmd g s1 }) (safe s)" for g
    by (rule returns_safe [OF speed_and_cmd_good [OF good_refl [OF assms(1)]]])
  have sel: "returns (can_bus_send_func_select_cmd (drop 11 point) (s\<lparr>g_block_disable_flag := v\<rparr>)) (safe s)" for v
  proof -
    have g: "good s (s\<lparr>g_block_disable_flag := v\<rparr>)" using good_refl [OF assms(1)] by (rule good_update)
    obtain c cs where c: "drop 11 point = c # cs" using assms(2) by (cases "drop 11 point") simp_all
    show ?thesis
      using send_func_select_cmd_eq [OF sys_okD(3) [OF good_sys_ok [OF g]]] c
        good_trans [OF g can_message_good [OF good_sys_ok [OF g], of "[c]"]] by (simp add: good_safe)
  qed
  show ?thesis
    using own_read far_read own_write far_write start returns_safe [OF reset_and_cmd_good [OF assms(1)]] sel
      enter_boot_mode_safe [OF assms(1)] safe_refl [OF assms(1)] assms(2)
    by (simp add: recv_msg_process_def h i Let_def)
qed

lemma recv_message_ok:
  assumes "sys_ok s" "length point = 300" "len \<le> 300"
  shows "returns (recv_message_from_server point len s) (\<lambda>(n, t). n = 0 \<and> safe s t)"
proof -
  obtain v where "recv_msg_check point len = Some v" using recv_msg_check_defined [OF assms(2,3)] by blast
  moreover have "returns (do { s1 \<leftarrow> recv_msg_process point s; Some (0 :: u16, s1) }) (\<lambda>(n, t). n = 0 \<and> safe s t)"
    by (rule returns_bind [OF recv_msg_process_ok [OF assms(1,2)]]) simp
  ultimately show ?thesis using safe_refl [OF assms(1)] by (simp add: recv_message_from_server_def)
qed

section \<open>Server commands\<close>

lemma server_msg_type:
  "length (server_msg (a # b # body) @ rest) = 300 \<Longrightarrow>
     \<exists>h. msg_head (server_msg (a # b # body) @ rest) = Some h \<and> MSG_TYPE h = le16 a b"
  by (simp add: msg_head_def server_msg_def Let_def)

lemma server_msg_payload: "drop 11 (server_msg (a # b # body) @ rest) = body @ rest"
  by (simp add: server_msg_def Let_def)

lemma recv_server_msg_accepted:
  assumes "length body < 65527" "body \<noteq> []" "len = of_nat (9 + length body)"
  shows "recv_message_from_server (server_msg body @ rest) len s =
    (do { s1 \<leftarrow> recv_msg_process (server_msg body @ rest) s; Some (0, s1) })"
  using recv_server_msg [of body rest] assms by (simp add: recv_message_from_server_def)

text \<open>C34. A start command of the server (any gear, stop and emergency stop included) is executed
  by the host itself and broadcast to the slave stations: the commands of the gear are in the
  UART queue, and a start frame with the same gear is queued for the CAN bus.\<close>

theorem server_start_executed_and_broadcast:
  assumes "sys_ok s" "point = server_msg [0x10, 0x16, g] @ rest" "length point = 300"
  shows "\<exists>s' t. recv_message_from_server point 12 s = Some (0, s') \<and> Speed_Ctrl_Process g s = Some t \<and>
    uart_nodes s' = uart_nodes t \<and> g_speed_gear_status s' = g_speed_gear_status t \<and>
    can_frames s' = can_frames s @ take (49 - length (can_frames s))
      (msg_frames (uninit_frame s) CAN_FUNC_ID_START_CMD (local_station s) [g])"
proof -
  obtain t where t: "Speed_Ctrl_Process g s = Some t" "good s t"
    using Speed_Ctrl_Process_good [OF assms(1)] by (auto simp: returns_def)
  then have ok: "sys_ok t" by (simp add: good_def)
  have fr: "uninit_frame t = uninit_frame s" "can_frames t = can_frames s"
    using t(1) by (auto simp: Speed_Ctrl_Process_eq [OF sys_okD(1) [OF assms(1)]] AddUartNodes_def
        InitUartSendQueue_def B_RUN_STA_OUT_def GPIO_WriteBit_def split: if_splits)
  have ls: "local_station t = local_station s" using t(2) by (simp add: good_def stable_def)
  obtain h where h: "msg_head point = Some h" "MSG_TYPE h = 0x1610"
    using server_msg_type [of "0x10" "0x16" "[g]" rest] assms(2,3) by (auto simp: le16_def)
  have "drop 11 point = g # rest" using server_msg_payload [of "0x10" "0x16" "[g]" rest] assms(2) by simp
  then have i: "idx point 11 = Some g" using assms(3) by (metis Suc_eq_plus1 drop_eq_Nil2 idx_Some list.distinct(1)
        not_le nth_via_drop)
  have "recv_message_from_server point 12 s = Some (0, can_message CAN_FUNC_ID_START_CMD (local_station t) [g] t)"
    using recv_server_msg_accepted [of "[0x10, 0x16, g]" 12 rest s] h i t(1) send_start_cmd_eq [OF sys_okD(3) [OF ok]]
    unfolding assms(2) by (simp add: recv_msg_process_def)
  then show ?thesis
    using t(1) can_frames_message [OF sys_okD(2) [OF ok]] fr ls
    by (simp add: can_message_def AddCanFrames_def del: length_ring_list)
qed

theorem server_start_executed_and_broadcast_witness:
  "\<exists>s'. recv_message_from_server (server_msg [0x10, 0x16, 2] @ replicate 288 0) 12 demo = Some (0, s') \<and>
     length (can_frames s') = 1"
proof -
  have "length (server_msg [0x10, 0x16, 2] @ replicate 288 0) = 300" by simp
  from server_start_executed_and_broadcast [OF sys_ok_demo refl this] show ?thesis
    by (auto simp: can_ok_demo msg_frames_def simp del: length_ring_list)
qed

text \<open>C35. A parameter block written by the server for the host's own station is stored in flash,
  read back and taken over (with the station's number and version), and acknowledged with the
  block now in use.\<close>

theorem server_writes_own_params:
  assumes "sys_ok s" "flash_obeys s" "valid_paras p" "Station_No p = ucast (local_station s)"
    and "point = server_msg ([0x04, 0x16] @ paras_bytes p) @ rest" "length point = 300"
    and "length (server_msgs s) < 99"
  shows "\<exists>s'. recv_message_from_server point 243 s = Some (0, s') \<and>
    (let q = own_paras (local_station s) p in
     user_paras_local s' = q \<and> user_paras_slave s' = q \<and> flash_words s' = drop 3 (paras_u16s p) \<and>
     server_msgs s' = server_msgs s @ [REPLY_RECV_MSG_WRITE_PARA_CMD_TYPE])"
proof -
  let ?q = "own_paras (local_station s) p" and ?t = "s\<lparr>user_paras_temp := p\<rparr>"
  have wf: "wf_paras p" using assms(3) by (simp add: valid_paras_def)
  then have l: "length (paras_bytes p) = 232" by simp
  obtain h where h: "msg_head point = Some h" "MSG_TYPE h = 0x1604"
    using server_msg_type [of "0x04" "0x16" "paras_bytes p" rest] assms(5,6) by (auto simp: le16_def)
  have d: "drop 11 point = paras_bytes p @ rest"
    using server_msg_payload [of "0x04" "0x16" "paras_bytes p" rest] assms(5) by simp
  have temp: "bytes_paras (take 232 (drop 11 point)) = p" using l wf by (simp add: d bytes_paras_bytes)
  have d6: "drop 17 point = drop 6 (paras_bytes p) @ rest" using d l drop_drop [of 6 11 point] by simp
  have "take 113 (bytes_u16s (drop 17 point)) = drop 3 (paras_u16s p)"
    using wf drop_u16s_bytes [of 3 "paras_u16s p"] unfolding d6 paras_bytes_def
    by (simp add: bytes_u16s_append)
  moreover have "113 \<le> length (bytes_u16s (drop 17 point))" using assms(6) by simp
  ultimately have w: "write_user_paras (bytes_u16s (drop 17 point)) ?t = write_user_paras (drop 3 (paras_u16s p)) ?t"
    using write_user_paras_take by metis
  have ok: "flash_obeys ?t" "wf_paras (user_paras_local ?t)" "length (stopspeed_default ?t) = 10"
    using assms(1,2) by (simp_all add: flash_obeys_def flash_quiet_def sys_defs)
  from write_read_user_paras [OF ok assms(3)] obtain s1 where
    s1: "write_user_paras (drop 3 (paras_u16s p)) ?t = Some s1" "flash_frame ?t s1"
      "read_user_paras s1 = Some (s1\<lparr>user_paras_local := ?q,
        stopspeed_default := stop_speeds ?q (stopspeed_default s)\<rparr>)" "flash_words s1 = drop 3 (paras_u16s p)"
    by auto
  have q: "msgSendQueue s1 = msgSendQueue s" using s1(2) by (auto elim!: flash_frameE)
  have r: "recv_message_from_server point 243 s = (do { s1 \<leftarrow> recv_msg_process point s; Some (0, s1) })"
    using recv_server_msg_accepted [of "[0x04, 0x16] @ paras_bytes p" 243 rest s] l unfolding assms(5) by simp
  then have "recv_message_from_server point 243 s = Some (0, AddSendMsgToQueue REPLY_RECV_MSG_WRITE_PARA_CMD_TYPE
      (s1\<lparr>user_paras_local := ?q, stopspeed_default := stop_speeds ?q (stopspeed_default s), user_paras_slave := ?q\<rparr>))"
    using h assms(4,6) w s1(1,3) by (simp add: recv_msg_process_def temp Let_def)
  moreover have "ring_list 100 (enQueue (msgSendQueue s) m) = server_msgs s @ [m]" for m
    using msgq.contents_enq [OF queues_invD(3) [OF sys_okD(2) [OF assms(1)]]] assms(7) by simp
  ultimately show ?thesis
    using s1(4) q by (simp add: AddSendMsgToQueue_def Let_def flash_words_def)
qed

theorem server_writes_own_params_witness:
  "\<exists>s'. recv_message_from_server (server_msg ([0x04, 0x16] @ paras_bytes (demo_paras\<lparr>Station_No := 0\<rparr>)) @ replicate 57 0) 243 demo
      = Some (0, s') \<and> user_paras_local s' = demo_paras\<lparr>Station_No := 0\<rparr>"
proof -
  let ?p = "demo_paras\<lparr>Station_No := 0\<rparr>"
  have p: "valid_paras ?p" "own_paras 0 ?p = ?p" "wf_paras ?p"
    by (simp_all add: valid_paras_def own_paras_def demo_paras_def wf_paras_def)
  have d: "local_station demo = 0" "server_msgs demo = []"
    by (simp_all add: demo_def power_on_def queues_ready_def InitModuleStatusQueue_def
      InitSendMsgQueue_def InitCanSendQueue_def InitUartSendQueue_def)
  have "length (server_msg ([0x04, 0x16] @ paras_bytes ?p) @ replicate 57 0) = 300" using p(3) by simp
  from server_writes_own_params [OF sys_ok_demo flash_obeys_demo p(1) _ refl this]
  show ?thesis using p d by (auto simp: Let_def)
qed

end
