(* ===== verification/Udp.thy ===== *)
theory Udp
  imports Server
begin

text \<open>
  udpclient.c: the connection of the host station to the server over lwIP's raw UDP API.

  Of lwIP only what these functions see is modelled. Whether \<open>udp_new\<close> and
  \<open>pbuf_alloc\<close> find memory and whether \<open>udp_connect\<close> succeeds are the fields
  \<open>lwip_pcb_free\<close>, \<open>lwip_pbuf_free\<close> and \<open>lwip_connect_ok\<close>; a datagram
  handed to \<open>udp_send\<close> is recorded in \<open>udp_tx\<close>. A received datagram is an argument of
  the callback, with the remote address of the control block and the payload (one pbuf, so
  that \<open>tot_len\<close> bytes lie behind \<open>payload\<close>). The callback runs inside lwIP's
  input processing, between two statements of the main loop.
\<close>

section \<open>The client\<close>

definition upd_client :: "(tcp_client_table \<Rightarrow> tcp_client_table) \<Rightarrow> fw \<Rightarrow> fw" where
  "upd_client f s = s\<lparr>tcp_client := f (tcp_client s)\<rparr>"

definition creat_udp_connect_process :: "fw \<Rightarrow> fw" where
  "creat_udp_connect_process s =
     (let c = (tcp_client s)\<lparr>echoclient_pcb := lwip_pcb_free s, tcp_client_statue := CLIENT_DIS_CONNECT\<rparr> in
      s\<lparr>tcp_client := (if echoclient_pcb c
         then c\<lparr>connect_is_ok := 1, connect_dely := 0, tcp_send_en := 0, tcp_send_len := 0\<rparr> else c)\<rparr>)"

abbreviation (input) "DEST_PORT \<equiv> 3000 :: u16"

definition get_ip_para_process :: "fw \<Rightarrow> fw option" where
  "get_ip_para_process s = do {
     let c = (tcp_client s)\<lparr>dest_port := DEST_PORT\<rparr>;
     i0 \<leftarrow> upd (dest_ip c) 0 192;
     i1 \<leftarrow> upd i0 1 168;
     i2 \<leftarrow> upd i1 2 2;
     i3 \<leftarrow> upd i2 3 100;
     Some (s\<lparr>tcp_client := c\<lparr>dest_ip := i3\<rparr>\<rparr>)
   }"

definition udp_echoclient_connect :: "fw \<Rightarrow> fw option" where
  "udp_echoclient_connect s = do {
     s1 \<leftarrow> get_ip_para_process s;
     Some (if lwip_connect_ok s1
           then upd_client (\<lambda>c. c\<lparr>tcp_client_statue := CLIENT_CONNECT_OK, connect_dely := 0\<rparr>) s1 else s1)
   }"

text \<open>The comparison loop of the callback: the index at which it stops.\<close>

fun ip_loop :: "nat \<Rightarrow> u32 \<Rightarrow> u8 list \<Rightarrow> nat option" where
  "ip_loop 0 remote_ip ip = Some 4"
| "ip_loop (Suc n) remote_ip ip = do {
     let j = 3 - n;
     d \<leftarrow> idx ip j;
     if d \<noteq> ucast (drop_bit (8 * j) remote_ip) then Some j else ip_loop n remote_ip ip
   }"

text \<open>\<open>m\<close> is uninitialised when the datagram is too long.\<close>

definition udp_receive_callback :: "u16 \<Rightarrow> u32 \<Rightarrow> u8 list \<Rightarrow> fw \<Rightarrow> fw option" where
  "udp_receive_callback remote_port remote_ip payload s =
     (let c = tcp_client s in
      if remote_port = dest_port c then do {
        j \<leftarrow> ip_loop 4 remote_ip (dest_ip c);
        if tcp_client_statue c = CLIENT_CONNECT_OK \<and> j = 4 then do {
          (buf, m) \<leftarrow>
            (if length payload \<le> UDP_RECV_BUFF_SIZE then do {
               b \<leftarrow> for_up 0 (length payload)
                 (\<lambda>m b. do { v \<leftarrow> idx payload m; upd b (unat (tcp_recv_len c) + m) v }) (tcp_recv_buf c);
               Some (b, of_nat (length payload))
             }
             else Some (tcp_recv_buf c, uninit_m s));
          Some (s\<lparr>tcp_client := c\<lparr>tcp_recv_buf := buf, tcp_recv_len := tcp_recv_len c + m,
                                   tcp_client_statue := CLIENT_CONNECT_RECV\<rparr>\<rparr>)
        } else Some s
      } else Some s)"

text \<open>\<open>pbuf_take\<close> reads \<open>tcp_send_len\<close> bytes of the send buffer.\<close>

definition udp_send_process :: "fw \<Rightarrow> fw option" where
  "udp_send_process s =
     (let c = tcp_client s; n = unat (tcp_send_len c) in
      if lwip_pbuf_free s then
        if n \<le> length (tcp_send_buf c)
        then Some (s\<lparr>udp_tx := udp_tx s @ [take n (tcp_send_buf c)]\<rparr>) else None
      else Some s)"

definition udp_client_process :: "fw \<Rightarrow> fw option" where
  "udp_client_process s = do {
     s1 \<leftarrow>
       (if tcp_client_statue (tcp_client s) = CLIENT_CONNECT_RECV then do {
          (n, t) \<leftarrow> recv_message_from_server (tcp_recv_buf (tcp_client s)) (tcp_recv_len (tcp_client s)) s;
          Some (upd_client (\<lambda>c. c\<lparr>tcp_recv_len := n, tcp_client_statue := CLIENT_CONNECT_OK\<rparr>) t)
        } else Some s);
     if connect_is_ok (tcp_client s1) = 0 then Some (creat_udp_connect_process s1)
     else if tcp_client_statue (tcp_client s1) = CLIENT_DIS_CONNECT then udp_echoclient_connect s1
     else if tcp_client_statue (tcp_client s1) = CLIENT_CONNECT_OK \<and> tcp_send_en (tcp_client s1) = 1 then do {
       s2 \<leftarrow> udp_send_process s1;
       Some (upd_client (\<lambda>c. c\<lparr>tcp_send_en := 0\<rparr>) s2)
     }
     else Some s1
   }"

definition DEBUG_process :: "u8 list \<Rightarrow> u16 \<Rightarrow> fw \<Rightarrow> fw option" where
  "DEBUG_process p_data len s =
     (if tcp_client_statue (tcp_client s) = CLIENT_CONNECT_OK then do {
        b \<leftarrow> for_up 0 (unat len) (\<lambda>i b. do { v \<leftarrow> idx p_data i; upd b i v }) (tcp_send_buf (tcp_client s));
        udp_send_process (upd_client (\<lambda>c. c\<lparr>tcp_send_buf := b, tcp_send_len := len\<rparr>) s)
      } else Some s)"

section \<open>The client keeps the invariant\<close>

lemma sys_ok_client:
  assumes "sys_ok s" "length (tcp_recv_buf c) = 300" "length (tcp_send_buf c) = 300" "length (dest_ip c) = 4"
    and "tcp_recv_len c \<le> 300" "tcp_send_len c \<le> 300"
    and "tcp_client_statue c \<noteq> CLIENT_CONNECT_RECV \<Longrightarrow> tcp_recv_len c = 0"
  shows "good s (s\<lparr>tcp_client := c\<rparr>)"
  using assms by (simp add: good_def stable_def sys_defs)

lemma clientD:
  assumes "sys_ok s"
  shows "length (tcp_recv_buf (tcp_client s)) = 300" "length (tcp_send_buf (tcp_client s)) = 300"
    "length (dest_ip (tcp_client s)) = 4" "tcp_recv_len (tcp_client s) \<le> 300" "tcp_send_len (tcp_client s) \<le> 300"
    "tcp_client_statue (tcp_client s) \<noteq> CLIENT_CONNECT_RECV \<Longrightarrow> tcp_recv_len (tcp_client s) = 0"
  using assms by (simp_all add: sys_defs)

lemma creat_good: "sys_ok s \<Longrightarrow> tcp_client_statue (tcp_client s) \<noteq> CLIENT_CONNECT_RECV \<Longrightarrow> good s (creat_udp_connect_process s)"
  unfolding creat_udp_connect_process_def Let_def
  by (rule sys_ok_client) (simp_all add: clientD)

lemma get_ip_eq:
  "length (dest_ip (tcp_client s)) = 4 \<Longrightarrow> get_ip_para_process s =
     Some (s\<lparr>tcp_client := (tcp_client s)\<lparr>dest_port := DEST_PORT, dest_ip := [192, 168, 2, 100]\<rparr>\<rparr>)"
proof -
  assume "length (dest_ip (tcp_client s)) = 4"
  then obtain a b c d where ip: "dest_ip (tcp_client s) = [a, b, c, d]"
    by (auto simp: length_Suc_conv numeral_eq_Suc)
  show ?thesis by (simp add: get_ip_para_process_def Let_def ip upd_def numeral_2_eq_2 numeral_3_eq_3)
qed

lemma connect_good:
  assumes "sys_ok s" "tcp_client_statue (tcp_client s) \<noteq> CLIENT_CONNECT_RECV"
  shows "returns (udp_echoclient_connect s) (good s)"
proof -
  note c = clientD [OF assms(1)]
  have "good s (s\<lparr>tcp_client := (tcp_client s)\<lparr>dest_port := DEST_PORT, dest_ip := [192, 168, 2, 100]\<rparr>\<rparr>)"
    "good s (s\<lparr>tcp_client := (tcp_client s)\<lparr>dest_port := DEST_PORT, dest_ip := [192, 168, 2, 100],
       tcp_client_statue := CLIENT_CONNECT_OK, connect_dely := 0\<rparr>\<rparr>)"
    by (rule sys_ok_client [OF assms(1)]; use c assms(2) in simp)+
  then show ?thesis by (simp add: udp_echoclient_connect_def get_ip_eq [OF c(3)] upd_client_def)
qed

lemma send_process_good:
  assumes "sys_ok s"
  shows "returns (udp_send_process s) (\<lambda>t. good s t \<and> tcp_client t = tcp_client s)"
proof -
  have "good s (s\<lparr>udp_tx := x\<rparr>)" for x using assms by (simp add: good_def stable_def sys_defs)
  moreover have "unat (tcp_send_len (tcp_client s)) \<le> 300" using clientD(5) [OF assms] by (simp add: word_le_nat_alt)
  ultimately show ?thesis using clientD(2) [OF assms] good_refl [OF assms] by (simp add: udp_send_process_def Let_def)
qed

lemma client_receive_ok:
  assumes "sys_ok s"
  shows "returns (do {
      (n, t) \<leftarrow> recv_message_from_server (tcp_recv_buf (tcp_client s)) (tcp_recv_len (tcp_client s)) s;
      Some (upd_client (\<lambda>c. c\<lparr>tcp_recv_len := n, tcp_client_statue := CLIENT_CONNECT_OK\<rparr>) t) })
    (\<lambda>t. safe s t \<and> tcp_client_statue (tcp_client t) \<noteq> CLIENT_CONNECT_RECV)"
proof (rule returns_bind2 [OF recv_message_ok [OF assms clientD(1,4) [OF assms]]])
  fix n :: u16 and t assume "n = 0 \<and> safe s t"
  then have n: "n = 0" and t: "safe s t" by simp_all
  note ok = safe_ok [OF t] and c = clientD [OF safe_ok [OF t]]
  have "good t (t\<lparr>tcp_client := (tcp_client t)\<lparr>tcp_recv_len := 0, tcp_client_statue := CLIENT_CONNECT_OK\<rparr>\<rparr>)"
    by (rule sys_ok_client [OF ok]) (use c in simp_all)
  from safe_trans [OF t good_safe [OF this]]
  show "returns (Some (upd_client (\<lambda>c. c\<lparr>tcp_recv_len := n, tcp_client_statue := CLIENT_CONNECT_OK\<rparr>) t))
    (\<lambda>t. safe s t \<and> tcp_client_statue (tcp_client t) \<noteq> CLIENT_CONNECT_RECV)"
    by (simp add: n upd_client_def)
qed

lemma client_process_ok:
  assumes "sys_ok s"
  shows "returns (udp_client_process s) (safe s)"
  unfolding udp_client_process_def
proof (rule returns_bind [where P = "\<lambda>t. safe s t \<and> tcp_client_statue (tcp_client t) \<noteq> CLIENT_CONNECT_RECV"], goal_cases)
  case 1
  show ?case using client_receive_ok [OF assms] safe_refl [OF assms] by simp
next
  case (2 t)
  then have t: "safe s t" "tcp_client_statue (tcp_client t) \<noteq> CLIENT_CONNECT_RECV" by simp_all
  note ok = safe_ok [OF t(1)]
  have send: "returns (do { u \<leftarrow> udp_send_process t; Some (upd_client (\<lambda>c. c\<lparr>tcp_send_en := 0\<rparr>) u) }) (good t)"
  proof (rule returns_bind [OF send_process_good [OF ok]])
    fix u assume u: "good t u \<and> tcp_client u = tcp_client t"
    then have "good u (u\<lparr>tcp_client := (tcp_client u)\<lparr>tcp_send_en := 0\<rparr>\<rparr>)"
      by (intro sys_ok_client good_sys_ok [of t u]) (use clientD [OF ok] t(2) in simp_all)
    with u good_trans show "returns (Some (upd_client (\<lambda>c. c\<lparr>tcp_send_en := 0\<rparr>) u)) (good t)"
      by (auto simp: upd_client_def)
  qed
  have "returns (Some (creat_udp_connect_process t)) (good t)" using creat_good [OF ok t(2)] by simp
  with send connect_good [OF ok t(2)] good_refl [OF ok] show ?case
    by (intro returns_safe_step [OF t(1)] returns_safe) simp
qed

text \<open>The bytes of lwIP's address, lowest first.\<close>

definition ip_bytes :: "u32 \<Rightarrow> u8 list" where
  "ip_bytes a = [ucast a, ucast (drop_bit 8 a), ucast (drop_bit 16 a), ucast (drop_bit 24 a)]"

lemma ip_loop_4:
  assumes "length ip = 4"
  shows "\<exists>j. ip_loop 4 a ip = Some j \<and> (j = 4 \<longleftrightarrow> ip = ip_bytes a)"
proof -
  obtain w x y z where "ip = [w, x, y, z]" using assms by (auto simp: length_Suc_conv numeral_eq_Suc)
  moreover have "ip_loop 4 a ip = ip_loop (Suc (Suc (Suc (Suc 0)))) a ip" by (simp only: numeral_eq_Suc pred_numeral_simps BitM.simps)
  ultimately show ?thesis by (auto simp: ip_bytes_def idx_def Let_def)
qed

lemma callback_eq:
  assumes "sys_ok s" "length payload \<le> 300"
  shows "udp_receive_callback port ip payload s = Some
    (if port = dest_port (tcp_client s) \<and> dest_ip (tcp_client s) = ip_bytes ip \<and>
        tcp_client_statue (tcp_client s) = CLIENT_CONNECT_OK
     then s\<lparr>tcp_client := (tcp_client s)\<lparr>
       tcp_recv_buf := payload @ drop (length payload) (tcp_recv_buf (tcp_client s)),
       tcp_recv_len := of_nat (length payload), tcp_client_statue := CLIENT_CONNECT_RECV\<rparr>\<rparr>
     else s)"
proof -
  note c = clientD [OF assms(1)]
  obtain j where j: "ip_loop 4 ip (dest_ip (tcp_client s)) = Some j" "j = 4 \<longleftrightarrow> dest_ip (tcp_client s) = ip_bytes ip"
    using ip_loop_4 [OF c(3)] by blast
  have "for_up 0 (length payload) (\<lambda>m b. do { v \<leftarrow> idx payload m; upd b (0 + m) v }) ([] @ tcp_recv_buf (tcp_client s)) =
      Some ([] @ take (length payload) payload @ drop (length payload) (tcp_recv_buf (tcp_client s)))"
    by (rule copy_loop) (use assms(2) c(1) in simp_all)
  then show ?thesis
    using j c(6) assms(2) by (auto simp: udp_receive_callback_def Let_def)
qed

lemma callback_good:
  assumes "sys_ok s" "length payload \<le> 300"
  shows "returns (udp_receive_callback port ip payload s) (good s)"
proof -
  note c = clientD [OF assms(1)]
  have "good s (s\<lparr>tcp_client := (tcp_client s)\<lparr>
       tcp_recv_buf := payload @ drop (length payload) (tcp_recv_buf (tcp_client s)),
       tcp_recv_len := of_nat (length payload), tcp_client_statue := CLIENT_CONNECT_RECV\<rparr>\<rparr>)"
    by (rule sys_ok_client [OF assms(1)]) (use c assms(2) small_of_nat in simp_all)
  then show ?thesis using good_refl [OF assms(1)] by (simp add: callback_eq [OF assms])
qed

section \<open>Datagrams in and out\<close>

text \<open>A datagram of up to 300 bytes from the configured server is handed to the message layer
  exactly once, with exactly its bytes and length: the next pass of the client executes it and
  goes on as from the state after the message, connected and with an empty receive buffer.
  Datagrams from other addresses change nothing.\<close>

lemma datagram_processed:
  assumes "sys_ok s" "length payload \<le> 300" "tcp_client_statue (tcp_client s) = CLIENT_CONNECT_OK"
    and "dest_port (tcp_client s) = 3000" "dest_ip (tcp_client s) = [192, 168, 2, 100]"
  shows "(port \<noteq> 3000 \<or> ip_bytes ip \<noteq> [192, 168, 2, 100] \<longrightarrow> udp_receive_callback port ip payload s = Some s) \<and>
    (port = 3000 \<and> ip_bytes ip = [192, 168, 2, 100] \<longrightarrow>
      (\<exists>s1 t rest. udp_receive_callback port ip payload s = Some s1 \<and>
        recv_message_from_server (payload @ rest) (of_nat (length payload)) s1 = Some (0, t) \<and>
        udp_client_process s1 = udp_client_process
          (upd_client (\<lambda>c. c\<lparr>tcp_recv_len := 0, tcp_client_statue := CLIENT_CONNECT_OK\<rparr>) t)))"
proof -
  define s1 where "s1 = s\<lparr>tcp_client := (tcp_client s)\<lparr>
       tcp_recv_buf := payload @ drop (length payload) (tcp_recv_buf (tcp_client s)),
       tcp_recv_len := of_nat (length payload), tcp_client_statue := CLIENT_CONNECT_RECV\<rparr>\<rparr>"
  have cb: "udp_receive_callback port ip payload s =
      Some (if port = 3000 \<and> ip_bytes ip = [192, 168, 2, 100] then s1 else s)"
    using callback_eq [OF assms(1,2)] assms(3-5) by (auto simp: s1_def)
  have c: "tcp_recv_buf (tcp_client s1) = payload @ drop (length payload) (tcp_recv_buf (tcp_client s))"
    "tcp_recv_len (tcp_client s1) = of_nat (length payload)" "tcp_client_statue (tcp_client s1) = CLIENT_CONNECT_RECV"
    by (simp_all add: s1_def)
  have ok: "sys_ok s1"
    unfolding s1_def by (rule good_sys_ok [OF sys_ok_client [OF assms(1)]])
      (use clientD [OF assms(1)] assms(2) small_of_nat in simp_all)
  obtain t where t: "recv_message_from_server (tcp_recv_buf (tcp_client s1)) (tcp_recv_len (tcp_client s1)) s1 = Some (0, t)"
    using recv_message_ok [OF ok clientD(1,4) [OF ok]] by (auto simp: returns_def)
  then have "udp_client_process s1 = udp_client_process
      (upd_client (\<lambda>c. c\<lparr>tcp_recv_len := 0, tcp_client_statue := CLIENT_CONNECT_OK\<rparr>) t)"
    by (simp add: udp_client_process_def c(3)) (simp add: upd_client_def)
  moreover have "\<exists>rest. recv_message_from_server (payload @ rest) (of_nat (length payload)) s1 = Some (0, t)"
    using t unfolding c(1,2) by blast
  moreover have "udp_receive_callback port ip payload s = Some s1" if "port = 3000 \<and> ip_bytes ip = [192, 168, 2, 100]"
    using cb that by simp
  moreover have "udp_receive_callback port ip payload s = Some s" if "port \<noteq> 3000 \<or> ip_bytes ip \<noteq> [192, 168, 2, 100]"
    using cb that by auto
  ultimately show ?thesis by blast
qed

definition demo_udp :: fw where
  "demo_udp = demo_host\<lparr>tcp_client := zero_client\<lparr>tcp_client_statue := CLIENT_CONNECT_OK, connect_is_ok := 1,
     dest_port := 3000, dest_ip := [192, 168, 2, 100]\<rparr>\<rparr>"

lemma demo_paras_valid: "wf_paras demo_paras" "Belt_Number demo_paras \<le> 10"
  by (simp_all add: demo_paras_def wf_paras_def word_le_nat_alt)

lemma sys_ok_demo_udp: "sys_ok demo_udp"
  using sys_ok_demo demo_paras_valid by (simp add: sys_defs demo_udp_def demo_host_def zero_client_def)

lemma datagram_processed_witness:
  "\<exists>s1 t rest. udp_receive_callback 3000 0x6402A8C0 (server_msg [0x10, 0x16, 0]) demo_udp = Some s1 \<and>
     recv_message_from_server (server_msg [0x10, 0x16, 0] @ rest) 12 s1 = Some (0, t)"
proof -
  have "ip_bytes 0x6402A8C0 = [192, 168, 2, 100]" by (simp add: ip_bytes_def)
  then show ?thesis
    using datagram_processed [OF sys_ok_demo_udp, of "server_msg [0x10, 0x16, 0]" 3000 "0x6402A8C0"]
    by (auto simp: demo_udp_def zero_client_def)
qed

text \<open>The connection comes up: from power-on the first pass of the client creates the control
  block and the second connects it to 192.168.2.100 port 3000, provided lwIP has a control
  block and accepts the connection.\<close>

lemma udp_client_connects:
  assumes "length (dest_ip (tcp_client s)) = 4" "connect_is_ok (tcp_client s) = 0"
    and "tcp_client_statue (tcp_client s) = CLIENT_DIS_CONNECT" "lwip_pcb_free s" "lwip_connect_ok s"
  shows "\<exists>s1 s2. udp_client_process s = Some s1 \<and> udp_client_process s1 = Some s2 \<and>
    tcp_client_statue (tcp_client s2) = CLIENT_CONNECT_OK \<and> dest_port (tcp_client s2) = 3000 \<and>
    dest_ip (tcp_client s2) = [192, 168, 2, 100]"
  using assms
  by (simp add: udp_client_process_def creat_udp_connect_process_def Let_def udp_echoclient_connect_def
      get_ip_eq upd_client_def)

text \<open>C36. A datagram of more than 300 bytes from the server is not copied, but the length of the
  received message then comes from an uninitialised variable.\<close>

theorem oversized_datagram_length:
  assumes "sys_ok s" "300 < length payload" "tcp_client_statue (tcp_client s) = CLIENT_CONNECT_OK"
    and "dest_port (tcp_client s) = port" "dest_ip (tcp_client s) = ip_bytes ip"
  shows "\<exists>s1. udp_receive_callback port ip payload s = Some s1 \<and>
    tcp_recv_buf (tcp_client s1) = tcp_recv_buf (tcp_client s) \<and> tcp_recv_len (tcp_client s1) = uninit_m s \<and>
    tcp_client_statue (tcp_client s1) = CLIENT_CONNECT_RECV"
proof -
  note c = clientD [OF assms(1)]
  obtain j where "ip_loop 4 ip (dest_ip (tcp_client s)) = Some j" "j = 4 \<longleftrightarrow> dest_ip (tcp_client s) = ip_bytes ip"
    using ip_loop_4 [OF c(3)] by blast
  then show ?thesis using assms c(6) by (simp add: udp_receive_callback_def Let_def)
qed

theorem oversized_datagram_length_witness:
  "\<exists>s1. udp_receive_callback 3000 0x6402A8C0 (replicate 301 0) (demo_udp\<lparr>uninit_m := 777\<rparr>) = Some s1 \<and>
     tcp_recv_len (tcp_client s1) = 777"
proof -
  have "sys_ok (demo_udp\<lparr>uninit_m := 777\<rparr>)" using sys_ok_demo_udp by (simp add: sys_defs)
  from oversized_datagram_length [OF this, of "replicate 301 0" 3000 "0x6402A8C0"] show ?thesis
    by (auto simp: demo_udp_def zero_client_def ip_bytes_def)
qed

end
