(* ===== verification/MainLoop.thy ===== *)
theory MainLoop
  imports Udp
begin

text \<open>
  main.c: start-up after \<open>System_Setup\<close>, the one-millisecond interrupt \<open>Time_Update\<close>, and the functions the
  main loop calls in turn. The interrupt handlers and the calls of the main loop are taken as
  atomic; \<open>System\<close> interleaves them.

  What \<open>main\<close> does with the Ethernet hardware and inside lwIP
  (\<open>Ethernet_Configuration\<close>, \<open>LwIP_Init\<close>, \<open>LwIP_Periodic_Handle\<close>) changes
  none of the state here: \<open>EthInitStatus\<close> is an argument. The address switches are read
  many times by \<open>scan_local_station\<close>, so it gets the input registers of each round; the CPU's
  unique identifier is an argument of \<open>read_mac_addrs\<close>.
\<close>

section \<open>Start-up\<close>

definition read_mac_addrs :: "u32 \<Rightarrow> u32 \<Rightarrow> u32 \<Rightarrow> fw \<Rightarrow> fw option" where
  "read_mac_addrs id0 id1 id2 s = do {
     let Mac_Code = drop_bit 1 id0 + drop_bit 2 id1 + drop_bit 3 id2;
     m \<leftarrow> store_all [(0, 0x00), (1, 0x02), (2, ucast (drop_bit 24 Mac_Code AND 0xFF)),
       (3, ucast (drop_bit 16 Mac_Code AND 0xFF)), (4, ucast (drop_bit 8 Mac_Code AND 0xFF)),
       (5, ucast (Mac_Code AND 0xFF))] (mac_addr s);
     Some (s\<lparr>mac_addr := m\<rparr>)
   }"

text \<open>What one round of reading the eight switches adds to \<open>tmp\<close>.\<close>

definition dip_pins :: "fw \<Rightarrow> u8" where
  "dip_pins s =
     (if DIP_STATE 1 s \<noteq> 0 then 0x01 else 0) OR (if DIP_STATE 2 s \<noteq> 0 then 0x02 else 0) OR
     (if DIP_STATE 3 s \<noteq> 0 then 0x04 else 0) OR (if DIP_STATE 4 s \<noteq> 0 then 0x08 else 0) OR
     (if DIP_STATE 5 s \<noteq> 0 then 0x10 else 0) OR (if DIP_STATE 6 s \<noteq> 0 then 0x20 else 0) OR
     (if DIP_STATE 7 s \<noteq> 0 then 0x40 else 0) OR (if DIP_STATE 8 s \<noteq> 0 then 0x80 else 0)"

lemma not_or_less:
  assumes "a OR b \<noteq> a"
  shows "NOT (a OR b) < NOT (a :: 'a::len word)"
proof -
  have "NOT (a OR b) \<le> NOT a" by (simp add: word_and_le2)
  moreover have "NOT (a OR b) \<noteq> NOT a" using assms by (metis bit.double_compl)
  ultimately show ?thesis by simp
qed

text \<open>The loop: \<open>round k\<close> is what its \<open>k\<close>-th execution reads. A change sets \<open>i\<close> back to 0,
  before the \<open>i++\<close> of the loop. It ends because \<open>tmp\<close> only gains bits, and after the
  first round \<open>dip_value\<close> changes only with it.\<close>

function scan_loop :: "(nat \<Rightarrow> u8) \<Rightarrow> nat \<Rightarrow> nat \<Rightarrow> u8 \<Rightarrow> u8 \<Rightarrow> u8" where
  "scan_loop round k i tmp dip_value =
     (if i < 20 then
        let tmp' = tmp OR round k in
        if dip_value \<noteq> tmp' then scan_loop round (Suc k) 1 tmp' tmp'
        else scan_loop round (Suc k) (Suc i) tmp' dip_value
      else dip_value)"
  by pat_completeness auto
termination
proof (relation "measures [\<lambda>(_, _, _, tmp, _). unat (NOT tmp), \<lambda>(_, _, _, tmp, dip). if dip = tmp then 0 else 1,
    \<lambda>(_, _, i, _, _). 20 - i]", goal_cases)
  case 1
  then show ?case by simp
next
  case (2 round k i tmp dip tmp')
  then show ?case using not_or_less [of tmp "round k"] by (cases "tmp' = tmp") (auto simp: word_less_nat_alt)
next
  case (3 round k i tmp dip tmp')
  then show ?case using not_or_less [of tmp "round k"] by (cases "tmp' = tmp") (auto simp: word_less_nat_alt)
qed

declare scan_loop.simps [simp del]

definition scan_local_station :: "(nat \<Rightarrow> gpio_port \<Rightarrow> u16) \<Rightarrow> fw \<Rightarrow> fw" where
  "scan_local_station inputs s =
     (let dip_value = scan_loop (\<lambda>k. dip_pins (s\<lparr>IDR := inputs k\<rparr>)) 0 0 0 (uninit_dip s);
          st = NOT dip_value AND 0xFF
      in s\<lparr>local_station := st, isHost := (if st = 1 then 1 else 0)\<rparr>)"

text \<open>\<open>main\<close> up to its loop, after \<open>System_Setup\<close>.\<close>

definition main_init :: "(nat \<Rightarrow> gpio_port \<Rightarrow> u16) \<Rightarrow> u32 \<Rightarrow> u32 \<Rightarrow> u32 \<Rightarrow> fw \<Rightarrow> fw option" where
  "main_init inputs id0 id1 id2 s = do {
     let s1 = InitModuleStatusQueue (InitUartSendQueue (InitCanSendQueue (InitSendMsgQueue s)));
     s2 \<leftarrow> read_mac_addrs id0 id1 id2 (scan_local_station inputs s1);
     read_user_paras s2
   }"

section \<open>The calls of the main loop\<close>

definition sec_process :: "fw \<Rightarrow> fw option" where
  "sec_process s = do {
     s1 \<leftarrow>
       (if sec_flag s = 1 then do {
          let t = s\<lparr>sec_flag := 0\<rparr>;
          let t1 = (if heart_dely t \<noteq> 0 then t\<lparr>heart_dely := heart_dely t - 1\<rparr> else t);
          let t2 = (if LED_STATE t1 \<noteq> 0 then LED_ON t1 else LED_OFF t1);
          Block_Check_Ctrl_Handle t2
        } else Some s);
     if half_sec_flag s1 = 1 then do {
       let t = s1\<lparr>half_sec_flag := 0\<rparr>;
       if isHost t \<noteq> 0 then do {
         let n = Belt_Number (user_paras_local t);
         bytes \<leftarrow> memcpy (inverters_bytes (inverter_status (uninit_status t))) 0
           (inverters_bytes (inverter_status_buffer t)) (sizeof_INVERTER_STATUS_T * unat n);
         let t1 = AddModuleStatusData2Queue
           \<lparr>station_no = 1, belt_number = n, inverter_status = bytes_inverters 10 bytes\<rparr> t;
         if modulestate_readcnt t1 > 30 then do {
           let t2 = t1\<lparr>modulestate_readcnt := 0, modulestate_index := modulestate_index t1 + 1\<rparr>;
           t3 \<leftarrow> can_bus_send_msg (replicate 10 0) 0 CAN_FUNC_ID_READ_MODULE_STATUS (ucast (modulestate_index t2)) t2;
           Some (if modulestate_index t3 > 30 then t3\<lparr>modulestate_index := 1\<rparr> else t3)
         } else Some t1
       } else Some t
     } else Some s1
   }"

text \<open>\<open>link_down_status\<close> of \<open>main_upload_run_state\<close>: the loop looks for a belt with the external
  stream signal switched on; it is the loop of \<open>Linkage_Stop_Photo_Ctrl_Handle\<close>.\<close>

definition run_last_belt :: "fw \<Rightarrow> fw option" where
  "run_last_belt s = do {
     let p = user_paras_local s;
     l \<leftarrow> stream_signal_loop 0 s 1;
     let link_down_status = (if Down_Stream_No p \<noteq> 0 then g_link_down_stream_status s else l);
     let k = unat (Belt_Number p) - 1;
     b \<leftarrow> idx (belt_para p) k;
     if drop_bit 1 (Func_Select_Switch b) AND 1 \<noteq> 0 then do {
       v \<leftarrow> idx (inverter_status_buffer s) k;
       if drop_bit 4 (fault_code v) AND 1 = 0 \<and> get_inverter_fault_status v \<noteq> 1 \<and> link_down_status = 1
       then Some (AddUartSendData2Queue
         (write_node (Belt_Number p) (ucast (g_speed_gear_status s)) (Start_Delay_Time b)) s)
       else Some s
     } else Some s
   }"

definition run_middle_belt :: "nat \<Rightarrow> fw \<Rightarrow> fw option" where
  "run_middle_belt i s = do {
     v \<leftarrow> idx (inverter_status_buffer s) i;
     if drop_bit 4 (fault_code v) AND 1 = 1 then do {
       u \<leftarrow> idx (inverter_status_buffer s) (i - 1);
       if drop_bit 4 (fault_code u) AND 1 = 0 \<and> get_inverter_fault_status u \<noteq> 1 then do {
         b \<leftarrow> idx (belt_para (user_paras_local s)) (i - 1);
         Some (AddUartSendData2Queue (write_node (of_nat i) (ucast (g_speed_gear_status s)) (Start_Delay_Time b)) s)
       } else Some s
     } else Some s
   }"

definition main_upload_run_state :: "fw \<Rightarrow> fw option" where
  "main_upload_run_state s =
     (if Belt_Number (user_paras_local s) = 0 then Some s
      else if upload_runcnt s \<ge> 800 then do {
        let s0 = s\<lparr>upload_runcnt := 0\<rparr>;
        s1 \<leftarrow> (if g_speed_gear_status s0 \<noteq> 0 then run_last_belt s0 else Some s0);
        if g_speed_gear_status s1 \<noteq> 0 \<and> Belt_Number (user_paras_local s1) > 1
        then for_down (unat (Belt_Number (user_paras_local s1)) - 1) run_middle_belt s1
        else Some s1
      }
      else Some s)"

definition main_msone_process :: "fw \<Rightarrow> fw" where
  "main_msone_process s =
     (if msone_flag s = 1 then
        let s1 = s\<lparr>msone_flag := 0, modulestate_readcnt := modulestate_readcnt s + 1\<rparr> in
        if freq_check_cnt s1 > 500 then
          let s2 = s1\<lparr>freq_check_cnt := 0, polling_num := polling_num s1 + 1\<rparr>;
              s3 = (if ucast (polling_num s2) > Belt_Number (user_paras_local s2) then s2\<lparr>polling_num := 1\<rparr> else s2)
          in AddUartSendData2Queue ((uninit_node s3)\<lparr>rw_flag := 0, inverter_no := ucast (polling_num s3),
               comm_interval := 20, comm_retry := 0\<rparr>) s3
        else s1
      else s)"

section \<open>The millisecond interrupt\<close>

definition Time_Update :: "fw \<Rightarrow> fw option" where
  "Time_Update s0 =
     (let s1 = s0\<lparr>LocalTime := LocalTime s0 + 1, upload_runcnt := upload_runcnt s0 + 1,
                   freq_check_cnt := freq_check_cnt s0 + 1, msone_flag := 1\<rparr>;
          s2 = (if sec_reg s1 \<noteq> 0 then
                  let t = s1\<lparr>sec_reg := sec_reg s1 - 1\<rparr> in
                  if sec_reg t = 0 then t\<lparr>sec_reg := 1000, sec_flag := 1\<rparr> else t
                else s1);
          s3 = (if half_sec_reg s2 \<noteq> 0 then
                  let t = s2\<lparr>half_sec_reg := half_sec_reg s2 - 1\<rparr> in
                  if half_sec_reg t = 0 then t\<lparr>half_sec_reg := 500, half_sec_flag := 1\<rparr> else t
                else s2);
          s4 = (if reset_start_time_cnt s3 \<noteq> 0 then
                  let t = s3\<lparr>reset_start_time_cnt := reset_start_time_cnt s3 - 1\<rparr> in
                  if reset_start_time_cnt t = 0 then t\<lparr>reset_start_flag := 1\<rparr> else t
                else s3);
          s5 = (if upload_time_delay s4 \<noteq> 0 then
                  let t = s4\<lparr>upload_time_delay := upload_time_delay s4 - 1\<rparr> in
                  if upload_time_delay t = 0 then
                    (if isHost t = 1 \<and> IsModuleStatusQueueFree t = 0
                     then AddSendMsgToQueue SEND_MSG_MODULE_STATUS_TYPE t else t)\<lparr>upload_time_delay := 10\<rparr>
                  else t
                else s4)
      in InputScanProc (uart_recv_timeout s5))"

definition SysTick_Handler :: "fw \<Rightarrow> fw option" where
  "SysTick_Handler = Time_Update"

text \<open>One pass of the loop.\<close>

definition main_pass :: "bool \<Rightarrow> fw \<Rightarrow> fw option" where
  "main_pass EthInitStatus s = do {
     s1 \<leftarrow>
       (if isHost s \<noteq> 0 \<and> EthInitStatus
        then do { t \<leftarrow> udp_client_process s; send_message_to_server t } else Some s);
     s2 \<leftarrow> sec_process s1;
     s3 \<leftarrow> Modbus_RTU_Comm_Process s2;
     s4 \<leftarrow> can_send_frame_process s3;
     s5 \<leftarrow> Reset_Start_Inverter_Handle s4;
     s6 \<leftarrow> logic_upstream_io_allow_output s5;
     s7 \<leftarrow> main_upload_run_state s6;
     Some (main_msone_process s7)
   }"

section \<open>The address switches\<close>

definition ors :: "(nat \<Rightarrow> u8) \<Rightarrow> nat \<Rightarrow> u8" where
  "ors round n = fold (\<lambda>k w. w OR round k) [0..<n] 0"

lemma ors_Suc: "ors round (Suc n) = ors round n OR round n"
  by (simp add: ors_def)

lemma scan_loop_ors:
  "i \<le> 20 \<Longrightarrow> tmp = ors round k \<Longrightarrow> k = 0 \<and> i = 0 \<or> 0 < k \<and> dip = tmp \<Longrightarrow>
     \<exists>n \<ge> k. scan_loop round k i tmp dip = ors round n \<and> (k = 0 \<longrightarrow> 0 < n)"
proof (induction round k i tmp dip rule: scan_loop.induct)
  case (1 round k i tmp dip)
  show ?case
  proof (cases "i < 20")
    case False
    with "1.prems" show ?thesis by (subst scan_loop.simps) auto
  next
    case True
    have tmp': "tmp OR round k = ors round (Suc k)" using "1.prems" by (simp add: ors_Suc)
    show ?thesis
    proof (cases "dip = tmp OR round k")
      case False
      with "1.IH"(1) [OF True refl] tmp' obtain n where "n \<ge> Suc k" "scan_loop round (Suc k) 1 (tmp OR round k) (tmp OR round k) = ors round n"
        by auto
      with True False show ?thesis by (subst scan_loop.simps) (auto simp: Let_def intro!: exI [of _ n])
    next
      case eq: True
      with "1.IH"(2) [OF True refl] tmp' True obtain n where "n \<ge> Suc k" "scan_loop round (Suc k) (Suc i) (tmp OR round k) dip = ors round n"
        by auto
      with True eq show ?thesis by (subst scan_loop.simps) (auto simp: Let_def intro!: exI [of _ n])
    qed
  qed
qed

lemma ors_const: "0 < n \<Longrightarrow> ors (\<lambda>_. v) n = v"
proof (induction n)
  case (Suc n)
  then show ?case by (cases n) (simp_all add: ors_Suc ors_def)
qed simp

text \<open>C37. The scan of the address switches ends whatever the switches do while it runs and whatever
  its uninitialised variable contains: the address is the complement of the or of all rounds up
  to some round. With steady switches it is their complement, and the station is the host
  exactly when that is 1.\<close>

theorem scan_local_station_result:
  "(\<exists>n > 0. local_station (scan_local_station inputs s) = NOT (ors (\<lambda>k. dip_pins (s\<lparr>IDR := inputs k\<rparr>)) n)) \<and>
   ((\<forall>k. inputs k = IDR s) \<longrightarrow> local_station (scan_local_station inputs s) = NOT (dip_pins s)) \<and>
   isHost (scan_local_station inputs s) = (if local_station (scan_local_station inputs s) = 1 then 1 else 0)"
proof -
  let ?r = "\<lambda>k. dip_pins (s\<lparr>IDR := inputs k\<rparr>)"
  have ff: "NOT w AND 0xFF = NOT w" for w :: u8
  proof -
    have m: "(0xFF :: u8) = -1" by simp
    show ?thesis by (simp only: m and.right_neutral)
  qed
  obtain n where n: "scan_loop ?r 0 0 0 (uninit_dip s) = ors ?r n" "0 < n"
    using scan_loop_ors [of 0 0 ?r 0 "uninit_dip s"] by (auto simp: ors_def)
  moreover have "ors ?r n = dip_pins s" if "\<forall>k. inputs k = IDR s"
    using that ors_const [OF n(2), of "dip_pins s"] by simp
  ultimately show ?thesis by (auto simp: scan_local_station_def Let_def ff)
qed

theorem scan_local_station_result_witness:
  "local_station (scan_local_station (\<lambda>_. IDR power_on) power_on) = 0"
  using scan_local_station_result [of "\<lambda>_. IDR power_on" power_on]
  by (simp add: dip_pins_def DIP_STATE_def GPIO_ReadInputDataBit_def GPIO_Pin_def power_on_def)

section \<open>The main loop keeps the invariant\<close>

lemma sys_ok_main [simp]:
  "sys_ok (t\<lparr>sec_flag := a\<rparr>) = sys_ok t"
  "sys_ok (t\<lparr>half_sec_flag := a\<rparr>) = sys_ok t"
  "sys_ok (t\<lparr>heart_dely := b\<rparr>) = sys_ok t"
  "sys_ok (t\<lparr>modulestate_index := a\<rparr>) = sys_ok t"
  "sys_ok (t\<lparr>modulestate_readcnt := a\<rparr>) = sys_ok t"
  "sys_ok (t\<lparr>upload_runcnt := a\<rparr>) = sys_ok t"
  "sys_ok (t\<lparr>msone_flag := b\<rparr>) = sys_ok t"
  "sys_ok (t\<lparr>freq_check_cnt := a\<rparr>) = sys_ok t"
  "sys_ok (t\<lparr>sec_reg := a\<rparr>) = sys_ok t"
  "sys_ok (t\<lparr>half_sec_reg := a\<rparr>) = sys_ok t"
  "sys_ok (t\<lparr>upload_time_delay := a\<rparr>) = sys_ok t"
  "sys_ok (t\<lparr>LocalTime := d\<rparr>) = sys_ok t"
  "sys_ok (t\<lparr>mac_addr := m\<rparr>) = sys_ok t"
  "sys_ok (t\<lparr>isHost := b\<rparr>) = sys_ok t"
  "sys_ok (t\<lparr>local_station := b\<rparr>) = sys_ok t"
  by (simp_all add: sys_defs)

lemma good_main_fields:
  "good s t \<Longrightarrow> good s (t\<lparr>sec_flag := a\<rparr>)"
  "good s t \<Longrightarrow> good s (t\<lparr>half_sec_flag := a\<rparr>)"
  "good s t \<Longrightarrow> good s (t\<lparr>heart_dely := b\<rparr>)"
  "good s t \<Longrightarrow> good s (t\<lparr>modulestate_index := a\<rparr>)"
  "good s t \<Longrightarrow> good s (t\<lparr>modulestate_readcnt := a\<rparr>)"
  "good s t \<Longrightarrow> good s (t\<lparr>upload_runcnt := a\<rparr>)"
  "good s t \<Longrightarrow> good s (t\<lparr>msone_flag := b\<rparr>)"
  "good s t \<Longrightarrow> good s (t\<lparr>freq_check_cnt := a\<rparr>)"
  "good s t \<Longrightarrow> good s (t\<lparr>sec_reg := a\<rparr>)"
  "good s t \<Longrightarrow> good s (t\<lparr>half_sec_reg := a\<rparr>)"
  "good s t \<Longrightarrow> good s (t\<lparr>upload_time_delay := a\<rparr>)"
  "good s t \<Longrightarrow> good s (t\<lparr>LocalTime := d\<rparr>)"
  by (simp_all add: good_def stable_def)

lemma good_LED: "good s t \<Longrightarrow> good s (LED_ON t)" "good s t \<Longrightarrow> good s (LED_OFF t)"
  by (simp_all add: good_def stable_def LED_ON_def LED_OFF_def GPIO_SetBits_def GPIO_ResetBits_def)

lemma good_status_added:
  assumes "good s t" "length bs = 100"
  shows "good s (AddModuleStatusData2Queue
    \<lparr>station_no = x, belt_number = Belt_Number (user_paras_local t), inverter_status = bytes_inverters 10 bs\<rparr> t)"
proof -
  have "Belt_Number (user_paras_local t) \<le> 10" using good_sys_ok [OF assms(1)] by (simp add: sys_defs)
  from good_AddModuleStatus [OF good_sys_ok [OF assms(1)] status_ok_inverters [OF this]]
  show ?thesis by (rule good_trans [OF assms(1)])
qed

lemma half_second_good:
  assumes "good s t" "isHost t \<noteq> 0"
  shows "returns (do {
     let n = Belt_Number (user_paras_local t);
     bytes \<leftarrow> memcpy (inverters_bytes (inverter_status (uninit_status t))) 0
       (inverters_bytes (inverter_status_buffer t)) (sizeof_INVERTER_STATUS_T * unat n);
     let t1 = AddModuleStatusData2Queue
       \<lparr>station_no = 1, belt_number = n, inverter_status = bytes_inverters 10 bytes\<rparr> t;
     if modulestate_readcnt t1 > 30 then do {
       let t2 = t1\<lparr>modulestate_readcnt := 0, modulestate_index := modulestate_index t1 + 1\<rparr>;
       t3 \<leftarrow> can_bus_send_msg (replicate 10 0) 0 CAN_FUNC_ID_READ_MODULE_STATUS (ucast (modulestate_index t2)) t2;
       Some (if modulestate_index t3 > 30 then t3\<lparr>modulestate_index := 1\<rparr> else t3)
     } else Some t1 }) (good s)"
proof -
  note ok = good_sys_ok [OF assms(1)]
  have "unat (Belt_Number (user_paras_local t)) \<le> 10" using belts_okD(2) [OF sys_okD(1) [OF ok]] .
  moreover have "length (inverters_bytes (inverter_status (uninit_status t))) = 100"
    "length (inverters_bytes (inverter_status_buffer t)) = 100" using ok by (simp_all add: sys_defs)
  ultimately obtain bs where bs: "memcpy (inverters_bytes (inverter_status (uninit_status t))) 0
       (inverters_bytes (inverter_status_buffer t)) (10 * unat (Belt_Number (user_paras_local t))) = Some bs" "length bs = 100"
    by (simp add: memcpy_def)
  let ?t1 = "AddModuleStatusData2Queue \<lparr>station_no = 1, belt_number = Belt_Number (user_paras_local t),
      inverter_status = bytes_inverters 10 bs\<rparr> t"
  have t1: "good s ?t1" by (rule good_status_added [OF assms(1) bs(2)])
  let ?t2 = "?t1\<lparr>modulestate_readcnt := 0, modulestate_index := modulestate_index ?t1 + 1\<rparr>"
  have t2: "good s ?t2" using t1 by (simp add: good_main_fields)
  let ?fs = "msg_frames (uninit_frame ?t2) CAN_FUNC_ID_READ_MODULE_STATUS (ucast (modulestate_index ?t2)) []"
  have l: "length (frame_data (uninit_frame ?t2)) = 8" using good_sys_ok [OF t2] by (simp add: sys_defs)
  have t3: "good s (AddCanFrames ?fs ?t2)"
    by (rule good_trans [OF t2 good_AddCanFrames [OF good_sys_ok [OF t2] frame_ok_msg_frames [OF l]]])
  have "can_bus_send_msg (replicate 10 0) 0 CAN_FUNC_ID_READ_MODULE_STATUS (ucast (modulestate_index ?t2)) ?t2 =
      Some (AddCanFrames ?fs ?t2)"
    using can_bus_send_msg_eq [OF _ l, of 0 "replicate 10 0"] by simp
  then show ?thesis
    using t1 t3 by (simp add: Let_def bs(1) good_main_fields)
qed

lemma sec_process_good:
  assumes "sys_ok s"
  shows "returns (sec_process s) (good s)"
  unfolding sec_process_def
proof (rule returns_bind [where P = "good s"], goal_cases)
  case 1
  have "returns (Block_Check_Ctrl_Handle t) (good s)" if "good s t" for t
    using that by (rule good_call) (rule Block_Check_good)
  then show ?case using good_refl [OF assms] by (simp add: Let_def good_main_fields good_LED)
next
  case (2 t)
  have t: "good s (t\<lparr>half_sec_flag := 0\<rparr>)" using 2 by (rule good_main_fields)
  show ?case
    unfolding Let_def [of "t\<lparr>half_sec_flag := 0\<rparr>"]
    by (intro returns_if half_second_good [OF t]) (use t 2 in simp_all)
qed

lemma node_ok_belt: "0 < n \<Longrightarrow> n \<le> 10 \<Longrightarrow> node_ok (write_node n g d)"
  by (simp add: node_ok_def write_node_def)

lemma good_AddUart:
  assumes "good s t" "node_ok x"
  shows "good s (AddUartSendData2Queue x t)"
proof -
  have "good t (AddUartNodes [x] t)" by (rule good_AddUartNodes) (use assms in \<open>simp_all add: good_def\<close>)
  from good_trans [OF assms(1) this] show ?thesis by (simp add: AddUartNodes_def AddUartSendData2Queue_def)
qed

lemma run_last_good:
  assumes "good s t" "Belt_Number (user_paras_local t) \<noteq> 0"
  shows "returns (run_last_belt t) (good s)"
proof -
  note b = sys_okD(1) [OF good_sys_ok [OF assms(1)]]
  obtain l where l: "stream_signal_loop 0 t 1 = Some l" using stream_signal_loop_defined [OF b] by blast
  have n: "0 < Belt_Number (user_paras_local t)" "Belt_Number (user_paras_local t) \<le> 10"
    using assms(2) good_sys_ok [OF assms(1)] by (simp_all add: sys_defs word_neq_0_conv)
  have "belts t - 1 < 10" using belts_okD(2) [OF b] by simp
  with assms(1) good_AddUart [OF assms(1) node_ok_belt [OF n]] belts_okD [OF b] show ?thesis
    by (simp add: run_last_belt_def Let_def l idx_Some)
qed

lemma run_middle_good:
  assumes "good s t" "0 < i" "i < 10"
  shows "returns (run_middle_belt i t) (good s)"
proof -
  note b = sys_okD(1) [OF good_sys_ok [OF assms(1)]]
  have "unat (of_nat i :: u16) = i" using assms(3) by (rule unat_small_u16)
  then have "0 < (of_nat i :: u16)" "of_nat i \<le> (10 :: u16)" using assms(2,3)
    by (simp_all add: word_less_nat_alt word_le_nat_alt)
  from good_AddUart [OF assms(1) node_ok_belt [OF this]] assms belts_okD [OF b] show ?thesis
    by (simp add: run_middle_belt_def idx_Some)
qed

lemma returns_for_down:
  assumes "P s" "\<And>i t. 0 < i \<Longrightarrow> i \<le> n \<Longrightarrow> P t \<Longrightarrow> returns (body i t) P"
  shows "returns (for_down n body s) P"
  using for_down_rule [of "\<lambda>_. P" n s body] assms by (auto simp: returns_def)

lemma upload_good:
  assumes "sys_ok s"
  shows "returns (main_upload_run_state s) (good s)"
proof (cases "Belt_Number (user_paras_local s) = 0 \<or> \<not> 800 \<le> upload_runcnt s")
  case True
  then show ?thesis using good_refl [OF assms] by (auto simp: main_upload_run_state_def)
next
  case False
  have s0: "good s (s\<lparr>upload_runcnt := 0\<rparr>)" using good_refl [OF assms] by (rule good_main_fields)
  have *: "returns (if g_speed_gear_status t \<noteq> 0 \<and> Belt_Number (user_paras_local t) > 1
        then for_down (belts t - 1) run_middle_belt t else Some t) (good s)" if "good s t" for t
  proof (rule returns_if)
    have "belts t \<le> 10" using belts_okD(2) [OF sys_okD(1) [OF good_sys_ok [OF that]]] .
    then show "returns (for_down (belts t - 1) run_middle_belt t) (good s)"
      by (intro returns_for_down that run_middle_good) simp_all
  qed (simp add: that)
  have "returns (if g_speed_gear_status (s\<lparr>upload_runcnt := 0\<rparr>) \<noteq> 0 then run_last_belt (s\<lparr>upload_runcnt := 0\<rparr>)
      else Some (s\<lparr>upload_runcnt := 0\<rparr>)) (good s)"
    by (intro returns_if run_last_good s0) (use False s0 in simp_all)
  from returns_bind [OF this *] False show ?thesis
    unfolding main_upload_run_state_def Let_def by auto
qed

lemma msone_good:
  assumes "sys_ok s"
  shows "good s (main_msone_process s)"
proof -
  have pn: "polling_num s \<le> 10" "Belt_Number (user_paras_local s) \<le> 10" using assms by (simp_all add: sys_defs)
  define n where "n = (if ucast (polling_num s + 1) > Belt_Number (user_paras_local s) then 1 else polling_num s + 1)"
  have u: "unat (polling_num s + 1) = unat (polling_num s) + 1"
    using pn(1) by (simp add: unat_word_ariths word_le_nat_alt)
  have n: "0 < n" "n \<le> 10"
    using u pn by (auto simp: n_def word_less_nat_alt word_le_nat_alt)
  have "sys_ok (t\<lparr>polling_num := n\<rparr>)" if "sys_ok t" for t using that n(2) by (simp add: sys_defs)
  then have poll: "good s (t\<lparr>polling_num := n\<rparr>)" if "good s t" for t
    using that by (simp add: good_def stable_def)
  have node: "node_ok (x\<lparr>rw_flag := 0, inverter_no := ucast n, comm_interval := 20, comm_retry := 0\<rparr>)" for x
    using n by (simp add: node_ok_def word_less_nat_alt word_le_nat_alt)
  let ?s1 = "s\<lparr>msone_flag := 0, modulestate_readcnt := modulestate_readcnt s + 1\<rparr>"
  have s1: "good s ?s1" by (intro good_main_fields good_refl assms)
  have "good s (AddUartSendData2Queue ((uninit_node s)\<lparr>rw_flag := 0, inverter_no := ucast n, comm_interval := 20,
      comm_retry := 0\<rparr>) (?s1\<lparr>freq_check_cnt := 0, polling_num := n\<rparr>))"
    by (intro good_AddUart poll good_main_fields s1 node)
  with s1 good_refl [OF assms] show ?thesis
    by (auto simp: main_msone_process_def Let_def n_def)
qed

section \<open>The interrupt and a pass of the loop\<close>

lemma good_scanned:
  assumes "good s t" "scanned t u \<and> emergency_scanned (B_EMERGENCY_IN_STATE t) t u"
  shows "scanned s u \<and> emergency_scanned (B_EMERGENCY_IN_STATE s) s u"
proof -
  have "IDR t = IDR s" "bEmergencyInfo t = bEmergencyInfo s" "user_paras_local t = user_paras_local s"
    "isHost t = isHost s" "local_station t = local_station s" "uart_tx t = uart_tx s" "sys_reset t = sys_reset s"
    using assms(1) by (simp_all add: good_def stable_def)
  with assms(2) level_from_IDR [of t s] show ?thesis by (simp add: scanned_def emergency_scanned_def)
qed

lemma good_upload_msg: "good s t \<Longrightarrow> good s (AddSendMsgToQueue m t)"
  using good_trans [OF _ good_AddSendMsg] good_sys_ok by blast

text \<open>The part of the interrupt before the scan.\<close>

lemma Time_Update_prefix:
  assumes "sys_ok s"
  obtains t where "good s t" "Time_Update s = InputScanProc (uart_recv_timeout t)"
proof -
  note f = good_main_fields good_update(3,4) good_upload_msg
  define s1 where "s1 = s\<lparr>LocalTime := LocalTime s + 1, upload_runcnt := upload_runcnt s + 1,
      freq_check_cnt := freq_check_cnt s + 1, msone_flag := 1\<rparr>"
  define s2 where "s2 = (if sec_reg s1 \<noteq> 0 then
      let t = s1\<lparr>sec_reg := sec_reg s1 - 1\<rparr> in
      if sec_reg t = 0 then t\<lparr>sec_reg := 1000, sec_flag := 1\<rparr> else t else s1)"
  define s3 where "s3 = (if half_sec_reg s2 \<noteq> 0 then
      let t = s2\<lparr>half_sec_reg := half_sec_reg s2 - 1\<rparr> in
      if half_sec_reg t = 0 then t\<lparr>half_sec_reg := 500, half_sec_flag := 1\<rparr> else t else s2)"
  define s4 where "s4 = (if reset_start_time_cnt s3 \<noteq> 0 then
      let t = s3\<lparr>reset_start_time_cnt := reset_start_time_cnt s3 - 1\<rparr> in
      if reset_start_time_cnt t = 0 then t\<lparr>reset_start_flag := 1\<rparr> else t else s3)"
  define s5 where "s5 = (if upload_time_delay s4 \<noteq> 0 then
      let t = s4\<lparr>upload_time_delay := upload_time_delay s4 - 1\<rparr> in
      if upload_time_delay t = 0 then
        (if isHost t = 1 \<and> IsModuleStatusQueueFree t = 0
         then AddSendMsgToQueue SEND_MSG_MODULE_STATUS_TYPE t else t)\<lparr>upload_time_delay := 10\<rparr>
      else t else s4)"
  have s1: "good s s1" unfolding s1_def by (intro f good_refl assms)
  then have s2: "good s s2" by (simp add: s2_def Let_def f)
  then have s3: "good s s3" by (simp add: s3_def Let_def f)
  then have s4: "good s s4" by (simp add: s4_def Let_def f)
  then have s5: "good s s5" by (simp add: s5_def Let_def f)
  moreover have "Time_Update s = InputScanProc (uart_recv_timeout s5)"
    unfolding Time_Update_def s5_def s4_def s3_def s2_def s1_def Let_def ..
  ultimately show thesis by (rule that)
qed

lemma Time_Update_ok:
  assumes "sys_ok s"
  shows "returns (Time_Update s) (\<lambda>t. scanned s t \<and> emergency_scanned (B_EMERGENCY_IN_STATE s) s t)"
proof -
  obtain t where t: "good s t" "Time_Update s = InputScanProc (uart_recv_timeout t)"
    using Time_Update_prefix [OF assms] by blast
  have u: "good s (uart_recv_timeout t)"
    using good_trans [OF t(1) uart_recv_timeout_good [OF good_sys_ok [OF t(1)]]] .
  show ?thesis unfolding t(2)
    by (rule returns_mono [OF InputScanProc_ok [OF good_sys_ok [OF u]]]) (rule good_scanned [OF u])
qed

text \<open>\<open>ran s t\<close>: the main loop has run; it may have sent frames to the inverters.\<close>

definition ran :: "fw \<Rightarrow> fw \<Rightarrow> bool" where
  "ran s t \<longleftrightarrow> (\<exists>log. safe (s\<lparr>uart_tx := uart_tx s @ log\<rparr>) t)"

lemma safe_ran: "safe s t \<Longrightarrow> ran s t"
  unfolding ran_def by (rule exI [of _ "[]"]) (simp add: safe_def stable_def)

lemma sends_ran: "sends s t \<Longrightarrow> ran s t"
  by (auto simp: sends_def ran_def dest: good_safe)

lemma ran_ok: "ran s t \<Longrightarrow> sys_ok t"
  by (auto simp: ran_def safe_def)

lemma ran_trans: "ran s t \<Longrightarrow> ran t u \<Longrightarrow> ran s u"
  by (auto simp: ran_def safe_def stable_def)

lemma returns_ran: "returns r (safe s) \<Longrightarrow> returns r (ran s)"
  by (erule returns_mono) (rule safe_ran)

lemma returns_ran_call: "ran s t \<Longrightarrow> (sys_ok t \<Longrightarrow> returns r (ran t)) \<Longrightarrow> returns r (ran s)"
  using returns_mono [of r "ran t" "ran s"] ran_trans ran_ok by blast

lemma main_pass_ok:
  assumes "sys_ok s"
  shows "returns (main_pass eth s) (ran s)"
  unfolding main_pass_def
proof (intro returns_bind [where P = "ran s"] returns_if)
  show "returns (udp_client_process s) (ran s)" using client_process_ok [OF assms] by (rule returns_ran)
  show "returns (Some s) (ran s)" using safe_ran [OF safe_refl [OF assms]] by simp
  fix t assume t: "ran s t"
  note call = returns_ran_call [OF t] returns_ran returns_safe
  show "returns (send_message_to_server t) (ran s)" by (intro call send_message_good)
  show "returns (sec_process t) (ran s)" by (intro call sec_process_good)
  show "returns (Modbus_RTU_Comm_Process t) (ran s)"
    by (rule call(1), rule returns_mono [OF Comm_Process_sends sends_ran])
  show "returns (can_send_frame_process t) (ran s)" by (intro call can_send_frame_good)
  show "returns (Reset_Start_Inverter_Handle t) (ran s)" by (intro call Reset_Start_good)
  show "returns (logic_upstream_io_allow_output t) (ran s)" by (intro call upstream_io_good)
  show "returns (main_upload_run_state t) (ran s)" by (intro call upload_good)
  show "returns (Some (main_msone_process t)) (ran s)"
    using ran_trans [OF t safe_ran [OF good_safe [OF msone_good [OF ran_ok [OF t]]]]] by simp
qed

section \<open>Start-up establishes the invariant\<close>

text \<open>The state \<open>main\<close> starts in: the C globals have their initial values, and the fields
  outside the program's control are arbitrary (but the arrays among them have their size).\<close>

definition power_up :: "fw \<Rightarrow> bool" where
  "power_up s \<longleftrightarrow>
     s\<lparr>IDR := IDR power_on, ODR := ODR power_on, flash_mem := flash_mem power_on, hw_erase := hw_erase power_on,
       hw_program := hw_program power_on, hw_SR := hw_SR power_on, sr_reads := sr_reads power_on,
       FLASH_KEYR := FLASH_KEYR power_on, FLASH_CR := FLASH_CR power_on, FLASH_AR := FLASH_AR power_on,
       TSR := TSR power_on, sTxMailBox := sTxMailBox power_on,
       lwip_pcb_free := lwip_pcb_free power_on, lwip_connect_ok := lwip_connect_ok power_on,
       lwip_pbuf_free := lwip_pbuf_free power_on, uninit_node := uninit_node power_on,
       uninit_frame := uninit_frame power_on, uninit_status := uninit_status power_on,
       uninit_write_data := uninit_write_data power_on, uninit_tx_data := uninit_tx_data power_on,
       uninit_m := uninit_m power_on, uninit_dip := uninit_dip power_on\<rparr> = power_on \<and>
     length (sTxMailBox s) = 3 \<and> length (frame_data (uninit_frame s)) = 8 \<and> length (uninit_tx_data s) = 8 \<and>
     length (inverter_status (uninit_status s)) = 10 \<and> length (uninit_write_data s) = 4"

lemma power_upD:
  assumes "power_up s"
  shows "moduleStatusQueue s = moduleStatusQueue power_on" "uartSendQueue s = uartSendQueue power_on"
    "canSendQueue s = canSendQueue power_on" "msgSendQueue s = msgSendQueue power_on"
    "user_paras_local s = user_paras_local power_on" "user_paras_slave s = user_paras_slave power_on"
    "inverter_status_buffer s = inverter_status_buffer power_on" "block_check_time_cnt s = block_check_time_cnt power_on"
    "stopspeed_default s = stopspeed_default power_on" "uart1_send_buff s = uart1_send_buff power_on"
    "uart1_recv_buff s = uart1_recv_buff power_on" "uart1_recv_count s = uart1_recv_count power_on"
    "polling_num s = polling_num power_on" "comm_busy_flag s = comm_busy_flag power_on"
    "tcp_client s = tcp_client power_on" "can_send_buff s = can_send_buff power_on"
    "can_recv_buff s = can_recv_buff power_on" "mac_addr s = mac_addr power_on"
    "bEmergencyInfo s = bEmergencyInfo power_on" "uart_tx s = uart_tx power_on"
    "sys_reset s = sys_reset power_on"
  using assms by (cases s; simp add: power_up_def power_on_def)+

lemma power_up_power_on: "power_up power_on"
  by (simp add: power_up_def power_on_def zero_frame_def zero_status_def)

lemma queues_started:
  assumes "power_up s"
  shows "sys_ok (InitModuleStatusQueue (InitUartSendQueue (InitCanSendQueue (InitSendMsgQueue s))))" (is "sys_ok ?t")
proof -
  have f: "user_paras_local ?t = user_paras_local s" "inverter_status_buffer ?t = inverter_status_buffer s"
    "block_check_time_cnt ?t = block_check_time_cnt s" "stopspeed_default ?t = stopspeed_default s"
    "uart1_send_buff ?t = uart1_send_buff s" "uart1_recv_buff ?t = uart1_recv_buff s"
    "uart1_recv_count ?t = uart1_recv_count s" "polling_num ?t = polling_num s" "comm_busy_flag ?t = comm_busy_flag s"
    "tcp_client ?t = tcp_client s" "user_paras_slave ?t = user_paras_slave s" "can_send_buff ?t = can_send_buff s"
    "can_recv_buff ?t = can_recv_buff s" "uninit_frame ?t = uninit_frame s" "uninit_tx_data ?t = uninit_tx_data s"
    "sTxMailBox ?t = sTxMailBox s" "uninit_status ?t = uninit_status s" "uninit_write_data ?t = uninit_write_data s"
    by (simp_all add: InitModuleStatusQueue_def InitUartSendQueue_def InitCanSendQueue_def InitSendMsgQueue_def)
  note u = power_upD [OF assms] power_on_def
  have q: "queues_inv ?t" "uart_nodes ?t = []" "can_frames ?t = []" "status_msgs ?t = []"
    using uartq.invar_empty statusq.invar_empty msgq.invar_empty canq.invar_empty
    by (simp_all add: queues_inv_def InitModuleStatusQueue_def InitSendMsgQueue_def u
        InitCanSendQueue_def InitUartSendQueue_def ready_ring_def fresh_ring_def)
  have "belts_ok ?t" "can_ok ?t" "modbus_ok ?t" "net_ok ?t"
    using assms by (simp_all add: belts_ok_def can_ok_def modbus_ok_def net_ok_def f u zero_paras_fields
        zero_client_def) (simp_all add: power_up_def)
  with q show ?thesis by (simp add: sys_ok_def)
qed

lemma read_mac_eq:
  assumes "length (mac_addr s) = 6"
  obtains m where "read_mac_addrs id0 id1 id2 s = Some (s\<lparr>mac_addr := m\<rparr>)"
  using assms by (auto simp: read_mac_addrs_def upd_def Let_def)

lemma main_init_ok:
  assumes "power_up s"
  shows "returns (main_init inputs id0 id1 id2 s)
    (\<lambda>t. sys_ok t \<and> uart_nodes t = [] \<and> uart_tx t = [] \<and> bEmergencyInfo t = zero_button \<and>
         isHost t = (if local_station t = 1 then 1 else 0) \<and> \<not> sys_reset t \<and> IDR t = IDR s)"
proof -
  let ?q = "InitModuleStatusQueue (InitUartSendQueue (InitCanSendQueue (InitSendMsgQueue s)))"
  let ?l = "scan_local_station inputs ?q"
  have q: "mac_addr ?q = mac_addr s" "uart_nodes ?q = []" "uart_tx ?q = uart_tx s" "bEmergencyInfo ?q = bEmergencyInfo s"
    "sys_reset ?q = sys_reset s" "IDR ?q = IDR s"
    by (simp_all add: InitModuleStatusQueue_def InitUartSendQueue_def InitCanSendQueue_def InitSendMsgQueue_def)
  have l: "sys_ok ?l" using queues_started [OF assms] by (simp add: scan_local_station_def Let_def)
  have lf: "mac_addr ?l = mac_addr ?q" "uart_nodes ?l = uart_nodes ?q" "uart_tx ?l = uart_tx ?q"
    "bEmergencyInfo ?l = bEmergencyInfo ?q" "sys_reset ?l = sys_reset ?q" "IDR ?l = IDR ?q" "isHost ?l = (if local_station ?l = 1 then 1 else 0)"
    by (simp_all add: scan_local_station_def Let_def)
  have "length (mac_addr ?l) = 6" using power_upD(18) [OF assms] by (simp add: lf q power_on_def)
  then obtain m where m: "read_mac_addrs id0 id1 id2 ?l = Some (?l\<lparr>mac_addr := m\<rparr>)" by (rule read_mac_eq)
  let ?m = "?l\<lparr>mac_addr := m\<rparr>"
  have ok: "sys_ok ?m" using l by simp
  then have w: "wf_paras (user_paras_local ?m)" "length (stopspeed_default ?m) = 10" by (simp_all add: sys_defs)
  have r: "returns (read_user_paras ?m) (\<lambda>t. sys_ok t \<and> uart_nodes t = uart_nodes ?m \<and> uart_tx t = uart_tx ?m \<and>
      bEmergencyInfo t = bEmergencyInfo ?m \<and> isHost t = isHost ?m \<and> local_station t = local_station ?m \<and>
      sys_reset t = sys_reset ?m \<and> IDR t = IDR ?m)"
    using read_user_paras_ok [OF ok] by (simp add: read_user_paras_eq [OF w] safe_def)
  have e: "main_init inputs id0 id1 id2 s = read_user_paras ?m" by (simp add: main_init_def m Let_def)
  have f: "uart_nodes ?m = []" "uart_tx ?m = []" "bEmergencyInfo ?m = zero_button"
    "isHost ?m = (if local_station ?m = 1 then 1 else 0)" "sys_reset ?m = False" "IDR ?m = IDR s"
    using power_upD [OF assms] lf(7) by (simp_all add: lf(2-6) q power_on_def)
  show ?thesis unfolding e by (rule returns_mono [OF r]) (simp only: f not_False_eq_True simp_thms)
qed

end
