(* ===== verification/System.thy ===== *)
theory System
  imports MainLoop
begin

text \<open>
  The firmware as a whole: a step relation in which the main loop makes one of its calls, an
  interrupt handler runs, lwIP delivers a datagram, or the environment changes the inputs. Runs
  begin with the state that the start of \<open>main\<close> leaves (\<open>start_up_reachable\<close> in Startup). A
  configuration is the number of the main loop's next call and the state. Handlers and calls
  are atomic: an interrupt comes between two calls of the main loop. (Preempt looks inside.)

  A step exists only when the C code is defined; \<open>no_undefined_behaviour\<close> shows that it
  always is in a reachable state, as long as the peers keep within the bounds \<open>benign\<close> that the
  code relies on without checking them.
\<close>

section \<open>Steps\<close>

text \<open>The calls of the main loop, in order.\<close>

definition main_call :: "bool \<Rightarrow> nat \<Rightarrow> fw \<Rightarrow> fw option" where
  "main_call EthInitStatus k s =
     (if k = 0 then (if isHost s \<noteq> 0 \<and> EthInitStatus then udp_client_process s else Some s)
      else if k = 1 then (if isHost s \<noteq> 0 \<and> EthInitStatus then send_message_to_server s else Some s)
      else if k = 2 then sec_process s
      else if k = 3 then Modbus_RTU_Comm_Process s
      else if k = 4 then can_send_frame_process s
      else if k = 5 then Reset_Start_Inverter_Handle s
      else if k = 6 then logic_upstream_io_allow_output s
      else if k = 7 then main_upload_run_state s
      else Some (main_msone_process s))"

datatype event = Main_Call bool | SysTick | USART1 u16 | CAN1_RX0 rx_fifo | Udp_Recv u16 u32 "u8 list" | Env

inductive step :: "nat \<times> fw \<Rightarrow> event \<Rightarrow> nat \<times> fw \<Rightarrow> bool" where
  main: "\<not> sys_reset s \<Longrightarrow> main_call eth pc s = Some t \<Longrightarrow>
    step (pc, s) (Main_Call eth) (if pc = 8 then 0 else Suc pc, t)"
| systick: "\<not> sys_reset s \<Longrightarrow> SysTick_Handler s = Some t \<Longrightarrow> step (pc, s) SysTick (pc, t)"
| usart: "\<not> sys_reset s \<Longrightarrow> USART1_IRQHandler DR s = Some t \<Longrightarrow> step (pc, s) (USART1 DR) (pc, t)"
| can: "\<not> sys_reset s \<Longrightarrow> CAN1_RX0_IRQHandler r s = Some t \<Longrightarrow> step (pc, s) (CAN1_RX0 r) (pc, t)"
| udp: "\<not> sys_reset s \<Longrightarrow> udp_receive_callback port ip payload s = Some t \<Longrightarrow>
    step (pc, s) (Udp_Recv port ip payload) (pc, t)"
| env: "\<not> sys_reset s \<Longrightarrow> length (frame_data fr) = 8 \<Longrightarrow> length tx = 8 \<Longrightarrow> length (inverter_status st) = 10 \<Longrightarrow>
    length wd = 4 \<Longrightarrow>
    step (pc, s) Env (pc, s\<lparr>IDR := inputs, hw_SR := sr, TSR := tsr, lwip_pcb_free := l1, lwip_connect_ok := l2,
      lwip_pbuf_free := l3, uninit_node := nd, uninit_frame := fr, uninit_status := st, uninit_write_data := wd,
      uninit_tx_data := tx, uninit_m := m\<rparr>)"

inductive_cases stepE: "step (pc, s) e c"
inductive_simps step_simps: "step (pc, s) e (pc', t)"

text \<open>The bounds the peers keep: an inverter's answer fits the receive buffer, a CAN message is
  about at most ten belts, a datagram has at most 300 bytes.\<close>

fun benign :: "event \<Rightarrow> fw \<Rightarrow> bool" where
  "benign (USART1 DR) s \<longleftrightarrow> uart1_recv_count s < 50"
| "benign (CAN1_RX0 r) s \<longleftrightarrow> frame_safe (CAN_Receive r) s"
| "benign (Udp_Recv port ip payload) s \<longleftrightarrow> length payload \<le> 300"
| "benign _ s \<longleftrightarrow> True"

text \<open>Runs, with the levels of the emergency input that the millisecond interrupts saw.\<close>

inductive trace :: "nat \<times> fw \<Rightarrow> u8 list \<Rightarrow> nat \<times> fw \<Rightarrow> bool" where
  start: "trace c [] c"
| more: "trace c vs c' \<Longrightarrow> benign e (snd c') \<Longrightarrow> step c' e c'' \<Longrightarrow>
    trace c (if e = SysTick then vs @ [B_EMERGENCY_IN_STATE (snd c')] else vs) c''"

inductive reachable :: "u8 list \<Rightarrow> nat \<times> fw \<Rightarrow> bool" where
  "power_up s \<Longrightarrow> main_init inputs id0 id1 id2 s = Some t \<Longrightarrow> trace (0, t) vs c \<Longrightarrow> reachable vs c"

section \<open>The invariant holds in every reachable state\<close>

lemma main_call_ok:
  assumes "sys_ok s"
  shows "k \<noteq> 3 \<Longrightarrow> returns (main_call eth k s) (safe s)"
  using returns_safe [OF send_message_good [OF assms]] returns_safe [OF sec_process_good [OF assms]]
    returns_safe [OF can_send_frame_good [OF assms]]
    returns_safe [OF Reset_Start_good [OF assms]] returns_safe [OF upstream_io_good [OF assms]]
    returns_safe [OF upload_good [OF assms]] good_safe [OF msone_good [OF assms]]
    client_process_ok [OF assms] safe_refl [OF assms]
  unfolding main_call_def by simp

text \<open>The nine calls in a row are one pass of the loop of \<open>main\<close>.\<close>

lemma main_pass_calls:
  assumes "sys_ok s"
  shows "main_pass eth s = fold (\<lambda>k r. r \<bind> main_call eth k) [0..<9] (Some s)"
proof -
  have nine: "[0..<9] = [0, 1, 2, 3, 4, 5, 6, 7, 8 :: nat]" by (simp add: upt_rec)
  obtain t where t: "udp_client_process s = Some t" "isHost t = isHost s"
    using client_process_ok [OF assms] by (auto simp: returns_def safe_def stable_def)
  show ?thesis unfolding nine main_pass_def main_call_def
    by (cases "isHost s = 0"; cases eth) (simp_all add: t)
qed

lemma usart_good:
  assumes "sys_ok s" "uart1_recv_count s < 50"
  shows "returns (USART1_IRQHandler DR s) (good s)"
proof -
  have n: "unat (uart1_recv_count s) < 50" using assms(2) by (simp add: word_less_nat_alt)
  have u: "unat (uart1_recv_count s + 1) = unat (uart1_recv_count s) + 1"
    using n by (simp add: unat_word_ariths)
  have "length (uart1_recv_buff s) = 50" using assms(1) by (simp add: sys_defs)
  moreover have "uart1_recv_count s + 1 \<le> 50" using n u by (simp add: word_le_nat_alt)
  ultimately show ?thesis
    using n assms(1) good_refl [OF assms(1)]
    by (simp add: USART1_IRQHandler_def upd_Some Let_def good_def stable_def sys_defs)
qed

text \<open>What a step does to the invariant, to the emergency filter and on the inverter line.\<close>

definition step_keeps :: "event \<Rightarrow> fw \<Rightarrow> fw \<Rightarrow> bool" where
  "step_keeps e s t \<longleftrightarrow> sys_ok t \<and>
     (if e = SysTick then emergency_scanned (B_EMERGENCY_IN_STATE s) s t
      else input_info (bEmergencyInfo t) = input_info (bEmergencyInfo s)) \<and>
     (\<exists>fr. uart_tx t = uart_tx s @ map (Pair True) fr \<and> (emergency_active s \<longrightarrow> fr = [] \<or> harmless fr))"

lemma safe_keeps: "safe s t \<Longrightarrow> e \<noteq> SysTick \<Longrightarrow> step_keeps e s t"
  by (simp add: step_keeps_def safe_def stable_def exI [of _ "[]"])

lemma sends_keeps: "sends s t \<Longrightarrow> e \<noteq> SysTick \<Longrightarrow> step_keeps e s t"
  by (auto simp: step_keeps_def sends_def good_def stable_def)

text \<open>The two halves, for every event: the handler is defined, and its result keeps the invariant.\<close>

lemma handlers_ok:
  assumes "sys_ok s"
  shows "returns (main_call eth pc s) (step_keeps (Main_Call eth) s)"
    "returns (SysTick_Handler s) (step_keeps SysTick s)"
    "benign (USART1 DR) s \<Longrightarrow> returns (USART1_IRQHandler DR s) (step_keeps (USART1 DR) s)"
    "benign (CAN1_RX0 r) s \<Longrightarrow> returns (CAN1_RX0_IRQHandler r s) (step_keeps (CAN1_RX0 r) s)"
    "benign (Udp_Recv port ip payload) s \<Longrightarrow>
       returns (udp_receive_callback port ip payload s) (step_keeps (Udp_Recv port ip payload) s)"
proof -
  note k = returns_mono [OF _ safe_keeps]
  show "returns (main_call eth pc s) (step_keeps (Main_Call eth) s)"
  proof (cases "pc = 3")
    case True
    then show ?thesis using returns_mono [OF Comm_Process_sends [OF assms] sends_keeps] by (simp add: main_call_def)
  next
    case False
    then show ?thesis by (intro k [OF main_call_ok [OF assms]]) simp_all
  qed
  show "returns (SysTick_Handler s) (step_keeps SysTick s)"
    unfolding SysTick_Handler_def
    by (rule returns_mono [OF Time_Update_ok [OF assms]]) (simp add: step_keeps_def scanned_def exI [of _ "[]"])
  show "returns (USART1_IRQHandler DR s) (step_keeps (USART1 DR) s)" if "benign (USART1 DR) s"
    by (rule k [OF returns_safe [OF usart_good [OF assms]]]) (use that in simp_all)
  show "returns (CAN1_RX0_IRQHandler r s) (step_keeps (CAN1_RX0 r) s)" if "benign (CAN1_RX0 r) s"
    unfolding CAN1_RX0_IRQHandler_def
    by (rule k [OF can_bus_frame_receive_ok [OF assms]]) (use that in simp_all)
  show "returns (udp_receive_callback port ip payload s) (step_keeps (Udp_Recv port ip payload) s)"
    if "benign (Udp_Recv port ip payload) s"
    by (rule k [OF returns_safe [OF callback_good [OF assms]]]) (use that in simp_all)
qed

lemma returnsD: "returns r P \<Longrightarrow> r = Some t \<Longrightarrow> P t"
  by (simp add: returns_def)

lemma step_keeps:
  assumes "step (pc, s) e (pc', t)" "sys_ok s" "benign e s"
  shows "step_keeps e s t"
  using assms(1)
proof (cases rule: step.cases)
  case env
  then show ?thesis using assms(2) by (simp add: step_keeps_def exI [of _ "[]"]) (simp add: sys_defs)
qed (use assms(3) handlers_ok [OF assms(2)] in \<open>blast dest: returnsD\<close>)+

lemma step_pc: "step (pc, s) e (pc', t) \<Longrightarrow> pc \<le> 8 \<Longrightarrow> pc' \<le> 8"
  by (auto elim: stepE)

lemma trace_filter:
  assumes "trace c vs c'" "sys_ok (snd c)" "fst c \<le> 8"
  shows "sys_ok (snd c') \<and> fst c' \<le> 8 \<and>
    input_info (bEmergencyInfo (snd c')) = filter_samples 50 vs (input_info (bEmergencyInfo (snd c)))"
  using assms
proof (induction rule: trace.induct)
  case (start c)
  then show ?case by (simp add: filter_samples_def)
next
  case (more c vs c' e c'')
  obtain pc s pc' t where c: "c' = (pc, s)" "c'' = (pc', t)" by fastforce
  have "step_keeps e s t" "pc' \<le> 8"
    using step_keeps [of pc s e pc' t] step_pc [of pc s e pc' t] more c by simp_all
  with more c show ?case
    by (auto simp: step_keeps_def emergency_scanned_def filter_samples_def split_beta)
qed

lemma reachable_filter:
  assumes "reachable vs c"
  shows "sys_ok (snd c) \<and> fst c \<le> 8 \<and> input_info (bEmergencyInfo (snd c)) = filter_samples 50 vs zero_input"
  using assms
proof (cases rule: reachable.cases)
  case (1 s inputs id0 id1 id2 t)
  have "sys_ok t" "bEmergencyInfo t = zero_button"
    using main_init_ok [OF 1(1), of inputs id0 id1 id2] 1(2) by (simp_all add: returns_def)
  with trace_filter [OF 1(3)] show ?thesis by (simp add: zero_button_def)
qed

lemma reachable_trace: "trace c ws c' \<Longrightarrow> reachable vs c \<Longrightarrow> reachable (vs @ ws) c'"
proof (induction rule: trace.induct)
  case (more c ws c' e c'')
  then have "reachable (vs @ ws) c'" by simp
  then show ?case
  proof (cases rule: reachable.cases)
    case (1 s inputs id0 id1 id2 t)
    from reachable.intros [OF 1(1,2) trace.more [OF 1(3) more.hyps(2,3)]]
    show ?thesis by (simp split: if_splits)
  qed
qed simp

section \<open>The emergency input\<close>

lemma emergency_level_bin: "B_EMERGENCY_IN_STATE s \<le> 1"
  by (simp add: B_EMERGENCY_IN_STATE_def input_bit_def word_and_le1)

lemma trace_levels: "trace c vs c' \<Longrightarrow> list_all (\<lambda>v. v \<le> 1) vs"
  by (induction rule: trace.induct) (simp_all add: emergency_level_bin)

lemma accepted_run:
  "n < length ws \<Longrightarrow> list_all (\<lambda>w. w = v) ws \<Longrightarrow> accepted n st (rev (us @ ws)) = v"
proof (induction ws rule: rev_induct)
  case (snoc w ws)
  let ?h = "rev (us @ ws)"
  have w: "w = v" "list_all (\<lambda>w. w = v) ws" using snoc.prems by simp_all
  show ?case
  proof (cases "accepted n st ?h = v")
    case True
    then show ?thesis using w by simp
  next
    case False
    have "take (Suc n) (w # ?h) = take (Suc n) (rev (ws @ [w]))" using snoc.prems(1) by simp
    also have "list_all (\<lambda>x. x = v) \<dots>"
      using w by (auto simp: list_all_iff dest!: in_set_takeD)
    finally have "list_all (\<lambda>x. x \<noteq> accepted n st ?h) (take (Suc n) (w # ?h))"
      using False by (auto simp: list_all_iff)
    with snoc.prems(1) w show ?thesis by simp
  qed
qed simp

lemma accepted_short: "length h \<le> n \<Longrightarrow> accepted n st h = st"
  by (induction h) auto

lemma reachable_accepted:
  assumes "reachable vs c"
  shows "input_state (input_info (bEmergencyInfo (snd c))) = accepted 50 0 (rev vs)"
proof -
  have "list_all (\<lambda>v. v \<le> 1) vs" using assms trace_levels by (auto elim: reachable.cases)
  moreover have "filter_at 0 0 zero_input" by (simp add: filter_at_def zero_input_def)
  ultimately show ?thesis
    using reachable_filter [OF assms] filter_history [of 0 zero_input 50 "rev vs"] by (simp add: filter_at_def)
qed

lemma debounce_hit: "fst (debounce limit v x) = (input_state (snd (debounce limit v x)) \<noteq> input_state x)"
  by (auto simp: debounce_def settle_start_def Let_def)

text \<open>Ticks with steady inputs, for the concrete runs below.\<close>

lemma ticks:
  assumes "sys_ok s" "\<not> sys_reset s"
  obtains t where "trace (pc, s) (replicate n (B_EMERGENCY_IN_STATE s)) (pc, t)" "sys_ok t" "\<not> sys_reset t" "IDR t = IDR s"
  using assms
proof (induction n arbitrary: thesis)
  case 0
  from 0(1) [of s] 0(2,3) trace.start show ?case by simp
next
  case (Suc n)
  from Suc.IH Suc.prems obtain t where t: "trace (pc, s) (replicate n (B_EMERGENCY_IN_STATE s)) (pc, t)"
    "sys_ok t" "\<not> sys_reset t" "IDR t = IDR s" by blast
  obtain u where u: "SysTick_Handler t = Some u" "scanned t u"
    using Time_Update_ok [OF t(2)] by (auto simp: returns_def SysTick_Handler_def)
  have "trace (pc, s) (replicate (Suc n) (B_EMERGENCY_IN_STATE s)) (pc, u)"
    using trace.more [OF t(1), of SysTick "(pc, u)"] step.systick [OF t(3) u(1), of pc] level_from_IDR [OF t(4)]
    by (simp add: replicate_append_same)
  with Suc.prems(1) u(2) t(3,4) show ?case by (simp add: scanned_def)
qed

definition pressed :: fw where
  "pressed = power_on\<lparr>IDR := \<lambda>_. 0\<rparr>"

lemma pressed_start:
  obtains t where "main_init (\<lambda>_ _. 0) 0 0 0 pressed = Some t" "reachable [] (0, t)" "sys_ok t" "\<not> sys_reset t"
    "B_EMERGENCY_IN_STATE t = 1"
proof -
  have p: "power_up pressed" using power_up_power_on by (simp add: power_up_def pressed_def)
  obtain t where t: "main_init (\<lambda>_ _. 0) 0 0 0 pressed = Some t" "sys_ok t" "\<not> sys_reset t" "IDR t = IDR pressed"
    using main_init_ok [OF p, of "\<lambda>_ _. 0" 0 0 0] by (auto simp: returns_def)
  moreover have "reachable [] (0, t)" using reachable.intros [OF p t(1) trace.start] .
  moreover have "B_EMERGENCY_IN_STATE t = 1"
    using level_from_IDR [OF t(4)]
    by (simp add: B_EMERGENCY_IN_STATE_def input_bit_def GPIO_ReadInputDataBit_def pressed_def)
  ultimately show thesis by (intro that)
qed

section \<open>Properties of the firmware\<close>

text \<open>C1. In every state the firmware reaches from power-up, under any interleaving of the calls of the
  main loop with its interrupts, datagrams and changes of the inputs, as long as the peers keep the
  bounds of \<open>benign\<close> (a longer datagram breaks it, see Udp), the invariant holds: every array has its length, the queues are well
  formed, the parameters name at most ten belts, every queued or pending command is for an
  inverter from 1 to 10, and every queued CAN frame has at most eight bytes.\<close>

theorem invariant_always_holds:
  assumes "reachable vs (pc, s)"
  shows "sys_ok s \<and> pc \<le> 8"
  using reachable_filter [OF assms] by simp

theorem invariant_always_holds_witness:
  "\<exists>t. main_init (\<lambda>_ _. 0) 0 0 0 pressed = Some t \<and> sys_ok t"
proof -
  obtain t where t: "main_init (\<lambda>_ _. 0) 0 0 0 pressed = Some t" "reachable [] (0, t)" by (rule pressed_start)
  from invariant_always_holds [OF t(2)] t(1) show ?thesis by blast
qed

text \<open>C2. No undefined behaviour: in every reachable state in which the processor is not being
  reset, every call of the main loop and every interrupt handler is defined (no index outside an
  array, no copy behind its end, no endless loop), provided the peers keep within the bounds
  \<open>benign\<close> that the code does not check.\<close>

theorem no_undefined_behaviour:
  assumes "reachable vs (pc, s)" "\<not> sys_reset s" "benign e s"
  shows "\<exists>c'. step (pc, s) e c'"
proof -
  have "sys_ok s" using reachable_filter [OF assms(1)] by simp
  note h = handlers_ok [OF this]
  show ?thesis
  proof (cases e)
    case (Main_Call eth)
    then show ?thesis using h(1) [of eth pc] step.main [OF assms(2), of eth pc] by (auto simp: returns_def simp del: if_split)
  next
    case SysTick
    then show ?thesis using h(2) step.systick [OF assms(2)] by (auto simp: returns_def)
  next
    case (USART1 DR)
    then show ?thesis using h(3) [of DR] assms(3) step.usart [OF assms(2)] by (simp add: returns_def) blast
  next
    case (CAN1_RX0 r)
    then show ?thesis using h(4) [of r] assms(3) step.can [OF assms(2)] by (simp add: returns_def) blast
  next
    case (Udp_Recv port ip payload)
    then show ?thesis using h(5) [of port ip payload] assms(3) step.udp [OF assms(2)] by (simp add: returns_def) blast
  next
    case Env
    then show ?thesis
      using step.env [OF assms(2), of zero_frame "replicate 8 0" zero_status "replicate 4 0"]
      by (simp add: zero_frame_def zero_status_def) blast
  qed
qed

theorem no_undefined_behaviour_witness:
  "\<exists>t c'. main_init (\<lambda>_ _. 0) 0 0 0 pressed = Some t \<and> step (0, t) (Main_Call True) c'"
proof -
  obtain t where t: "main_init (\<lambda>_ _. 0) 0 0 0 pressed = Some t" "reachable [] (0, t)" "\<not> sys_reset t" by (rule pressed_start)
  from no_undefined_behaviour [OF t(2,3), of "Main_Call True"] t(1) show ?thesis by auto
qed

text \<open>C3. The emergency state the firmware acts on is, in every reachable state, the one its
  specification assigns to the levels seen by the millisecond interrupts, whatever else ran in
  between: 51 equal samples are always enough to take a level over.\<close>

theorem emergency_follows_input:
  assumes "reachable vs (pc, s)"
  shows "input_state (input_info (bEmergencyInfo s)) = accepted 50 0 (rev vs) \<and>
    (\<forall>us ws v. vs = us @ ws \<and> 50 < length ws \<and> list_all (\<lambda>w. w = v) ws \<longrightarrow>
       input_state (input_info (bEmergencyInfo s)) = v)"
  using reachable_accepted [OF assms] accepted_run [of 50] by auto

theorem emergency_follows_input_witness:
  "\<exists>t u. main_init (\<lambda>_ _. 0) 0 0 0 pressed = Some t \<and> trace (0, t) (replicate 51 1) (0, u) \<and> emergency_active u"
proof -
  obtain t where t: "main_init (\<lambda>_ _. 0) 0 0 0 pressed = Some t" "reachable [] (0, t)" "sys_ok t" "\<not> sys_reset t"
    "B_EMERGENCY_IN_STATE t = 1" by (rule pressed_start)
  from ticks [OF t(3,4), of 0 51] t(5) obtain u where u: "trace (0, t) (replicate 51 1) (0, u)" by metis
  have "list_all (\<lambda>w. w = 1) (replicate 51 (1 :: u8))" by (simp add: list_all_iff)
  with emergency_follows_input [OF reachable_trace [OF u t(2)]] have "emergency_active u" by fastforce
  with t(1) u show ?thesis by blast
qed

text \<open>C4. Once the emergency input has been active for 51 samples, and for as long as it stays
  active, nothing the firmware sends to the inverters sets a belt in motion, whatever start
  commands arrive: every frame on the line is a stop command, a status request or a fault
  reset. As in all runs of this theory, the peers keep the bounds of \<open>benign\<close> and the handlers
  run between the calls of the main loop; a tick that takes the emergency over inside
  \<open>comm_send_rw_comand\<close>, after its test of the emergency, is not covered.\<close>

theorem emergency_keeps_belts_stopped:
  assumes "reachable (us @ ones) c" "50 < length ones" "list_all (\<lambda>v. v = 1) ones"
    and "trace c ws c'" "list_all (\<lambda>v. v = 1) ws"
  shows "\<exists>frs. list_all harmless frs \<and> uart_tx (snd c') = uart_tx (snd c) @ map (Pair True) (concat frs)"
  using assms(4,1,5)
proof (induction rule: trace.induct)
  case (start c)
  show ?case by (rule exI [of _ "[]"]) simp
next
  case (more c ws c' e c'')
  then have ws: "list_all (\<lambda>v. v = 1) ws" by (simp split: if_splits)
  with more.IH more.prems(1) obtain frs where frs: "list_all harmless frs"
    "uart_tx (snd c') = uart_tx (snd c) @ map (Pair True) (concat frs)" by blast
  have r: "reachable (us @ ones @ ws) c'" using reachable_trace [OF more.hyps(1) more.prems(1)] by simp
  have "emergency_active (snd c')"
    unfolding reachable_accepted [OF r] by (rule accepted_run) (use assms(2,3) ws in simp_all)
  moreover have "step_keeps e (snd c') (snd c'')"
    using step_keeps [of "fst c'" "snd c'" e "fst c''" "snd c''"] more.hyps(2,3) reachable_filter [OF r] by simp
  ultimately obtain fr where fr: "uart_tx (snd c'') = uart_tx (snd c') @ map (Pair True) fr" "fr = [] \<or> harmless fr"
    by (auto simp: step_keeps_def)
  then show ?case
    using frs by (intro exI [of _ "if fr = [] then frs else frs @ [fr]"]) auto
qed

theorem emergency_keeps_belts_stopped_witness:
  "\<exists>t u v. main_init (\<lambda>_ _. 0) 0 0 0 pressed = Some t \<and> trace (0, t) (replicate 51 1) (0, u) \<and>
     trace (0, u) (replicate 1000 1) (0, v) \<and>
     (\<exists>frs. list_all harmless frs \<and> uart_tx v = uart_tx u @ map (Pair True) (concat frs))"
proof -
  obtain t where t: "main_init (\<lambda>_ _. 0) 0 0 0 pressed = Some t" "reachable [] (0, t)" "sys_ok t" "\<not> sys_reset t"
    "B_EMERGENCY_IN_STATE t = 1" by (rule pressed_start)
  from ticks [OF t(3,4), of 0 51] t(5) obtain u where u: "trace (0, t) (replicate 51 1) (0, u)" "sys_ok u"
    "\<not> sys_reset u" "B_EMERGENCY_IN_STATE u = 1" by (metis level_from_IDR)
  from ticks [OF u(2,3), of 0 1000] u(4) obtain v where v: "trace (0, u) (replicate 1000 1) (0, v)" by metis
  have "reachable ([] @ replicate 51 1) (0, u)" using reachable_trace [OF u(1) t(2)] by simp
  from emergency_keeps_belts_stopped [OF this _ _ v] t(1) u(1) v show ?thesis by (auto simp: list_all_iff)
qed

text \<open>C5. The millisecond interrupt that takes over a change of the emergency input, in either
  direction, throws away every queued command and leaves exactly one stop command per belt: no
  start that was queued before or during the emergency survives it.\<close>

theorem emergency_change_flushes_queue:
  assumes "reachable vs (pc, s)" "step (pc, s) SysTick (pc', t)"
    and "accepted 50 0 (rev (vs @ [B_EMERGENCY_IN_STATE s])) \<noteq> accepted 50 0 (rev vs)"
  shows "uart_nodes t = emergency_nodes (user_paras_local s)"
proof -
  have ok: "sys_ok s" using reachable_filter [OF assms(1)] by simp
  then have "step_keeps SysTick s t" using step_keeps [OF assms(2)] by simp
  then have e: "emergency_scanned (B_EMERGENCY_IN_STATE s) s t" by (simp add: step_keeps_def)
  have "trace (pc, s) [B_EMERGENCY_IN_STATE s] (pc', t)"
    using trace.more [OF trace.start _ assms(2)] by simp
  from reachable_accepted [OF reachable_trace [OF this assms(1)]] reachable_accepted [OF assms(1)] assms(3)
  have "input_state (input_info (bEmergencyInfo t)) \<noteq> input_state (input_info (bEmergencyInfo s))" by simp
  with e debounce_hit [of 50 "B_EMERGENCY_IN_STATE s" "input_info (bEmergencyInfo s)"] show ?thesis
    by (simp add: emergency_scanned_def split_beta)
qed

theorem emergency_change_flushes_queue_witness:
  "\<exists>t u v. main_init (\<lambda>_ _. 0) 0 0 0 pressed = Some t \<and> trace (0, t) (replicate 50 1) (0, u) \<and>
     step (0, u) SysTick (0, v) \<and> uart_nodes v = emergency_nodes (user_paras_local u)"
proof -
  obtain t where t: "main_init (\<lambda>_ _. 0) 0 0 0 pressed = Some t" "reachable [] (0, t)" "sys_ok t" "\<not> sys_reset t"
    "B_EMERGENCY_IN_STATE t = 1" by (rule pressed_start)
  from ticks [OF t(3,4), of 0 50] t(5) obtain u where u: "trace (0, t) (replicate 50 1) (0, u)" "sys_ok u"
    "\<not> sys_reset u" "B_EMERGENCY_IN_STATE u = 1" by (metis level_from_IDR)
  obtain v where v: "SysTick_Handler u = Some v" using handlers_ok(2) [OF u(2)] by (auto simp: returns_def)
  have s: "step (0, u) SysTick (0, v)" by (rule step.systick [OF u(3) v])
  have r: "reachable (replicate 50 1) (0, u)" using reachable_trace [OF u(1) t(2)] by simp
  have "accepted 50 0 (rev (replicate 50 1 @ [B_EMERGENCY_IN_STATE u])) \<noteq> accepted 50 0 (rev (replicate 50 (1 :: u8)))"
    using accepted_run [of 50 "replicate 50 1 @ [1 :: u8]" 1 0 "[]"] accepted_short [of "replicate 50 (1 :: u8)" 50 0] u(4)
    by (simp add: list_all_iff)
  from emergency_change_flushes_queue [OF r s this] t(1) u(1) s show ?thesis by blast
qed

end
