(* ===== verification/Preempt.thy ===== *)
theory Preempt
  imports Logic
begin

text \<open>
  Queue operations of the main loop that an interrupt comes into. The main loop and the
  interrupt handlers work on the same queues and never disable interrupts. Here
  \<open>GetUartSendDataFromQueue\<close> and \<open>AddUartSendData2Queue\<close> are split into their accesses to
  memory, with the values they hold in between as arguments of the program counter, and any
  handler may run before each of them. A handler itself runs to its end.

  Taking a command out is safe against handlers that add commands; adding one is not, and
  above all not against a stop.
\<close>

section \<open>Operations as steps\<close>

datatype take_pc = Take_Test | Take_Load | Take_Store u16 | Take_Pointer | Take_Copy u16
  | Take_Done "COMM_NODE_T option"

fun take_step :: "take_pc \<times> fw \<Rightarrow> take_pc \<times> fw" where
  "take_step (Take_Test, s) =
     (if front (uartSendQueue s) = rear (uartSendQueue s) then Take_Done None else Take_Load, s)"
| "take_step (Take_Load, s) =
     (Take_Store (of_nat ((unat (front (uartSendQueue s)) + 1) mod unat (maxSize (uartSendQueue s)))), s)"
| "take_step (Take_Store f, s) = (Take_Pointer, s\<lparr>uartSendQueue := (uartSendQueue s)\<lparr>front := f\<rparr>\<rparr>)"
| "take_step (Take_Pointer, s) = (Take_Copy (front (uartSendQueue s)), s)"
| "take_step (Take_Copy p, s) = (Take_Done (Some (queue (uartSendQueue s) ! unat p)), s)"
| "take_step (Take_Done r, s) = (Take_Done r, s)"

datatype add_pc = Add_Test | Add_Load | Add_Store u16 | Add_Index | Add_Write u16 | Add_Done

fun add_step :: "COMM_NODE_T \<Rightarrow> add_pc \<times> fw \<Rightarrow> add_pc \<times> fw" where
  "add_step x (Add_Test, s) =
     (if (unat (rear (uartSendQueue s)) + 1) mod unat (maxSize (uartSendQueue s)) = unat (front (uartSendQueue s))
      then Add_Done else Add_Load, s)"
| "add_step x (Add_Load, s) =
     (Add_Store (of_nat ((unat (rear (uartSendQueue s)) + 1) mod unat (maxSize (uartSendQueue s)))), s)"
| "add_step x (Add_Store r, s) = (Add_Index, s\<lparr>uartSendQueue := (uartSendQueue s)\<lparr>rear := r\<rparr>\<rparr>)"
| "add_step x (Add_Index, s) = (Add_Write (rear (uartSendQueue s)), s)"
| "add_step x (Add_Write i, s) =
     (Add_Done, s\<lparr>uartSendQueue := (uartSendQueue s)\<lparr>queue := (queue (uartSendQueue s))[unat i := x]\<rparr>\<rparr>)"
| "add_step x (Add_Done, s) = (Add_Done, s)"

text \<open>One step after each handler of the list.\<close>

fun preempted :: "('p \<times> fw \<Rightarrow> 'p \<times> fw) \<Rightarrow> (fw \<Rightarrow> fw option) list \<Rightarrow> 'p \<times> fw \<Rightarrow> ('p \<times> fw) option" where
  "preempted stp [] c = Some c"
| "preempted stp (isr # isrs) (pc, s) = do { t \<leftarrow> isr s; preempted stp isrs (stp (pc, t)) }"

text \<open>Without interrupts the five steps are the operation.\<close>

lemma take_uninterrupted:
  "preempted take_step [Some, Some, Some, Some, Some] (Take_Test, s) =
     Some (let (r, t) = GetUartSendDataFromQueue s in (Take_Done r, t))"
  by (simp add: GetUartSendDataFromQueue_def outQueue_def Let_def)

lemma add_uninterrupted:
  "preempted (add_step x) [Some, Some, Some, Some, Some] (Add_Test, s) = Some (Add_Done, AddUartSendData2Queue x s)"
  by (simp add: AddUartSendData2Queue_def enQueue_def Let_def)

section \<open>Taking a command while handlers add commands\<close>

text \<open>A handler that returns and, as far as the command queue is concerned, adds some commands.\<close>

definition adds_only :: "(fw \<Rightarrow> fw option) \<Rightarrow> bool" where
  "adds_only f \<longleftrightarrow> (\<forall>s. ring_inv 30 (uartSendQueue s) \<longrightarrow>
     (\<exists>t xs. f s = Some t \<and> uartSendQueue t = uartq.enq_all xs (uartSendQueue s)))"

lemma adds_onlyE:
  assumes "adds_only f" "ring_inv 30 (uartSendQueue s)"
  obtains t xs where "f s = Some t" "uartSendQueue t = uartq.enq_all xs (uartSendQueue s)"
  using assms unfolding adds_only_def by blast

lemma adds_only_Some: "adds_only Some"
  unfolding adds_only_def by (auto intro: exI [of _ "[]"])

lemma adds_only_Add: "adds_only (\<lambda>s. Some (AddUartSendData2Queue x s))"
  unfolding adds_only_def by (auto simp: AddUartSendData2Queue_def intro: exI [of _ "[x]"])

text \<open>Adding leaves the front alone, and the slot in front of the queue.\<close>

lemma enQueue_front:
  assumes "ring_inv 30 q"
  shows "front (enQueue q x) = front q \<and> maxSize (enQueue q x) = maxSize q \<and>
    queue (enQueue q x) ! unat (front q) = queue q ! unat (front q)"
proof (cases "Suc (unat (rear q)) mod 30 = unat (front q)")
  case False
  obtain R where "enQueue q x = q\<lparr>rear := R, queue := (queue q)[Suc (unat (rear q)) mod 30 := x]\<rparr>"
    using enQueue_room [OF assms _ False] by auto
  with False show ?thesis by simp
qed (simp add: enQueue_full [OF assms])

lemma enq_all_front:
  assumes "ring_inv 30 q"
  shows "front (uartq.enq_all xs q) = front q \<and> maxSize (uartq.enq_all xs q) = maxSize q \<and>
    queue (uartq.enq_all xs q) ! unat (front q) = queue q ! unat (front q)"
  using assms
proof (induction xs arbitrary: q)
  case (Cons x xs)
  from enQueue_front [OF Cons.prems, of x] Cons.IH [OF uartq.invar_enq [OF Cons.prems], of x] show ?case by simp
qed simp

lemma enq_all_append: "uartq.enq_all ys (uartq.enq_all xs q) = uartq.enq_all (xs @ ys) q"
  by (simp add: uartq.enq_all_def)


lemma uart_hd_enq_all:
  "ring_inv 30 q \<Longrightarrow> ring_list 30 q \<noteq> [] \<Longrightarrow> \<exists>xs'. ring_list 30 (uartq.enq_all xs q) = hd (ring_list 30 q) # xs'"
  by (cases "ring_list 30 q") (auto simp: uartq.contents_enq_all simp del: length_ring_list)

text \<open>C7. Taking a command out of the queue is atomic as seen by interrupts that add commands: whatever
  they add before each memory access of the main loop, the result is that of an undisturbed
  operation at one moment. An empty queue is reported, or its oldest command is returned, and no
  command that was added is lost or overwritten on the way.\<close>

theorem take_command_atomic:
  assumes "queues_inv s" "list_all adds_only [f1, f2, f3, f4, f5]"
  shows "\<exists>r t xs ys zs. preempted take_step [f1, f2, f3, f4, f5] (Take_Test, s) = Some (Take_Done r, t) \<and>
    (let q1 = uartq.enq_all xs (uartSendQueue s); q2 = uartq.enq_all ys q1
     in if ring_list 30 q1 = [] then r = None \<and> uartSendQueue t = q2
        else r = Some (hd (ring_list 30 q1)) \<and> r = fst (outQueue q2) \<and>
          uartSendQueue t = uartq.enq_all zs (snd (outQueue q2)))"
proof -
  let ?E = uartq.enq_all
  have q: "ring_inv 30 (uartSendQueue s)" using assms(1) by (rule queues_invD)
  from assms(2) have f: "adds_only f1" "adds_only f2" "adds_only f3" "adds_only f4" "adds_only f5" by simp_all
  obtain s1 xs where s1: "f1 s = Some s1" "uartSendQueue s1 = ?E xs (uartSendQueue s)" using f(1) q by (rule adds_onlyE)
  then have q1: "ring_inv 30 (uartSendQueue s1)" using q by (simp add: uartq.invar_enq_all)
  obtain s2 ys where s2: "f2 s1 = Some s2" "uartSendQueue s2 = ?E ys (uartSendQueue s1)" using f(2) q1 by (rule adds_onlyE)
  then have q2: "ring_inv 30 (uartSendQueue s2)" using q1 by (simp add: uartq.invar_enq_all)
  obtain s3 zs where s3: "f3 s2 = Some s3" "uartSendQueue s3 = ?E zs (uartSendQueue s2)" using f(3) q2 by (rule adds_onlyE)
  then have q3: "ring_inv 30 (uartSendQueue s3)" using q2 by (simp add: uartq.invar_enq_all)
  show ?thesis
  proof (cases "ring_list 30 (uartSendQueue s1) = []")
    case True
    obtain s4 us where s4: "f4 s3 = Some s4" "uartSendQueue s4 = ?E us (uartSendQueue s3)" using f(4) q3 by (rule adds_onlyE)
    then have q4: "ring_inv 30 (uartSendQueue s4)" using q3 by (simp add: uartq.invar_enq_all)
    obtain s5 vs where s5: "f5 s4 = Some s5" "uartSendQueue s5 = ?E vs (uartSendQueue s4)" using f(5) q4 by (rule adds_onlyE)
    show ?thesis
      using True ring_empty_iff [OF q1] s1 s2 s3 s4 s5
      by (intro exI [of _ None] exI [of _ s5] exI [of _ xs] exI [of _ "ys @ zs @ us @ vs"])
        (simp add: ring_list_Nil_iff enq_all_append)
  next
    case False
    let ?q3 = "uartSendQueue s3" and ?h = "hd (ring_list 30 (uartSendQueue s1))"
    let ?f = "of_nat ((unat (front ?q3) + 1) mod unat (maxSize ?q3)) :: u16"
    let ?s3 = "s3\<lparr>uartSendQueue := ?q3\<lparr>front := ?f\<rparr>\<rparr>"
    have e: "?q3 = ?E (ys @ zs) (uartSendQueue s1)" by (simp add: s2 s3 enq_all_append)
    then obtain hs where "ring_list 30 ?q3 = ?h # hs" using uart_hd_enq_all [OF q1 False, of "ys @ zs"] by auto
    then have h: "fst (outQueue ?q3) = Some ?h" using outQueue_cons [OF q3] by simp
    then have out: "outQueue ?q3 = (Some ?h, ?q3\<lparr>front := ?f\<rparr>)" "queue ?q3 ! unat ?f = ?h"
      by (auto simp: outQueue_def Let_def split: if_splits)
    then have q3': "ring_inv 30 (uartSendQueue ?s3)" using outQueue_inv [OF q3] by simp
    obtain s4 us where s4: "f4 ?s3 = Some s4" "uartSendQueue s4 = ?E us (uartSendQueue ?s3)"
      using f(4) q3' by (rule adds_onlyE)
    then have q4: "ring_inv 30 (uartSendQueue s4)" using q3' by (simp add: uartq.invar_enq_all)
    obtain s5 vs where s5: "f5 s4 = Some s5" "uartSendQueue s5 = ?E vs (uartSendQueue s4)" using f(5) q4 by (rule adds_onlyE)
    have front: "front (uartSendQueue s2) = front ?q3" "maxSize (uartSendQueue s2) = maxSize ?q3"
      "front (uartSendQueue s4) = ?f" "queue (uartSendQueue s5) ! unat ?f = ?h"
      using enq_all_front [OF q2, of zs] enq_all_front [OF q3', of us] enq_all_front [OF q4, of vs] out(2)
      by (simp_all add: s3 s4 s5)
    have "preempted take_step [f1, f2, f3, f4, f5] (Take_Test, s) = Some (Take_Done (Some ?h), s5)"
      using False ring_empty_iff [OF q1] s1 s2 s3 s4 s5 front by (simp add: ring_list_Nil_iff)
    then show ?thesis
      using False out s1 e s4 s5
      by (intro exI [of _ "Some ?h"] exI [of _ s5] exI [of _ xs] exI [of _ "ys @ zs"] exI [of _ "us @ vs"])
        (simp add: enq_all_append del: ring_list_Nil_iff)
  qed
qed


theorem take_command_atomic_witness:
  "\<exists>t. preempted take_step [Some, \<lambda>s. Some (AddUartSendData2Queue (write_node 1 2 0) s), Some,
       \<lambda>s. Some (AddUartSendData2Queue (write_node 2 2 0) s), Some] (Take_Test, AddUartSendData2Queue (write_node 3 2 0) demo) =
     Some (Take_Done (Some (write_node 3 2 0)), t)"
proof -
  let ?s = "AddUartSendData2Queue (write_node 3 2 0) demo"
  have q: "queues_inv ?s" by simp
  have "uart_nodes ?s = [write_node 3 2 0]" using uart_nodes_Add [OF demo_ok(2)] by simp
  then have "ring_list 30 (uartq.enq_all xs (uartSendQueue ?s)) \<noteq> [] \<and>
      hd (ring_list 30 (uartq.enq_all xs (uartSendQueue ?s))) = write_node 3 2 0" for xs
    using uart_hd_enq_all [of "uartSendQueue ?s" xs] queues_invD(1) [OF q] by (metis list.sel(1) list.simps(3))
  moreover have "list_all adds_only [Some, \<lambda>s. Some (AddUartSendData2Queue (write_node 1 2 0) s), Some,
      \<lambda>s. Some (AddUartSendData2Queue (write_node 2 2 0) s), Some]" by (simp add: adds_only_Some adds_only_Add)
  from take_command_atomic [OF q this] obtain r t xs where
    "preempted take_step [Some, \<lambda>s. Some (AddUartSendData2Queue (write_node 1 2 0) s), Some,
       \<lambda>s. Some (AddUartSendData2Queue (write_node 2 2 0) s), Some] (Take_Test, ?s) = Some (Take_Done r, t)"
    "ring_list 30 (uartq.enq_all xs (uartSendQueue ?s)) \<noteq> [] \<longrightarrow>
       r = Some (hd (ring_list 30 (uartq.enq_all xs (uartSendQueue ?s))))"
    unfolding Let_def by (metis (lifting))
  ultimately show ?thesis by auto
qed

section \<open>Adding a command while a handler flushes the queue\<close>

text \<open>A command that a handler adds between the read and the write of the end is lost: the result is
  the same as if it had never been added.\<close>

lemma command_lost_by_preemption:
  assumes "queues_inv s" "length (uart_nodes s) < 29"
  shows "preempted (add_step x) [Some, Some, \<lambda>s. Some (AddUartSendData2Queue y s), Some, Some] (Add_Test, s) =
    Some (Add_Done, AddUartSendData2Queue x s)"
proof -
  have inv: "ring_inv 30 (uartSendQueue s)" using assms(1) by (rule queues_invD)
  then have "(unat (rear (uartSendQueue s)) + 1) mod 30 \<noteq> unat (front (uartSendQueue s))" "unat (maxSize (uartSendQueue s)) = 30"
    using ring_full_iff [OF inv] assms(2) by (simp_all add: ring_inv_def)
  then show ?thesis by (simp add: AddUartSendData2Queue_def enQueue_def Let_def)
qed

text \<open>Adding to a queue whose elements start at slot 1, up to the end of the array.\<close>

lemma enq_all_unwrapped:
  assumes "front q = 0" "unat (rear q) = k" "unat (maxSize q) = 30" "length (queue q) = 30" "k + length xs \<le> 29"
  shows "uartq.enq_all xs q = q\<lparr>rear := of_nat (k + length xs),
    queue := take (Suc k) (queue q) @ xs @ drop (Suc k + length xs) (queue q)\<rparr>"
  using assms
proof (induction xs arbitrary: q k)
  case Nil
  then have "rear q = of_nat k" by (simp add: word_unat_eq_iff unat_of_nat_small)
  with Nil show ?case by simp
next
  case (Cons x xs)
  have e: "enQueue q x = q\<lparr>rear := of_nat (Suc k), queue := (queue q)[Suc k := x]\<rparr>"
    using Cons.prems unat_of_nat_small [of "Suc k", unfolded of_nat_Suc] by (simp add: enQueue_def Let_def)
  have "uartq.enq_all xs (enQueue q x) = (enQueue q x)\<lparr>rear := of_nat (Suc k + length xs),
    queue := take (Suc (Suc k)) (queue (enQueue q x)) @ xs @ drop (Suc (Suc k) + length xs) (queue (enQueue q x))\<rparr>"
    by (rule Cons.IH) (use Cons.prems unat_of_nat_small [of "Suc k", unfolded of_nat_Suc] in \<open>simp_all add: e\<close>)
  with Cons.prems show ?case by (simp add: e upd_conv_take_nth_drop add.commute [of k "length xs"])
qed


lemma ring_list_unwrapped:
  assumes "front q = 0" "unat (rear q) = c" "length (queue q) = 30" "c < 30"
  shows "ring_list 30 q = take c (drop 1 (queue q))"
  using assms by (intro nth_equalityI) (simp_all add: ring_list_def ring_count_def)

lemma Speed_Ctrl_flush:
  assumes "belts_ok s" "g = 0 \<or> g = EMERGENCY_STOP"
  shows "\<exists>t. Speed_Ctrl_Process g s = Some t \<and> uartSendQueue t =
    uartq.enq_all (if g = 0 then stop_nodes (user_paras_local s) else emergency_nodes (user_paras_local s))
      (initQueue (queue (uartSendQueue s)) 30 (uartSendQueue s))"
  using assms(2) by (auto simp: Speed_Ctrl_Process_eq [OF assms(1)] B_RUN_STA_OUT_def GPIO_WriteBit_def
      AddUartNodes_def InitUartSendQueue_def)

text \<open>C6. A stop can be undone by the command the main loop was adding when the stop came. If the stop
  input is accepted after \<open>AddUartSendData2Queue\<close> has read the end of the queue and before it writes the
  new end back, the queue holds the stop commands, then commands that the stop had thrown away, and
  last the command being added, which may start a belt.\<close>

theorem stop_undone_by_preemption:
  assumes "belts_ok s" "queues_inv s" "g = 0 \<or> g = EMERGENCY_STOP" "length (uart_nodes s) < 29"
    and "belts s \<le> unat (rear (uartSendQueue s))" "unat (rear (uartSendQueue s)) < 29"
  shows "\<exists>t. preempted (add_step x) [Some, Some, Speed_Ctrl_Process g, Some, Some] (Add_Test, s) = Some (Add_Done, t) \<and>
    uart_nodes t = (if g = 0 then stop_nodes (user_paras_local s) else emergency_nodes (user_paras_local s)) @
      drop (Suc (belts s)) (take (Suc (unat (rear (uartSendQueue s)))) (queue (uartSendQueue s))) @ [x]"
proof -
  let ?q = "uartSendQueue s" and ?n = "belts s" and ?r = "unat (rear (uartSendQueue s))"
  let ?stops = "if g = 0 then stop_nodes (user_paras_local s) else emergency_nodes (user_paras_local s)"
  have inv: "ring_inv 30 ?q" using assms(2) by (rule queues_invD)
  then have m: "unat (maxSize ?q) = 30" "length (queue ?q) = 30" by (simp_all add: ring_inv_def)
  have len: "length ?stops = ?n" by (simp add: stop_nodes_def emergency_nodes_def)
  obtain t where t: "Speed_Ctrl_Process g s = Some t"
    "uartSendQueue t = uartq.enq_all ?stops (initQueue (queue ?q) 30 ?q)" using Speed_Ctrl_flush [OF assms(1,3)] by blast
  let ?i = "initQueue (queue ?q) 30 ?q"
  have i: "front ?i = 0" "unat (rear ?i) = 0" "unat (maxSize ?i) = 30" "length (queue ?i) = 30" "0 + length ?stops \<le> 29"
    using m(2) assms(5,6) len by (simp_all add: initQueue_def)
  have u: "uartSendQueue t = ?i\<lparr>rear := of_nat ?n, queue := take 1 (queue ?q) @ ?stops @ drop (Suc ?n) (queue ?q)\<rparr>"
    unfolding t(2) enq_all_unwrapped [OF i] using len by (simp add: initQueue_def)
  have "\<not> (unat (rear ?q) + 1) mod 30 = unat (front ?q)"
    using ring_full_iff [OF inv] assms(4) by simp
  then have "preempted (add_step x) [Some, Some, Speed_Ctrl_Process g, Some, Some] (Add_Test, s) =
    Some (Add_Done, t\<lparr>uartSendQueue := (uartSendQueue t)\<lparr>rear := of_nat (Suc ?r),
      queue := (queue (uartSendQueue t))[Suc ?r := x]\<rparr>\<rparr>)"
    using t(1) m assms(6) unat_of_nat_small [of "Suc ?r"] by simp
  moreover have "ring_list 30 ((uartSendQueue t)\<lparr>rear := of_nat (Suc ?r), queue := (queue (uartSendQueue t))[Suc ?r := x]\<rparr>) =
    ?stops @ drop (Suc ?n) (take (Suc ?r) (queue ?q)) @ [x]"
  proof -
    let ?l = "?stops @ drop (Suc ?n) (queue ?q)"
    have l: "length ?l = 29" using len m(2) assms(5,6) by simp
    have "drop 1 ((take 1 (queue ?q) @ ?l)[Suc ?r := x]) = ?l[?r := x]" using m(2) by (simp add: list_update_append)
    moreover have "take (Suc ?r) (?l[?r := x]) = take ?r ?l @ [x]"
      using l assms(6) by (simp add: take_Suc_conv_app_nth del: length_append)
    ultimately show ?thesis
      using len assms(5,6) m(2) unat_of_nat_small [of "Suc ?r"]
      by (subst ring_list_unwrapped) (simp_all add: u drop_take initQueue_def)
  qed
  ultimately show ?thesis by auto
qed


theorem stop_undone_by_preemption_witness:
  "\<exists>t. preempted (add_step (write_node 1 2 100)) [Some, Some, Speed_Ctrl_Process 0, Some, Some]
       (Add_Test, AddUartNodes (start_nodes 2 demo_paras) demo) = Some (Add_Done, t) \<and>
     uart_nodes t = stop_nodes demo_paras @ [write_node 1 2 100] \<and> speed_gear (last (uart_nodes t)) = 2"
proof -
  let ?s = "AddUartNodes (start_nodes 2 demo_paras) demo"
  have q: "queues_inv ?s" "uart_nodes ?s = start_nodes 2 demo_paras"
    by (simp_all add: uart_nodes_AddUartNodes) (simp add: start_nodes_def demo_paras_def)
  have b: "belts_ok ?s" "user_paras_local ?s = demo_paras" "unat (Belt_Number demo_paras) = 3"
    using demo_ok(1,3) by (simp_all add: belts_ok_def AddUartNodes_def demo_paras_def)
  have d: "front (uartSendQueue demo) = 0" "unat (rear (uartSendQueue demo)) = 0" "unat (maxSize (uartSendQueue demo)) = 30"
    "length (queue (uartSendQueue demo)) = 30" "0 + length (start_nodes 2 demo_paras) \<le> 29"
    by (simp_all add: demo_def queues_ready_def power_on_def InitModuleStatusQueue_def InitSendMsgQueue_def
        InitCanSendQueue_def InitUartSendQueue_def initQueue_def fresh_ring_def start_nodes_def demo_paras_def)
  have r: "unat (rear (uartSendQueue ?s)) = 3"
    by (simp add: AddUartNodes_def enq_all_unwrapped [OF d]) (simp add: start_nodes_def demo_paras_def)
  have l: "length (uart_nodes ?s) < 29" by (simp only: q(2)) (simp add: start_nodes_def demo_paras_def)
  obtain t where "preempted (add_step (write_node 1 2 100)) [Some, Some, Speed_Ctrl_Process 0, Some, Some] (Add_Test, ?s) =
      Some (Add_Done, t)" "uart_nodes t = stop_nodes demo_paras @ [write_node 1 2 100]"
    using stop_undone_by_preemption [OF b(1) q(1) disjI1 [OF refl] l, of "write_node 1 2 100"] unfolding b(2,3) r
    by (auto simp del: preempted.simps)
  then show ?thesis by (intro exI [of _ t]) (simp add: write_node_def)
qed

end
