(* ===== verification/Clock.thy ===== *)
theory Clock
  imports Drivers
begin

text \<open>
  The board's registers that start-up configures (\<open>System_Setup\<close> of stm32f107.c), and the clock
  tree: \<open>SystemInit\<close> and \<open>SetSysClockTo72\<close> (system_stm32f10x.c), \<open>RCC_GetClocksFreq\<close>
  and the clock gates (stm32f10x_rcc.c). The build defines \<open>STM32F10X_CL\<close> and
  \<open>SYSCLK_FREQ_72MHz\<close>; the external oscillator has 25 MHz.

  The start-up code works on registers the rest of the firmware never touches again, so they are
  a record of their own. What the hardware reports is outside the program's control: the ready
  flags of the oscillators and the clock switch status are given by \<open>hw_CR\<close> and \<open>hw_SWS\<close>,
  the CAN controller's acknowledge by \<open>hw_MSR\<close>, each as a function of the number of the read.
  A wait without time-out is a partial function: \<open>None\<close> means that it never ends.
\<close>

section \<open>Registers\<close>

record board =
  RCC_CR :: u32
  RCC_CFGR :: u32
  RCC_CFGR2 :: u32
  RCC_CIR :: u32
  RCC_AHBENR :: u32
  RCC_APB1ENR :: u32
  RCC_APB2ENR :: u32
  RCC_APB1RSTR :: u32
  FLASH_ACR :: u32
  hw_CR :: "nat \<Rightarrow> u32"
  hw_SWS :: "nat \<Rightarrow> u32"
  rcc_reads :: nat
  RCC_SWS :: u32
  SCB_AIRCR :: u32
  SCB_VTOR :: u32
  SCB_SHP :: "u8 list"
  NVIC_IP :: "u8 list"
  NVIC_ISER :: "u32 list"
  SysTick_LOAD :: u32
  SysTick_VAL :: u32
  SysTick_CTRL :: u32
  GPIO_CRL :: "gpio_port \<Rightarrow> u32"
  GPIO_CRH :: "gpio_port \<Rightarrow> u32"
  GPIO_ODR :: "gpio_port \<Rightarrow> u16"
  AFIO_MAPR :: u32
  PWR_DBP :: bool
  USART_CR1 :: u16
  USART_CR2 :: u16
  USART_CR3 :: u16
  USART_BRR :: u16
  CAN_MCR :: u32
  hw_MSR :: "nat \<Rightarrow> u32"
  msr_reads :: nat
  CAN_BTR :: u32
  CAN_IER :: u32
  CAN_FMR :: u32
  CAN_FA1R :: u32
  CAN_FS1R :: u32
  CAN_FM1R :: u32
  CAN_FFA1R :: u32
  CAN_FR1 :: "u32 list"
  CAN_FR2 :: "u32 list"
  TIM1_CR1 :: u16
  TIM1_ARR :: u16
  TIM1_PSC :: u16
  TIM1_RCR :: u16
  TIM1_EGR :: u16
  TIM1_SMCR :: u16
  TIM1_CCMR1 :: u16
  TIM1_CCMR2 :: u16
  TIM1_CCER :: u16
  TIM1_CNT :: u16

section \<open>Waiting\<close>

text \<open>\<open>while (!p);\<close> from read number \<open>n\<close> on; the result is the number of the next read.\<close>

partial_function (option) wait_for :: "(nat \<Rightarrow> bool) \<Rightarrow> nat \<Rightarrow> nat option" where
  "wait_for p n = (if p n then Some (Suc n) else wait_for p (Suc n))"

text \<open>A wait with a time-out of \<open>k\<close> reads.\<close>

primrec wait_at_most :: "nat \<Rightarrow> (nat \<Rightarrow> bool) \<Rightarrow> nat \<Rightarrow> nat" where
  "wait_at_most 0 p n = n"
| "wait_at_most (Suc k) p n = (if p n then Suc n else wait_at_most k p (Suc n))"

lemma wait_for_ends:
  assumes "p m" "n \<le> m"
  shows "\<exists>k. wait_for p n = Some k \<and> n < k \<and> p (k - 1)"
  using assms(2)
proof (induction "m - n" arbitrary: n)
  case 0
  then have "p n" using assms(1) by simp
  then show ?case by (subst wait_for.simps) simp
next
  case (Suc d)
  show ?case
  proof (cases "p n")
    case True
    then show ?thesis by (subst wait_for.simps) simp
  next
    case False
    have "d = m - Suc n" "Suc n \<le> m" using Suc.hyps(2) by auto
    with Suc.hyps(1) obtain k where "wait_for p (Suc n) = Some k" "Suc n < k" "p (k - 1)" by blast
    with False show ?thesis by (subst wait_for.simps) auto
  qed
qed

lemma wait_for_Some: "wait_for p n = Some k \<Longrightarrow> n < k \<and> p (k - 1)"
  by (rule wait_for.raw_induct [where P = "\<lambda>p n k. n < k \<and> p (k - 1)"]) (auto split: if_splits dest: Suc_lessD)

lemma wait_for_never: "(\<And>m. n \<le> m \<Longrightarrow> \<not> p m) \<Longrightarrow> wait_for p n = None"
proof (rule ccontr)
  assume "\<And>m. n \<le> m \<Longrightarrow> \<not> p m" "wait_for p n \<noteq> None"
  then show False using wait_for_Some [of p n] by fastforce
qed

lemma wait_at_most_ready:
  assumes "\<And>m. p m \<Longrightarrow> p (Suc m)" "p (n + j)" "j < k"
  shows "p (wait_at_most k p n)"
  using assms(2,3)
proof (induction k arbitrary: n j)
  case (Suc k)
  show ?case
  proof (cases "p n")
    case True
    with assms(1) show ?thesis by simp
  next
    case False
    with Suc.prems obtain i where "j = Suc i" by (cases j) auto
    with Suc.prems Suc.IH [of "Suc n" i] False show ?thesis by simp
  qed
qed simp

lemma wait_at_most_never: "(\<And>m. \<not> p m) \<Longrightarrow> wait_at_most k p n = n + k"
  by (induction k arbitrary: n) simp_all

section \<open>The clock tree\<close>

definition SetSysClockTo72 :: "board \<Rightarrow> board option" where
  "SetSysClockTo72 b = do {
     let b = b\<lparr>RCC_CR := RCC_CR b OR 0x00010000\<rparr>;
     let n = wait_at_most 0x500 (\<lambda>n. hw_CR b n AND 0x00020000 \<noteq> 0) (rcc_reads b);
     if hw_CR b n AND 0x00020000 \<noteq> 0 then do {
       let b = b\<lparr>rcc_reads := Suc n, FLASH_ACR := FLASH_ACR b OR 0x10\<rparr>;
       let b = b\<lparr>FLASH_ACR := FLASH_ACR b AND NOT 0x03\<rparr>;
       let b = b\<lparr>FLASH_ACR := FLASH_ACR b OR 0x02\<rparr>;
       let b = b\<lparr>RCC_CFGR := RCC_CFGR b OR 0x0\<rparr>;
       let b = b\<lparr>RCC_CFGR := RCC_CFGR b OR 0x0\<rparr>;
       let b = b\<lparr>RCC_CFGR := RCC_CFGR b OR 0x00000400\<rparr>;
       let b = b\<lparr>RCC_CFGR2 := RCC_CFGR2 b AND NOT (0xF0 OR 0xF00 OR 0xF OR 0x00010000)\<rparr>;
       let b = b\<lparr>RCC_CFGR2 := RCC_CFGR2 b OR (0x40 OR 0x600 OR 0x00010000 OR 0x4)\<rparr>;
       let b = b\<lparr>RCC_CR := RCC_CR b OR 0x04000000\<rparr>;
       n \<leftarrow> wait_for (\<lambda>n. hw_CR b n AND 0x08000000 \<noteq> 0) (rcc_reads b);
       let b = b\<lparr>rcc_reads := n, RCC_CFGR := RCC_CFGR b AND NOT (0x00020000 OR 0x00010000 OR 0x003C0000)\<rparr>;
       let b = b\<lparr>RCC_CFGR := RCC_CFGR b OR (0x0 OR 0x00010000 OR 0x001C0000)\<rparr>;
       let b = b\<lparr>RCC_CR := RCC_CR b OR 0x01000000\<rparr>;
       n \<leftarrow> wait_for (\<lambda>n. hw_CR b n AND 0x02000000 \<noteq> 0) (rcc_reads b);
       let b = b\<lparr>rcc_reads := n, RCC_CFGR := RCC_CFGR b AND NOT 0x3\<rparr>;
       let b = b\<lparr>RCC_CFGR := RCC_CFGR b OR 0x2\<rparr>;
       n \<leftarrow> wait_for (\<lambda>n. hw_SWS b n AND 0xC = 0x8) (rcc_reads b);
       Some (b\<lparr>rcc_reads := n, RCC_SWS := hw_SWS b (n - 1) AND 0xC\<rparr>)
     } else None
   }"

definition SystemInit :: "board \<Rightarrow> board option" where
  "SystemInit b = do {
     let b = b\<lparr>RCC_CR := RCC_CR b OR 0x1\<rparr>;
     let b = b\<lparr>RCC_CFGR := RCC_CFGR b AND 0xF0FF0000\<rparr>;
     let b = b\<lparr>RCC_CR := RCC_CR b AND 0xFEF6FFFF\<rparr>;
     let b = b\<lparr>RCC_CR := RCC_CR b AND 0xFFFBFFFF\<rparr>;
     let b = b\<lparr>RCC_CFGR := RCC_CFGR b AND 0xFF80FFFF\<rparr>;
     let b = b\<lparr>RCC_CR := RCC_CR b AND 0xEBFFFFFF\<rparr>;
     let b = b\<lparr>RCC_CIR := 0x00FF0000\<rparr>;
     let b = b\<lparr>RCC_CFGR2 := 0\<rparr>;
     SetSysClockTo72 b
   }"

record RCC_ClocksTypeDef =
  SYSCLK_Frequency :: u32
  HCLK_Frequency :: u32
  PCLK1_Frequency :: u32
  PCLK2_Frequency :: u32
  ADCCLK_Frequency :: u32

definition APBAHBPrescTable :: "u8 list" where
  "APBAHBPrescTable = [0, 0, 0, 0, 1, 2, 3, 4, 1, 2, 3, 4, 6, 7, 8, 9]"

definition ADCPrescTable :: "u8 list" where
  "ADCPrescTable = [2, 4, 6, 8]"

abbreviation (input) "HSI_Value \<equiv> 8000000 :: u32"
abbreviation (input) "HSE_Value \<equiv> 25000000 :: u32"

text \<open>The configuration register as it is read: the switch status in bits 2 and 3.\<close>

definition read_CFGR :: "board \<Rightarrow> u32" where
  "read_CFGR b = (RCC_CFGR b AND NOT 0xC) OR RCC_SWS b"

definition sysclk_frequency :: "u32 \<Rightarrow> u32 \<Rightarrow> u32" where
  "sysclk_frequency cfgr cfgr2 =
     (let tmp = cfgr AND 0xC in
      if tmp = 0x00 then HSI_Value
      else if tmp = 0x04 then HSE_Value
      else if tmp = 0x08 then
        let pllmull = drop_bit 18 (cfgr AND 0x003C0000);
            pllsource = cfgr AND 0x00010000;
            pllmull = (if pllmull \<noteq> 0x0D then pllmull + 2 else 13 div 2)
        in if pllsource = 0 then drop_bit 1 HSI_Value * pllmull
           else
             let prediv1source = cfgr2 AND 0x00010000;
                 prediv1factor = (cfgr2 AND 0xF) + 1
             in if prediv1source = 0 then (HSE_Value div prediv1factor) * pllmull
                else
                  let prediv2factor = drop_bit 4 (cfgr2 AND 0xF0) + 1;
                      pll2mull = drop_bit 8 (cfgr2 AND 0xF00) + 2
                  in (((HSE_Value div prediv2factor) * pll2mull) div prediv1factor) * pllmull
      else HSI_Value)"

definition RCC_GetClocksFreq :: "board \<Rightarrow> RCC_ClocksTypeDef option" where
  "RCC_GetClocksFreq b = do {
     let cfgr = read_CFGR b;
     let sys = sysclk_frequency cfgr (RCC_CFGR2 b);
     presc \<leftarrow> idx APBAHBPrescTable (unat (drop_bit 4 (cfgr AND 0xF0)));
     let hclk = drop_bit (unat presc) sys;
     presc \<leftarrow> idx APBAHBPrescTable (unat (drop_bit 8 (cfgr AND 0x700)));
     let pclk1 = drop_bit (unat presc) hclk;
     presc \<leftarrow> idx APBAHBPrescTable (unat (drop_bit 11 (cfgr AND 0x3800)));
     let pclk2 = drop_bit (unat presc) hclk;
     presc \<leftarrow> idx ADCPrescTable (unat (drop_bit 14 (cfgr AND 0xC000)));
     Some \<lparr>SYSCLK_Frequency = sys, HCLK_Frequency = hclk, PCLK1_Frequency = pclk1,
       PCLK2_Frequency = pclk2, ADCCLK_Frequency = pclk2 div ucast presc\<rparr>
   }"

definition RCC_AHBPeriphClockCmd :: "u32 \<Rightarrow> bool \<Rightarrow> board \<Rightarrow> board" where
  "RCC_AHBPeriphClockCmd periph en b =
     b\<lparr>RCC_AHBENR := (if en then RCC_AHBENR b OR periph else RCC_AHBENR b AND NOT periph)\<rparr>"

definition RCC_APB2PeriphClockCmd :: "u32 \<Rightarrow> bool \<Rightarrow> board \<Rightarrow> board" where
  "RCC_APB2PeriphClockCmd periph en b =
     b\<lparr>RCC_APB2ENR := (if en then RCC_APB2ENR b OR periph else RCC_APB2ENR b AND NOT periph)\<rparr>"

definition RCC_APB1PeriphClockCmd :: "u32 \<Rightarrow> bool \<Rightarrow> board \<Rightarrow> board" where
  "RCC_APB1PeriphClockCmd periph en b =
     b\<lparr>RCC_APB1ENR := (if en then RCC_APB1ENR b OR periph else RCC_APB1ENR b AND NOT periph)\<rparr>"

definition RCC_APB1PeriphResetCmd :: "u32 \<Rightarrow> bool \<Rightarrow> board \<Rightarrow> board" where
  "RCC_APB1PeriphResetCmd periph en b =
     b\<lparr>RCC_APB1RSTR := (if en then RCC_APB1RSTR b OR periph else RCC_APB1RSTR b AND NOT periph)\<rparr>"

section \<open>The clocks after start-up\<close>

text \<open>The hardware's part: the external oscillator reports ready within the time-out and stays
  so, the two PLLs lock, and the clock switch reports the PLL, each at some time.\<close>

definition oscillators_start :: "board \<Rightarrow> bool" where
  "oscillators_start b \<longleftrightarrow>
     (\<exists>j < 0x500. hw_CR b (rcc_reads b + j) AND 0x00020000 \<noteq> 0) \<and>
     (\<forall>m. hw_CR b m AND 0x00020000 \<noteq> 0 \<longrightarrow> hw_CR b (Suc m) AND 0x00020000 \<noteq> 0) \<and>
     (\<forall>n. \<exists>m \<ge> n. hw_CR b m AND 0x08000000 \<noteq> 0) \<and> (\<forall>n. \<exists>m \<ge> n. hw_CR b m AND 0x02000000 \<noteq> 0) \<and>
     (\<forall>n. \<exists>m \<ge> n. hw_SWS b m AND 0xC = 0x8)"

text \<open>The same board but for the clock registers.\<close>

definition same_but_clocks :: "board \<Rightarrow> board \<Rightarrow> bool" where
  "same_but_clocks b t \<longleftrightarrow>
     t\<lparr>RCC_CR := RCC_CR b, RCC_CFGR := RCC_CFGR b, RCC_CFGR2 := RCC_CFGR2 b, RCC_CIR := RCC_CIR b,
       FLASH_ACR := FLASH_ACR b, rcc_reads := rcc_reads b, RCC_SWS := RCC_SWS b\<rparr> = b"

lemma cfgr_bits:
  "((((x AND 0xF0FF0000) AND 0xFF80FFFF OR 0x400) AND NOT 0x003F0000 OR 0x001D0000) AND NOT 3) OR 2 =
     (x AND 0xF0800000) OR (0x001D0402 :: u32)"
  by (simp add: bit.conj_disj_distrib2 and.assoc or.assoc)

lemma SystemInit_clocks:
  assumes "oscillators_start b"
  shows "\<exists>t. SystemInit b = Some t \<and> same_but_clocks b t \<and> RCC_CFGR t = RCC_CFGR b AND 0xF0800000 OR 0x001D0402 \<and>
    RCC_CFGR2 t = 0x00010644 \<and> RCC_SWS t = 0x8"
proof -
  let ?p = "\<lambda>n. hw_CR b n AND 0x00020000 \<noteq> 0"
  let ?n = "wait_at_most 0x500 ?p (rcc_reads b)"
  have hse: "?p ?n"
    using assms wait_at_most_ready [of ?p "rcc_reads b"] unfolding oscillators_start_def by blast
  have w: "\<exists>k. wait_for (\<lambda>n. hw_CR b n AND 0x08000000 \<noteq> 0) n = Some k"
    "\<exists>k. wait_for (\<lambda>n. hw_CR b n AND 0x02000000 \<noteq> 0) n = Some k"
    "\<exists>k. wait_for (\<lambda>n. hw_SWS b n AND 0xC = 0x8) n = Some k \<and> hw_SWS b (k - 1) AND 0xC = 0x8" for n
    using assms wait_for_ends unfolding oscillators_start_def by meson+
  obtain k1 where k1: "wait_for (\<lambda>n. hw_CR b n AND 0x08000000 \<noteq> 0) (Suc ?n) = Some k1" using w(1) by blast
  obtain k2 where k2: "wait_for (\<lambda>n. hw_CR b n AND 0x02000000 \<noteq> 0) k1 = Some k2" using w(2) by blast
  obtain k3 where k3: "wait_for (\<lambda>n. hw_SWS b n AND 0xC = 0x8) k2 = Some k3" "hw_SWS b (k3 - 1) AND 0xC = 0x8"
    using w(3) by blast
  show ?thesis
    using hse k1 k2 k3 cfgr_bits [of "RCC_CFGR b"]
    by (simp add: SystemInit_def SetSysClockTo72_def Let_def same_but_clocks_def)
qed

lemma clocks_72:
  assumes "RCC_CFGR t = x AND 0xF0800000 OR 0x001D0402" "RCC_CFGR2 t = 0x00010644" "RCC_SWS t = 0x8"
  shows "\<exists>c. RCC_GetClocksFreq t = Some c \<and> SYSCLK_Frequency c = 72000000 \<and> HCLK_Frequency c = 72000000 \<and>
    PCLK1_Frequency c = 36000000 \<and> PCLK2_Frequency c = 72000000"
proof -
  have m: "read_CFGR t AND 0xC = 8" "read_CFGR t AND 0x003C0000 = 0x001C0000" "read_CFGR t AND 0x00010000 = 0x00010000"
    "read_CFGR t AND 0xF0 = 0" "read_CFGR t AND 0x700 = 0x400" "read_CFGR t AND 0x3800 = 0" "read_CFGR t AND 0xC000 = 0"
    using assms by (simp_all add: read_CFGR_def bit.conj_disj_distrib2 and.assoc)
  show ?thesis
    unfolding RCC_GetClocksFreq_def sysclk_frequency_def Let_def m assms(2)
    by (simp add: idx_def APBAHBPrescTable_def ADCPrescTable_def)
qed

text \<open>C40. When the external oscillator starts within its time-out and the PLLs lock, start-up ends
  with the processor at 72 MHz, APB1 at 36 MHz and APB2 at 72 MHz, whatever the clock registers
  held before; when the oscillator never starts, start-up never ends.\<close>

theorem SystemInit_72MHz:
  "(oscillators_start b \<longrightarrow> (\<exists>t c. SystemInit b = Some t \<and> RCC_GetClocksFreq t = Some c \<and>
      SYSCLK_Frequency c = 72000000 \<and> HCLK_Frequency c = 72000000 \<and> PCLK1_Frequency c = 36000000 \<and>
      PCLK2_Frequency c = 72000000)) \<and>
   ((\<forall>n. hw_CR b n AND 0x00020000 = 0) \<longrightarrow> SystemInit b = None)"
proof (intro conjI impI)
  assume "oscillators_start b"
  then obtain t where t: "SystemInit b = Some t" "RCC_CFGR t = RCC_CFGR b AND 0xF0800000 OR 0x001D0402"
    "RCC_CFGR2 t = 0x00010644" "RCC_SWS t = 0x8" using SystemInit_clocks by blast
  from t(1) clocks_72 [OF t(2-4)] show "\<exists>t c. SystemInit b = Some t \<and> RCC_GetClocksFreq t = Some c \<and>
      SYSCLK_Frequency c = 72000000 \<and> HCLK_Frequency c = 72000000 \<and> PCLK1_Frequency c = 36000000 \<and>
      PCLK2_Frequency c = 72000000" by blast
next
  assume "\<forall>n. hw_CR b n AND 0x00020000 = 0"
  then show "SystemInit b = None" by (simp add: SystemInit_def SetSysClockTo72_def Let_def)
qed

text \<open>A board after a power-on reset whose hardware reports ready at once.\<close>

definition reset_board :: board where
  "reset_board = \<lparr>RCC_CR = 0x83, RCC_CFGR = 0, RCC_CFGR2 = 0, RCC_CIR = 0, RCC_AHBENR = 0x14, RCC_APB1ENR = 0,
     RCC_APB2ENR = 0, RCC_APB1RSTR = 0, FLASH_ACR = 0x30, hw_CR = \<lambda>_. 0x0A020000, hw_SWS = \<lambda>_. 0x8, rcc_reads = 0,
     RCC_SWS = 0, SCB_AIRCR = 0xFA050000, SCB_VTOR = 0, SCB_SHP = replicate 12 0, NVIC_IP = replicate 240 0,
     NVIC_ISER = replicate 8 0, SysTick_LOAD = 0, SysTick_VAL = 0, SysTick_CTRL = 0,
     GPIO_CRL = \<lambda>_. 0x44444444, GPIO_CRH = \<lambda>_. 0x44444444, GPIO_ODR = \<lambda>_. 0, AFIO_MAPR = 0, PWR_DBP = False,
     USART_CR1 = 0, USART_CR2 = 0, USART_CR3 = 0, USART_BRR = 0, CAN_MCR = 0x00010002,
     hw_MSR = \<lambda>n. if n < 2 then 1 else 0, msr_reads = 0, CAN_BTR = 0x01230000, CAN_IER = 0, CAN_FMR = 0x2A1C0E01,
     CAN_FA1R = 0, CAN_FS1R = 0, CAN_FM1R = 0, CAN_FFA1R = 0, CAN_FR1 = replicate 28 0, CAN_FR2 = replicate 28 0,
     TIM1_CR1 = 0, TIM1_ARR = 0, TIM1_PSC = 0, TIM1_RCR = 0, TIM1_EGR = 0, TIM1_SMCR = 0, TIM1_CCMR1 = 0, TIM1_CCMR2 = 0,
     TIM1_CCER = 0, TIM1_CNT = 0\<rparr>"

lemma oscillators_reset_board: "oscillators_start reset_board"
  by (auto simp: oscillators_start_def reset_board_def intro: exI [of _ 0])

theorem SystemInit_72MHz_witness:
  "(\<exists>t c. SystemInit reset_board = Some t \<and> RCC_GetClocksFreq t = Some c \<and> PCLK1_Frequency c = 36000000) \<and>
   SystemInit (reset_board\<lparr>hw_CR := \<lambda>_. 0\<rparr>) = None"
  using SystemInit_72MHz [of reset_board] oscillators_reset_board SystemInit_72MHz [of "reset_board\<lparr>hw_CR := \<lambda>_. 0\<rparr>"]
  by auto

end
