(* ===== verification/Board.thy ===== *)
theory Board
  imports Clock Queues
begin

text \<open>
  The rest of the start-up configuration: pins (\<open>GPIO_Init\<close>, \<open>GPIO_PinRemapConfig\<close>,
  \<open>GPIO_Configuration\<close>), serial line (\<open>USART_Init\<close>), CAN controller (\<open>CAN_Init\<close>,
  \<open>CAN_FilterInit\<close>), interrupt controller, encoder timer and system tick, put together in
  \<open>System_Setup\<close> (stm32f107.c). Each library function is a function on the registers it
  writes; the checks \<open>assert_param\<close> are compiled out.
\<close>

section \<open>Pins\<close>

record GPIO_InitTypeDef =
  Init_Pin :: u16
  Init_Speed :: u32
  Init_Mode :: u32

abbreviation (input) "GPIO_Mode_IN_FLOATING \<equiv> 0x04 :: u32"
abbreviation (input) "GPIO_Mode_IPD \<equiv> 0x28 :: u32"
abbreviation (input) "GPIO_Mode_IPU \<equiv> 0x48 :: u32"
abbreviation (input) "GPIO_Mode_Out_PP \<equiv> 0x10 :: u32"
abbreviation (input) "GPIO_Mode_AF_PP \<equiv> 0x18 :: u32"
abbreviation (input) "GPIO_Speed_50MHz \<equiv> 3 :: u32"

definition gpio_mode :: "GPIO_InitTypeDef \<Rightarrow> u32" where
  "gpio_mode i =
     (let currentmode = Init_Mode i AND 0x0F in
      if Init_Mode i AND 0x10 \<noteq> 0 then currentmode OR Init_Speed i else currentmode)"

text \<open>The body of the two loops of \<open>GPIO_Init\<close>: \<open>off\<close> is 0 for the low pins and 8 for the
  high ones. The writes to \<open>BRR\<close> and \<open>BSRR\<close> clear and set a bit of the output register.\<close>

definition gpio_pin_step :: "nat \<Rightarrow> GPIO_InitTypeDef \<Rightarrow> nat \<Rightarrow> u32 \<times> u16 \<Rightarrow> u32 \<times> u16" where
  "gpio_pin_step off i pinpos = (\<lambda>(tmpreg, odr).
     (let pos = (push_bit (pinpos + off) 1 :: u32); currentpin = ucast (Init_Pin i) AND pos in
      if currentpin = pos then
        let pinmask = push_bit (4 * pinpos) 0x0F;
            tmpreg' = (tmpreg AND NOT pinmask) OR push_bit (4 * pinpos) (gpio_mode i)
        in (tmpreg',
            if Init_Mode i = GPIO_Mode_IPD then odr AND NOT (push_bit (pinpos + off) 1)
            else if Init_Mode i = GPIO_Mode_IPU then odr OR push_bit (pinpos + off) 1
            else odr)
      else (tmpreg, odr)))"

definition GPIO_Init :: "gpio_port \<Rightarrow> GPIO_InitTypeDef \<Rightarrow> board \<Rightarrow> board" where
  "GPIO_Init p i b0 =
     (let b1 =
        (if (ucast (Init_Pin i) :: u32) AND 0x00FF \<noteq> 0 then
           let (r, odr) = fold (gpio_pin_step 0 i) [0..<8] (GPIO_CRL b0 p, GPIO_ODR b0 p)
           in b0\<lparr>GPIO_CRL := (GPIO_CRL b0)(p := r), GPIO_ODR := (GPIO_ODR b0)(p := odr)\<rparr>
         else b0)
      in if Init_Pin i > 0x00FF then
           let (r, odr) = fold (gpio_pin_step 8 i) [0..<8] (GPIO_CRH b1 p, GPIO_ODR b1 p)
           in b1\<lparr>GPIO_CRH := (GPIO_CRH b1)(p := r), GPIO_ODR := (GPIO_ODR b1)(p := odr)\<rparr>
         else b1)"

definition GPIO_PinRemapConfig :: "u32 \<Rightarrow> bool \<Rightarrow> board \<Rightarrow> board" where
  "GPIO_PinRemapConfig remap en b =
     (let tmpreg = AFIO_MAPR b;
          tmpmask = unat (drop_bit 16 (remap AND 0x000F0000));
          tmp = remap AND 0xFFFF;
          shift = unat (drop_bit 0x15 remap) * 0x10;
          (b1, tmpreg) =
            (if remap AND (0x00200000 OR 0x00100000) = 0x00200000 OR 0x00100000 then
               (b\<lparr>AFIO_MAPR := AFIO_MAPR b AND 0xF0FFFFFF\<rparr>, tmpreg AND 0xF0FFFFFF)
             else if remap AND 0x00100000 = 0x00100000 then
               (b, (tmpreg AND NOT (push_bit tmpmask 0x03)) OR NOT 0xF0FFFFFF)
             else (b, (tmpreg AND NOT (push_bit shift tmp)) OR NOT 0xF0FFFFFF));
          tmpreg = (if en then tmpreg OR push_bit shift tmp else tmpreg)
      in b1\<lparr>AFIO_MAPR := tmpreg\<rparr>)"

definition pins :: "nat list \<Rightarrow> u16" where
  "pins ks = fold (\<lambda>k w. w OR GPIO_Pin k) ks 0"

definition pin_init :: "nat list \<Rightarrow> u32 \<Rightarrow> GPIO_InitTypeDef" where
  "pin_init ks mode = \<lparr>Init_Pin = pins ks, Init_Speed = GPIO_Speed_50MHz, Init_Mode = mode\<rparr>"

definition GPIO_Configuration :: "board \<Rightarrow> board" where
  "GPIO_Configuration b =
     (let b = GPIO_Init GPIOA (pin_init [2] GPIO_Mode_AF_PP) b;
          b = GPIO_Init GPIOC (pin_init [1, 2] GPIO_Mode_AF_PP) b;
          b = GPIO_Init GPIOB (pin_init [5, 8, 11, 12, 13] GPIO_Mode_AF_PP) b;
          b = GPIO_PinRemapConfig 0x00200020 True b;
          b = GPIO_Init GPIOA (pin_init [0, 1, 3] GPIO_Mode_IN_FLOATING) b;
          b = GPIO_Init GPIOB (pin_init [10] GPIO_Mode_IN_FLOATING) b;
          b = GPIO_Init GPIOC (pin_init [3] GPIO_Mode_IN_FLOATING) b;
          b = GPIO_Init GPIOD (pin_init [8, 9, 10, 11, 12] GPIO_Mode_IN_FLOATING) b;
          b = GPIO_Init GPIOA (pin_init [8] GPIO_Mode_AF_PP) b;
          b = GPIO_Init GPIOD (pin_init [4] GPIO_Mode_Out_PP) b;
          b = GPIO_Init GPIOA (pin_init [9] GPIO_Mode_AF_PP) b;
          b = GPIO_Init GPIOA (pin_init [10] GPIO_Mode_IN_FLOATING) b;
          b = GPIO_Init GPIOA (pin_init [11] GPIO_Mode_Out_PP) b;
          b = GPIO_Init GPIOE (pin_init [8, 10, 12, 13, 14, 15] GPIO_Mode_IN_FLOATING) b;
          b = GPIO_Init GPIOB (pin_init [1] GPIO_Mode_IN_FLOATING) b;
          b = GPIO_Init GPIOC (pin_init [9, 8, 7, 6] GPIO_Mode_IN_FLOATING) b;
          b = GPIO_Init GPIOD (pin_init [15, 14, 13] GPIO_Mode_IN_FLOATING) b;
          b = GPIO_Init GPIOE (pin_init [9, 11] GPIO_Mode_IN_FLOATING) b;
          b = GPIO_PinRemapConfig 0x00300200 True b;
          b = GPIO_Init GPIOB (pin_init [9] GPIO_Mode_Out_PP) b;
          b = GPIO_Init GPIOE (pin_init [0, 1, 2, 3, 4, 5, 6] GPIO_Mode_Out_PP) b;
          b = GPIO_Init GPIOA (pin_init [12, 7, 6, 5, 4] GPIO_Mode_IN_FLOATING) b;
          b = GPIO_Init GPIOB (pin_init [14] GPIO_Mode_IN_FLOATING) b;
          b = GPIO_Init GPIOD (pin_init [2, 3] GPIO_Mode_IN_FLOATING) b;
          b = GPIO_Init GPIOD (pin_init [0] GPIO_Mode_IPU) b;
          b = GPIO_Init GPIOD (pin_init [1] GPIO_Mode_AF_PP) b
      in GPIO_PinRemapConfig 0x001D6000 True b)"

section \<open>Serial line\<close>

record USART_InitTypeDef =
  USART_BaudRate :: u32
  USART_WordLength :: u16
  USART_StopBits :: u16
  USART_Parity :: u16
  USART_Mode :: u16
  USART_HardwareFlowControl :: u16

text \<open>The divider, from the bus clock and the baud rate, in 32-bit arithmetic.\<close>

definition usart_brr :: "u32 \<Rightarrow> u32 \<Rightarrow> u16" where
  "usart_brr apbclock baud =
     (let integerdivider = (0x19 * apbclock) div (0x04 * baud);
          tmpreg = push_bit 4 (integerdivider div 0x64);
          fractionaldivider = integerdivider - 0x64 * drop_bit 4 tmpreg;
          tmpreg = tmpreg OR ((fractionaldivider * 0x10 + 0x32) div 0x64 AND 0x0F)
      in ucast tmpreg)"

definition USART_Init :: "USART_InitTypeDef \<Rightarrow> board \<Rightarrow> board option" where
  "USART_Init i b = do {
     let b = b\<lparr>USART_CR2 := (USART_CR2 b AND 0xCFFF) OR USART_StopBits i\<rparr>;
     let b = b\<lparr>USART_CR1 := (USART_CR1 b AND 0xE9F3) OR (USART_WordLength i OR USART_Parity i OR USART_Mode i)\<rparr>;
     let b = b\<lparr>USART_CR3 := (USART_CR3 b AND 0xFCFF) OR USART_HardwareFlowControl i\<rparr>;
     c \<leftarrow> RCC_GetClocksFreq b;
     Some (b\<lparr>USART_BRR := usart_brr (PCLK2_Frequency c) (USART_BaudRate i)\<rparr>)
   }"

definition USART_Cmd :: "bool \<Rightarrow> board \<Rightarrow> board" where
  "USART_Cmd en b = b\<lparr>USART_CR1 := (if en then USART_CR1 b OR 0x2000 else USART_CR1 b AND 0xDFFF)\<rparr>"

definition USART_ITConfig :: "u16 \<Rightarrow> bool \<Rightarrow> board \<Rightarrow> board" where
  "USART_ITConfig it en b =
     (let usartreg = drop_bit 5 (ucast it :: u8);
          itmask = (push_bit (unat (it AND 0x001F)) 1 :: u16);
          set = (\<lambda>r. if en then r OR itmask else r AND NOT itmask)
      in if usartreg = 1 then b\<lparr>USART_CR1 := set (USART_CR1 b)\<rparr>
         else if usartreg = 2 then b\<lparr>USART_CR2 := set (USART_CR2 b)\<rparr>
         else b\<lparr>USART_CR3 := set (USART_CR3 b)\<rparr>)"

definition USART_Configuration :: "board \<Rightarrow> board option" where
  "USART_Configuration b = do {
     b \<leftarrow> USART_Init \<lparr>USART_BaudRate = 9600, USART_WordLength = 0, USART_StopBits = 0, USART_Parity = 0,
       USART_Mode = 0x0004 OR 0x0008, USART_HardwareFlowControl = 0\<rparr> b;
     Some (USART_Cmd True (USART_ITConfig 0x0525 True b))
   }"

section \<open>CAN controller\<close>

record CAN_InitTypeDef =
  CAN_Prescaler :: u16
  CAN_Mode :: u8
  CAN_SJW :: u8
  CAN_BS1 :: u8
  CAN_BS2 :: u8
  CAN_TTCM :: bool
  CAN_ABOM :: bool
  CAN_AWUM :: bool
  CAN_NART :: bool
  CAN_RFLM :: bool
  CAN_TXFP :: bool

record CAN_FilterInitTypeDef =
  CAN_FilterIdHigh :: u16
  CAN_FilterIdLow :: u16
  CAN_FilterMaskIdHigh :: u16
  CAN_FilterMaskIdLow :: u16
  CAN_FilterFIFOAssignment :: u16
  CAN_FilterNumber :: u8
  CAN_FilterMode :: u8
  CAN_FilterScale :: u8
  CAN_FilterActivation :: bool

abbreviation (input) "RCC_APB1Periph_CAN1 \<equiv> 0x02000000 :: u32"
abbreviation (input) "RCC_APB1Periph_CAN2 \<equiv> 0x04000000 :: u32"
abbreviation (input) "CANINITFAILED \<equiv> 0x00 :: u8"
abbreviation (input) "CANINITOK \<equiv> 0x01 :: u8"

text \<open>The argument says whether the controller is \<open>CAN1\<close>, the only one in use.\<close>

definition CAN_DeInit :: "bool \<Rightarrow> board \<Rightarrow> board" where
  "CAN_DeInit is_CAN1 b =
     (let periph = (if is_CAN1 then RCC_APB1Periph_CAN1 else RCC_APB1Periph_CAN2)
      in RCC_APB1PeriphResetCmd periph False (RCC_APB1PeriphResetCmd periph True b))"

definition CAN_StructInit :: CAN_InitTypeDef where
  "CAN_StructInit = \<lparr>CAN_Prescaler = 1, CAN_Mode = 0, CAN_SJW = 0, CAN_BS1 = 3, CAN_BS2 = 2,
     CAN_TTCM = False, CAN_ABOM = False, CAN_AWUM = False, CAN_NART = False, CAN_RFLM = False, CAN_TXFP = False\<rparr>"

definition mcr_flag :: "bool \<Rightarrow> u32 \<Rightarrow> board \<Rightarrow> board" where
  "mcr_flag on m b = b\<lparr>CAN_MCR := (if on then CAN_MCR b OR m else CAN_MCR b AND NOT m)\<rparr>"

definition can_btr :: "CAN_InitTypeDef \<Rightarrow> u32" where
  "can_btr i = push_bit 30 (ucast (CAN_Mode i)) OR push_bit 24 (ucast (CAN_SJW i)) OR
     push_bit 16 (ucast (CAN_BS1 i)) OR push_bit 20 (ucast (CAN_BS2 i)) OR (ucast (CAN_Prescaler i) - 1)"

text \<open>The initialisation mode is requested, and left again, with a time-out of \<open>0xFFFF\<close>
  unsuccessful reads of the acknowledge bit; one more read decides.\<close>

definition CAN_Init :: "CAN_InitTypeDef \<Rightarrow> board \<Rightarrow> u8 \<times> board" where
  "CAN_Init i b =
     (let inak = (\<lambda>n. hw_MSR b n AND 1 = 1);
          b = mcr_flag False 0x02 b;
          b = mcr_flag True 0x01 b;
          n = wait_at_most 0x10000 inak (msr_reads b);
          b = b\<lparr>msr_reads := Suc n\<rparr>
      in if \<not> inak n then (CANINITFAILED, b)
         else
           let b = mcr_flag (CAN_TTCM i) 0x80 b;
               b = mcr_flag (CAN_ABOM i) 0x40 b;
               b = mcr_flag (CAN_AWUM i) 0x20 b;
               b = mcr_flag (CAN_NART i) 0x10 b;
               b = mcr_flag (CAN_RFLM i) 0x08 b;
               b = mcr_flag (CAN_TXFP i) 0x04 b;
               b = b\<lparr>CAN_BTR := can_btr i\<rparr>;
               b = mcr_flag False 0x01 b;
               n = wait_at_most 0x10000 (\<lambda>n. \<not> inak n) (msr_reads b);
               b = b\<lparr>msr_reads := Suc n\<rparr>
           in (if inak n then CANINITFAILED else CANINITOK, b))"

definition CAN_FilterInit :: "CAN_FilterInitTypeDef \<Rightarrow> board \<Rightarrow> board option" where
  "CAN_FilterInit i b = do {
     let k = unat (CAN_FilterNumber i);
     let pos = (push_bit k 1 :: u32);
     let half = (\<lambda>hi lo. push_bit 16 (0xFFFF AND ucast (hi :: u16)) OR (0xFFFF AND ucast (lo :: u16)) :: u32);
     let b = b\<lparr>CAN_FMR := CAN_FMR b OR 1\<rparr>;
     let b = b\<lparr>CAN_FA1R := CAN_FA1R b AND NOT pos\<rparr>;
     b \<leftarrow> (if CAN_FilterScale i = 0 then do {
        fr1 \<leftarrow> upd (CAN_FR1 b) k (half (CAN_FilterMaskIdLow i) (CAN_FilterIdLow i));
        fr2 \<leftarrow> upd (CAN_FR2 b) k (half (CAN_FilterMaskIdHigh i) (CAN_FilterIdHigh i));
        Some (b\<lparr>CAN_FS1R := CAN_FS1R b AND NOT pos, CAN_FR1 := fr1, CAN_FR2 := fr2\<rparr>)
      } else Some b);
     b \<leftarrow> (if CAN_FilterScale i = 1 then do {
        fr1 \<leftarrow> upd (CAN_FR1 b) k (half (CAN_FilterIdHigh i) (CAN_FilterIdLow i));
        fr2 \<leftarrow> upd (CAN_FR2 b) k (half (CAN_FilterMaskIdHigh i) (CAN_FilterMaskIdLow i));
        Some (b\<lparr>CAN_FS1R := CAN_FS1R b OR pos, CAN_FR1 := fr1, CAN_FR2 := fr2\<rparr>)
      } else Some b);
     let b = b\<lparr>CAN_FM1R := (if CAN_FilterMode i = 0 then CAN_FM1R b AND NOT pos else CAN_FM1R b OR pos)\<rparr>;
     let b = (if CAN_FilterFIFOAssignment i = 0 then b\<lparr>CAN_FFA1R := CAN_FFA1R b AND NOT pos\<rparr> else b);
     let b = (if CAN_FilterFIFOAssignment i = 1 then b\<lparr>CAN_FFA1R := CAN_FFA1R b OR pos\<rparr> else b);
     let b = (if CAN_FilterActivation i then b\<lparr>CAN_FA1R := CAN_FA1R b OR pos\<rparr> else b);
     Some (b\<lparr>CAN_FMR := CAN_FMR b AND NOT 1\<rparr>)
   }"

definition CAN_ITConfig :: "u32 \<Rightarrow> bool \<Rightarrow> board \<Rightarrow> board" where
  "CAN_ITConfig it en b = b\<lparr>CAN_IER := (if en then CAN_IER b OR it else CAN_IER b AND NOT it)\<rparr>"

definition can_parameters :: CAN_InitTypeDef where
  "can_parameters = CAN_StructInit\<lparr>CAN_TTCM := False, CAN_ABOM := True, CAN_AWUM := False, CAN_NART := False,
     CAN_RFLM := False, CAN_TXFP := True, CAN_Mode := 0, CAN_SJW := 0, CAN_BS1 := 0x0C, CAN_BS2 := 0x01,
     CAN_Prescaler := 18\<rparr>"

definition CAN_Configuration :: "board \<Rightarrow> board option" where
  "CAN_Configuration b = do {
     let b = CAN_DeInit True b;
     let (_, b) = CAN_Init can_parameters b;
     b \<leftarrow> CAN_FilterInit \<lparr>CAN_FilterIdHigh = 0, CAN_FilterIdLow = 0, CAN_FilterMaskIdHigh = 0,
       CAN_FilterMaskIdLow = 0, CAN_FilterFIFOAssignment = 0, CAN_FilterNumber = 0, CAN_FilterMode = 0,
       CAN_FilterScale = 1, CAN_FilterActivation = True\<rparr> b;
     Some (CAN_ITConfig 0x00000002 True b)
   }"

section \<open>Interrupt controller and system tick\<close>

record NVIC_InitTypeDef =
  NVIC_IRQChannel :: u8
  NVIC_IRQChannelPreemptionPriority :: u8
  NVIC_IRQChannelSubPriority :: u8
  NVIC_IRQChannelCmd :: bool

definition NVIC_PriorityGroupConfig :: "u32 \<Rightarrow> board \<Rightarrow> board" where
  "NVIC_PriorityGroupConfig grp b = b\<lparr>SCB_AIRCR := 0x05FA0000 OR grp\<rparr>"

text \<open>Writing a one to \<open>ISER\<close> enables an interrupt, writing it to \<open>ICER\<close> disables it; the
  field \<open>NVIC_ISER\<close> holds the enabled ones. A priority grouping with more than four
  pre-emption bits would shift by a negative amount: \<open>None\<close>.\<close>

definition NVIC_Init :: "NVIC_InitTypeDef \<Rightarrow> board \<Rightarrow> board option" where
  "NVIC_Init i b = do {
     let ch = NVIC_IRQChannel i;
     let word = unat (drop_bit 5 ch);
     let sel = (push_bit (unat (ch AND 0x1F)) 1 :: u32);
     old \<leftarrow> idx (NVIC_ISER b) word;
     if NVIC_IRQChannelCmd i then do {
       let tmppriority = drop_bit 8 (0x700 - (SCB_AIRCR b AND 0x700));
       if tmppriority > 4 then None else do {
         let tmppre = unat (4 - tmppriority);
         let tmpsub = drop_bit (unat tmppriority) (0x0F :: u32);
         let prio = push_bit tmppre (ucast (NVIC_IRQChannelPreemptionPriority i)) OR
           (ucast (NVIC_IRQChannelSubPriority i) AND tmpsub);
         ip \<leftarrow> upd (NVIC_IP b) (unat ch) (ucast (push_bit 4 prio));
         iser \<leftarrow> upd (NVIC_ISER b) word (old OR sel);
         Some (b\<lparr>NVIC_IP := ip, NVIC_ISER := iser\<rparr>)
       }
     } else do {
       iser \<leftarrow> upd (NVIC_ISER b) word (old AND NOT sel);
       Some (b\<lparr>NVIC_ISER := iser\<rparr>)
     }
   }"

definition NVIC_SetVectorTable :: "u32 \<Rightarrow> u32 \<Rightarrow> board \<Rightarrow> board" where
  "NVIC_SetVectorTable tab off b = b\<lparr>SCB_VTOR := tab OR (off AND 0x1FFFFF80)\<rparr>"

definition NVIC_SetPriority :: "int \<Rightarrow> u32 \<Rightarrow> board \<Rightarrow> board option" where
  "NVIC_SetPriority irqn prio b = do {
     let v = (ucast (push_bit 4 prio AND 0xFF) :: u8);
     if irqn < 0 then do {
       shp \<leftarrow> upd (SCB_SHP b) (unat ((word_of_int irqn AND 0xF) - (4 :: u32))) v;
       Some (b\<lparr>SCB_SHP := shp\<rparr>)
     } else do {
       ip \<leftarrow> upd (NVIC_IP b) (unat (word_of_int irqn :: u32)) v;
       Some (b\<lparr>NVIC_IP := ip\<rparr>)
     }
   }"

abbreviation (input) "SysTick_IRQn \<equiv> -1 :: int"
abbreviation (input) "SYSTICK_MAXCOUNT \<equiv> 0xFFFFFF :: u32"

definition SysTick_Config :: "u32 \<Rightarrow> board \<Rightarrow> (u32 \<times> board) option" where
  "SysTick_Config ticks b =
     (if ticks > SYSTICK_MAXCOUNT then Some (1, b)
      else do {
        let b = b\<lparr>SysTick_LOAD := (ticks AND SYSTICK_MAXCOUNT) - 1\<rparr>;
        b \<leftarrow> NVIC_SetPriority SysTick_IRQn (push_bit 4 1 - 1) b;
        Some (0, b\<lparr>SysTick_VAL := 0, SysTick_CTRL := push_bit 2 1 OR push_bit 0 1 OR push_bit 1 1\<rparr>)
      })"

text \<open>The flag says whether \<open>IAP_MODE_SYS\<close> is defined, as one of the two project files does:
  the image then runs behind a boot loader, at offset \<open>0x10000\<close>.\<close>

definition NVIC_Configuration :: "bool \<Rightarrow> board \<Rightarrow> board option" where
  "NVIC_Configuration IAP_MODE_SYS b = do {
     let b = NVIC_SetVectorTable 0x08000000 (if IAP_MODE_SYS then 0x10000 else 0) b;
     let b = NVIC_PriorityGroupConfig 0x500 b;
     b \<leftarrow> NVIC_Init \<lparr>NVIC_IRQChannel = 61, NVIC_IRQChannelPreemptionPriority = 2,
       NVIC_IRQChannelSubPriority = 0, NVIC_IRQChannelCmd = True\<rparr> b;
     b \<leftarrow> NVIC_Init \<lparr>NVIC_IRQChannel = 37, NVIC_IRQChannelPreemptionPriority = 0,
       NVIC_IRQChannelSubPriority = 1, NVIC_IRQChannelCmd = True\<rparr> b;
     NVIC_Init \<lparr>NVIC_IRQChannel = 20, NVIC_IRQChannelPreemptionPriority = 0,
       NVIC_IRQChannelSubPriority = 1, NVIC_IRQChannelCmd = True\<rparr> b
   }"

section \<open>Encoder timer\<close>

record TIM_TimeBaseInitTypeDef =
  TIM_Prescaler :: u16
  TIM_CounterMode :: u16
  TIM_Period :: u16
  TIM_ClockDivision :: u16
  TIM_RepetitionCounter :: u8

record TIM_ICInitTypeDef =
  TIM_Channel :: u16
  TIM_ICPolarity :: u16
  TIM_ICSelection :: u16
  TIM_ICPrescaler :: u16
  TIM_ICFilter :: u16

text \<open>All for \<open>TIM1\<close>, which has a repetition counter.\<close>

definition TIM_TimeBaseInit :: "TIM_TimeBaseInitTypeDef \<Rightarrow> board \<Rightarrow> board" where
  "TIM_TimeBaseInit i b =
     (let b = b\<lparr>TIM1_CR1 := TIM1_CR1 b AND (0x00FF AND 0x038F)\<rparr>;
          b = b\<lparr>TIM1_CR1 := TIM1_CR1 b OR (TIM_ClockDivision i OR TIM_CounterMode i)\<rparr>
      in b\<lparr>TIM1_ARR := TIM_Period i, TIM1_PSC := TIM_Prescaler i,
           TIM1_RCR := ucast (TIM_RepetitionCounter i), TIM1_EGR := 1\<rparr>)"

definition TIM_EncoderInterfaceConfig :: "u16 \<Rightarrow> u16 \<Rightarrow> u16 \<Rightarrow> board \<Rightarrow> board" where
  "TIM_EncoderInterfaceConfig mode pol1 pol2 b =
     b\<lparr>TIM1_SMCR := (TIM1_SMCR b AND 0xFFF8) OR mode,
       TIM1_CCMR1 := (TIM1_CCMR1 b AND (0xFFFC AND 0xFCFF)) OR (0x0001 OR 0x0100),
       TIM1_CCER := (TIM1_CCER b AND (0xFFFD AND 0xFFDF)) OR (pol1 OR push_bit 4 pol2)\<rparr>"

definition TIM_ICStructInit :: TIM_ICInitTypeDef where
  "TIM_ICStructInit = \<lparr>TIM_Channel = 0, TIM_ICPolarity = 0, TIM_ICSelection = 1, TIM_ICPrescaler = 0,
     TIM_ICFilter = 0\<rparr>"

definition TI1_Config :: "u16 \<Rightarrow> u16 \<Rightarrow> u16 \<Rightarrow> board \<Rightarrow> board" where
  "TI1_Config pol sel filt b =
     (let b = b\<lparr>TIM1_CCER := TIM1_CCER b AND 0xFFFE\<rparr>
      in b\<lparr>TIM1_CCMR1 := (TIM1_CCMR1 b AND (0xFFFC AND 0xFF0F)) OR (sel OR push_bit 4 filt),
           TIM1_CCER := (TIM1_CCER b AND 0xFFFD) OR (pol OR 0x0001)\<rparr>)"

definition TI2_Config :: "u16 \<Rightarrow> u16 \<Rightarrow> u16 \<Rightarrow> board \<Rightarrow> board" where
  "TI2_Config pol sel filt b =
     (let b = b\<lparr>TIM1_CCER := TIM1_CCER b AND 0xFFEF\<rparr>
      in b\<lparr>TIM1_CCMR1 := (TIM1_CCMR1 b AND (0xFCFF AND 0x0FFF)) OR push_bit 12 filt OR push_bit 8 sel,
           TIM1_CCER := (TIM1_CCER b AND 0xFFDF) OR (push_bit 4 pol OR 0x0010)\<rparr>)"

definition TI3_Config :: "u16 \<Rightarrow> u16 \<Rightarrow> u16 \<Rightarrow> board \<Rightarrow> board" where
  "TI3_Config pol sel filt b =
     (let b = b\<lparr>TIM1_CCER := TIM1_CCER b AND 0xFEFF\<rparr>
      in b\<lparr>TIM1_CCMR2 := (TIM1_CCMR2 b AND (0xFFFC AND 0xFF0F)) OR (sel OR push_bit 4 filt),
           TIM1_CCER := (TIM1_CCER b AND 0xFDFF) OR (push_bit 8 pol OR 0x0100)\<rparr>)"

definition TI4_Config :: "u16 \<Rightarrow> u16 \<Rightarrow> u16 \<Rightarrow> board \<Rightarrow> board" where
  "TI4_Config pol sel filt b =
     (let b = b\<lparr>TIM1_CCER := TIM1_CCER b AND 0xEFFF\<rparr>
      in b\<lparr>TIM1_CCMR2 := (TIM1_CCMR2 b AND (0xFCFF AND 0x0FFF)) OR push_bit 8 sel OR push_bit 12 filt,
           TIM1_CCER := (TIM1_CCER b AND 0xDFFF) OR (push_bit 12 pol OR 0x1000)\<rparr>)"

definition TIM_SetIC1Prescaler :: "u16 \<Rightarrow> board \<Rightarrow> board" where
  "TIM_SetIC1Prescaler psc b = b\<lparr>TIM1_CCMR1 := (TIM1_CCMR1 b AND 0xFFF3) OR psc\<rparr>"

definition TIM_SetIC2Prescaler :: "u16 \<Rightarrow> board \<Rightarrow> board" where
  "TIM_SetIC2Prescaler psc b = b\<lparr>TIM1_CCMR1 := (TIM1_CCMR1 b AND 0xF3FF) OR push_bit 8 psc\<rparr>"

definition TIM_SetIC3Prescaler :: "u16 \<Rightarrow> board \<Rightarrow> board" where
  "TIM_SetIC3Prescaler psc b = b\<lparr>TIM1_CCMR2 := (TIM1_CCMR2 b AND 0xFFF3) OR psc\<rparr>"

definition TIM_SetIC4Prescaler :: "u16 \<Rightarrow> board \<Rightarrow> board" where
  "TIM_SetIC4Prescaler psc b = b\<lparr>TIM1_CCMR2 := (TIM1_CCMR2 b AND 0xF3FF) OR push_bit 8 psc\<rparr>"

definition TIM_ICInit :: "TIM_ICInitTypeDef \<Rightarrow> board \<Rightarrow> board" where
  "TIM_ICInit i b =
     (if TIM_Channel i = 0x0000 then
        TIM_SetIC1Prescaler (TIM_ICPrescaler i) (TI1_Config (TIM_ICPolarity i) (TIM_ICSelection i) (TIM_ICFilter i) b)
      else if TIM_Channel i = 0x0004 then
        TIM_SetIC2Prescaler (TIM_ICPrescaler i) (TI2_Config (TIM_ICPolarity i) (TIM_ICSelection i) (TIM_ICFilter i) b)
      else if TIM_Channel i = 0x0008 then
        TIM_SetIC3Prescaler (TIM_ICPrescaler i) (TI3_Config (TIM_ICPolarity i) (TIM_ICSelection i) (TIM_ICFilter i) b)
      else
        TIM_SetIC4Prescaler (TIM_ICPrescaler i) (TI4_Config (TIM_ICPolarity i) (TIM_ICSelection i) (TIM_ICFilter i) b))"

definition TIM_SetCounter :: "u16 \<Rightarrow> board \<Rightarrow> board" where
  "TIM_SetCounter v b = b\<lparr>TIM1_CNT := v\<rparr>"

definition TIM_Cmd :: "bool \<Rightarrow> board \<Rightarrow> board" where
  "TIM_Cmd en b = b\<lparr>TIM1_CR1 := (if en then TIM1_CR1 b OR 0x0001 else TIM1_CR1 b AND 0x03FE)\<rparr>"

text \<open>\<open>TIM_RepetitionCounter\<close> is not set by the code: it has the value \<open>rep\<close> that happens to
  be on the stack.\<close>

definition Encoder_Init :: "u8 \<Rightarrow> board \<Rightarrow> board" where
  "Encoder_Init rep b =
     (let b = RCC_APB2PeriphClockCmd 0x00000800 True b;
          b = GPIO_PinRemapConfig 0x001600C0 True b;
          b = GPIO_Init GPIOE (pin_init [9, 11] GPIO_Mode_IN_FLOATING) b;
          b = TIM_TimeBaseInit \<lparr>TIM_Prescaler = 0, TIM_CounterMode = 0, TIM_Period = 0xFFFF,
                TIM_ClockDivision = 0, TIM_RepetitionCounter = rep\<rparr> b;
          b = TIM_EncoderInterfaceConfig 0x0003 0 0 b;
          b = TIM_ICInit (TIM_ICStructInit\<lparr>TIM_ICFilter := 6\<rparr>) b;
          b = TIM_SetCounter 0 b
      in TIM_Cmd True b)"

section \<open>The whole set-up\<close>

definition PWR_BackupAccessCmd :: "bool \<Rightarrow> board \<Rightarrow> board" where
  "PWR_BackupAccessCmd en b = b\<lparr>PWR_DBP := en\<rparr>"

definition clock_gates :: "board \<Rightarrow> board" where
  "clock_gates b =
     (let b = RCC_APB1PeriphClockCmd (0x10000000 OR 0x08000000 OR 0x02000000) True b;
          b = RCC_AHBPeriphClockCmd (0x1 OR 0x2 OR 0x4000 OR 0x8000 OR 0x10000) True b
      in RCC_APB2PeriphClockCmd (0x4 OR 0x8 OR 0x10 OR 0x20 OR 0x40 OR 0x1 OR 0x4000) True b)"

definition System_Setup :: "bool \<Rightarrow> u8 \<Rightarrow> board \<Rightarrow> board option" where
  "System_Setup IAP_MODE_SYS rep b = do {
     b \<leftarrow> SystemInit b;
     let b = clock_gates b;
     b \<leftarrow> NVIC_Configuration IAP_MODE_SYS b;
     let b = GPIO_Configuration b;
     b \<leftarrow> USART_Configuration b;
     b \<leftarrow> CAN_Configuration b;
     let b = Encoder_Init rep b;
     let b = PWR_BackupAccessCmd True b;
     c \<leftarrow> RCC_GetClocksFreq b;
     (_, b) \<leftarrow> SysTick_Config (SYSCLK_Frequency c div 1000) b;
     NVIC_SetPriority SysTick_IRQn 0 b
   }"

section \<open>Pin modes\<close>

text \<open>The four configuration bits of a pin.\<close>

definition pin_mode :: "board \<Rightarrow> gpio_port \<Rightarrow> nat \<Rightarrow> u32" where
  "pin_mode b p k =
     (if k < 8 then drop_bit (4 * k) (GPIO_CRL b p) AND 0xF else drop_bit (4 * (k - 8)) (GPIO_CRH b p) AND 0xF)"

lemma bit_nibble: "bit (drop_bit (4 * k) (r :: u32) AND 0xF) m \<longleftrightarrow> m < 4 \<and> bit r (4 * k + m)"
proof -
  have "drop_bit (4 * k) r AND 0xF = take_bit 4 (drop_bit (4 * k) r)"
    by (simp add: take_bit_eq_mask mask_eq_exp_minus_1)
  then show ?thesis by (auto simp: bit_take_bit_iff bit_drop_bit_eq)
qed

lemma pin_selected:
  "k < 16 \<Longrightarrow> ((ucast (w :: u16) :: u32) AND 2 ^ k = 2 ^ k) = bit w k"
  using bit_eq_iff [of "(ucast w :: u32) AND 2 ^ k" "2 ^ k"]
  by (auto simp: bit_and_iff bit_exp_iff bit_unsigned_iff dest: spec [of _ k])

lemma word_bits_below:
  assumes "x < 2 ^ n" "n < LENGTH('a)" "bit (x :: 'a :: len word) m"
  shows "m < n"
proof -
  have "unat (2 ^ n :: 'a word) = 2 ^ n"
    using unat_of_nat [of "2 ^ n", where 'a = 'a] assms(2) by (simp add: unsigned_of_nat take_bit_nat_eq_self)
  then have "unat x < 2 ^ n" using assms(1) by (simp add: word_less_nat_alt)
  then have "x = take_bit n x" by (simp add: word_unat_eq_iff unsigned_take_bit_eq take_bit_nat_eq_self)
  with assms(3) show ?thesis by (metis bit_take_bit_iff)
qed

lemmas nibble_bits = word_bits_below [of _ 4, where 'a = 32, simplified]

text \<open>The loop over eight pins, bit by bit: a selected pin gets the mode in its four bits, the
  others keep theirs.\<close>

lemma gpio_pins_bit:
  assumes "gpio_mode i < 16" "n \<le> 8" "off \<le> 8" "m < 32"
  shows "bit (fst (fold (gpio_pin_step off i) [0..<n] (r, odr))) m =
    (if m div 4 < n \<and> bit (Init_Pin i) (m div 4 + off) then bit (gpio_mode i) (m mod 4) else bit r m)"
  using assms(2)
proof (induction n)
  case (Suc n)
  obtain r' odr' where f: "fold (gpio_pin_step off i) [0..<n] (r, odr) = (r', odr')" by fastforce
  have sel: "((ucast (Init_Pin i) :: u32) AND 2 ^ (n + off) = 2 ^ (n + off)) = bit (Init_Pin i) (n + off)"
    using pin_selected Suc.prems assms(3) by simp
  have m: "m - 4 * n < 4 \<and> 4 * n \<le> m \<longleftrightarrow> m div 4 = n" "m div 4 = n \<Longrightarrow> m - 4 * n = m mod 4"
    using minus_mult_div_eq_mod [of m 4] by (linarith, blast)
  then have low: "bit (push_bit (4 * n) (gpio_mode i)) m = (m div 4 = n \<and> bit (gpio_mode i) (m mod 4))"
    using assms(4) nibble_bits [OF assms(1)] by (auto simp: bit_push_bit_iff)
  have "bit (0xF :: u32) q = (q < 4)" for q
    using bit_mask_iff [of 4 q, where 'a = u32] by (auto simp: mask_eq_exp_minus_1)
  with m have msk: "bit (push_bit (4 * n) (0xF :: u32)) m = (m div 4 = n)"
    using assms(4) by (auto simp: bit_push_bit_iff)
  have "bit (fst (gpio_pin_step off i n (r', odr'))) m =
      (if m div 4 = n \<and> bit (Init_Pin i) (n + off) then bit (gpio_mode i) (m mod 4) else bit r' m)"
    using assms(4) by (auto simp: gpio_pin_step_def Let_def sel bit_or_iff bit_and_iff bit_not_iff low msk)
  with Suc.IH Suc.prems f show ?case by (auto simp: less_Suc_eq)
qed simp

lemma gpio_pins_nibble:
  assumes "gpio_mode i < 16" "k < 8" "off \<le> 8"
  shows "drop_bit (4 * k) (fst (fold (gpio_pin_step off i) [0..<8] (r, odr))) AND 0xF =
    (if bit (Init_Pin i) (k + off) then gpio_mode i else drop_bit (4 * k) r AND 0xF)"
proof (rule bit_word_eqI)
  fix m :: nat
  have "m < 4 \<Longrightarrow> (4 * k + m) div 4 = k \<and> (4 * k + m) mod 4 = m \<and> 4 * k + m < 32" using assms(2) by simp
  then show "bit (drop_bit (4 * k) (fst (fold (gpio_pin_step off i) [0..<8] (r, odr))) AND 0xF) m =
    bit (if bit (Init_Pin i) (k + off) then gpio_mode i else drop_bit (4 * k) r AND 0xF) m"
    using assms(2) nibble_bits [OF assms(1), of m] unfolding bit_nibble
    by (auto simp: gpio_pins_bit [OF assms(1) _ assms(3)] bit_nibble)
qed

text \<open>\<open>GPIO_Init\<close> gives the selected pins of the port the mode and leaves all other pins alone.\<close>

lemma pin_mode_GPIO_Init:
  assumes "gpio_mode i < 16" "k < 16"
  shows "pin_mode (GPIO_Init p i b) q k = (if q = p \<and> bit (Init_Pin i) k then gpio_mode i else pin_mode b q k)"
proof (cases "k < 8")
  case True
  have none: "bit (Init_Pin i) k \<Longrightarrow> (ucast (Init_Pin i) :: u32) AND 0xFF \<noteq> 0"
  proof -
    have "(ucast (Init_Pin i) :: u32) AND 0xFF = take_bit 8 (ucast (Init_Pin i))"
      by (simp add: take_bit_eq_mask mask_eq_exp_minus_1)
    moreover have "bit (Init_Pin i) k \<Longrightarrow> bit (take_bit 8 (ucast (Init_Pin i) :: u32)) k"
      using True by (simp add: bit_take_bit_iff bit_unsigned_iff)
    ultimately show "bit (Init_Pin i) k \<Longrightarrow> (ucast (Init_Pin i) :: u32) AND 0xFF \<noteq> 0" by (metis bit_0_eq bot_apply bot_bool_def)
  qed
  have "GPIO_CRL (GPIO_Init p i b) q = (if q = p \<and> (ucast (Init_Pin i) :: u32) AND 0xFF \<noteq> 0
      then fst (fold (gpio_pin_step 0 i) [0..<8] (GPIO_CRL b p, GPIO_ODR b p)) else GPIO_CRL b q)"
    by (simp add: GPIO_Init_def Let_def split: prod.split)
  with True none show ?thesis
    by (auto simp: pin_mode_def gpio_pins_nibble [OF assms(1) True, of 0, simplified])
next
  case False
  have none: "bit (Init_Pin i) k \<Longrightarrow> Init_Pin i > 0xFF"
    using word_bits_below [of "Init_Pin i" 8 k] False by (fastforce simp: not_less word_less_nat_alt word_le_nat_alt)
  have "GPIO_CRH (GPIO_Init p i b) q = (if q = p \<and> Init_Pin i > 0xFF
      then fst (fold (gpio_pin_step 8 i) [0..<8] (GPIO_CRH b p,
        if (ucast (Init_Pin i) :: u32) AND 0xFF \<noteq> 0
        then snd (fold (gpio_pin_step 0 i) [0..<8] (GPIO_CRL b p, GPIO_ODR b p)) else GPIO_ODR b p))
      else GPIO_CRH b q)"
    by (simp add: GPIO_Init_def Let_def split: prod.split)
  with False none assms(2) show ?thesis
    by (auto simp: pin_mode_def gpio_pins_nibble [OF assms(1), of "k - 8" 8])
qed


lemma bit_pins: "bit (pins ks) k \<longleftrightarrow> k \<in> set ks \<and> k < 16"
proof -
  have "bit (fold (\<lambda>k w. w OR GPIO_Pin k) ks w) k \<longleftrightarrow> k \<in> set ks \<and> k < 16 \<or> bit w k" for w
    by (induction ks arbitrary: w) (auto simp: bit_or_iff bit_GPIO_Pin)
  then show ?thesis by (simp add: pins_def)
qed

lemma gpio_mode_pin_init:
  "gpio_mode (pin_init ks mode) = (if mode AND 0x10 \<noteq> 0 then (mode AND 0xF) OR 3 else mode AND 0xF)"
  by (simp add: gpio_mode_def pin_init_def Let_def)

lemma pin_mode_pin_init:
  assumes "k < 16"
  shows "pin_mode (GPIO_Init p (pin_init ks mode) b) q k =
    (if q = p \<and> k \<in> set ks then gpio_mode (pin_init ks mode) else pin_mode b q k)"
proof -
  have low: "w AND 0xF < 16" for w :: u32
    by (rule order_le_less_trans [OF word_and_le1]) simp
  have "(mode AND 0xF) OR 3 = (mode OR 3) AND 0xF" by (simp add: bit.conj_disj_distrib2)
  with low have "mode AND 0xF < 16" "(mode AND 0xF) OR 3 < 16" by metis+
  then have "gpio_mode (pin_init ks mode) < 16" by (simp add: gpio_mode_pin_init)
  with assms show ?thesis by (simp add: pin_mode_GPIO_Init bit_pins pin_init_def)
qed

lemma pin_mode_remap [simp]: "pin_mode (GPIO_PinRemapConfig r en b) q k = pin_mode b q k"
  by (simp add: pin_mode_def GPIO_PinRemapConfig_def Let_def)

definition input_pins :: "(gpio_port \<times> nat) list" where
  "input_pins = [(GPIOE, 8), (GPIOE, 10), (GPIOE, 12), (GPIOC, 9), (GPIOC, 8), (GPIOC, 7), (GPIOC, 6), (GPIOD, 15),
     (GPIOD, 14), (GPIOD, 13), (GPIOB, 14), (GPIOA, 12), (GPIOA, 7), (GPIOA, 6), (GPIOA, 5), (GPIOA, 4),
     (GPIOD, 2), (GPIOD, 3)]"

definition output_pins :: "(gpio_port \<times> nat) list" where
  "output_pins = [(GPIOB, 9), (GPIOE, 0), (GPIOE, 1), (GPIOE, 2), (GPIOE, 3), (GPIOE, 4), (GPIOE, 5), (GPIOE, 6),
     (GPIOD, 4), (GPIOA, 11)]"

definition input_values :: "fw \<Rightarrow> u8 list" where
  "input_values s = map (\<lambda>f. f s) [B_START_IN_STATE, B_STOP_IN_STATE, B_EMERGENCY_IN_STATE, B_PHOTO_1_IN_STATE,
     B_PHOTO_2_IN_STATE, B_PHOTO_3_IN_STATE, B_PHOTO_4_IN_STATE, B_PHOTO_5_IN_STATE, B_RESET_IN_STATE,
     B_STREAM_IN_STATE] @ map (\<lambda>k. DIP_STATE k s) [1, 2, 3, 4, 5, 6, 7, 8]"

definition output_writes :: "(u8 \<Rightarrow> fw \<Rightarrow> fw) list" where
  "output_writes = [B_RUN_1_OUT, B_RUN_2_OUT, B_RUN_3_OUT, B_RUN_4_OUT, B_RUN_5_OUT, B_STREAM_OUT, L_ALARM_OUT,
     B_RUN_STA_OUT, \<lambda>_. LED_ON, \<lambda>_. LED_OFF, \<lambda>_. UART1_RX_485, \<lambda>_. UART1_TX_485]"

lemma read_input_bit: "n < 16 \<Longrightarrow> GPIO_ReadInputDataBit p (GPIO_Pin n) s = (if bit (IDR s p) n then 1 else 0)"
  by (simp add: GPIO_ReadInputDataBit_def GPIO_Pin_def and_exp_eq_0_iff_not_bit)

lemma input_values_pins:
  assumes "\<forall>(p, k) \<in> set input_pins. bit (IDR s p) k = bit (IDR t p) k"
  shows "input_values s = input_values t"
  using assms
  by (simp add: input_pins_def input_values_def B_START_IN_STATE_def B_STOP_IN_STATE_def B_EMERGENCY_IN_STATE_def
      B_PHOTO_1_IN_STATE_def B_PHOTO_2_IN_STATE_def B_PHOTO_3_IN_STATE_def B_PHOTO_4_IN_STATE_def
      B_PHOTO_5_IN_STATE_def B_RESET_IN_STATE_def B_STREAM_IN_STATE_def input_bit_def DIP_STATE_def read_input_bit)

lemma pin_level_set: "n < 16 \<Longrightarrow> pin_level p k (GPIO_SetBits q (GPIO_Pin n) s) = (p = q \<and> k = n \<or> pin_level p k s)"
  by (auto simp: pin_level_def GPIO_SetBits_def bit_or_iff bit_GPIO_Pin)

lemma pin_level_reset:
  "n < 16 \<Longrightarrow> pin_level p k (GPIO_ResetBits q (GPIO_Pin n) s) = (\<not> (p = q \<and> k = n) \<and> pin_level p k s)"
  by (auto simp: pin_level_def GPIO_ResetBits_def bit_and_iff bit_not_iff bit_GPIO_Pin dest: bit_imp_le_length)

lemma output_writes_pins:
  assumes "w \<in> set output_writes" "(p, k) \<notin> set output_pins"
  shows "pin_level p k (w v s) = pin_level p k s"
proof -
  have "\<not> (p = GPIOB \<and> k = 9)" "\<not> (p = GPIOE \<and> k = 0)" "\<not> (p = GPIOE \<and> k = Suc 0)" "\<not> (p = GPIOE \<and> k = 2)"
    "\<not> (p = GPIOE \<and> k = 3)" "\<not> (p = GPIOE \<and> k = 4)" "\<not> (p = GPIOE \<and> k = 5)" "\<not> (p = GPIOE \<and> k = 6)"
    "\<not> (p = GPIOD \<and> k = 4)" "\<not> (p = GPIOA \<and> k = 11)"
    using assms(2) by (simp_all add: output_pins_def)
  note k = this
  from assms(1) consider "w = B_RUN_1_OUT" | "w = B_RUN_2_OUT" | "w = B_RUN_3_OUT" | "w = B_RUN_4_OUT"
    | "w = B_RUN_5_OUT" | "w = B_STREAM_OUT" | "w = L_ALARM_OUT" | "w = B_RUN_STA_OUT" | "w = (\<lambda>_. LED_ON)"
    | "w = (\<lambda>_. LED_OFF)" | "w = (\<lambda>_. UART1_RX_485)" | "w = (\<lambda>_. UART1_TX_485)"
    unfolding output_writes_def by force
  then show ?thesis
    by cases (simp_all only: out_defs LED_ON_def LED_OFF_def UART1_RX_485_def UART1_TX_485_def,
        simp_all add: pin_level_write pin_level_set pin_level_reset k)
qed

lemma pin_modes:
  "list_all (\<lambda>(p, k). pin_mode (GPIO_Configuration b) p k = 0x4) input_pins"
  "list_all (\<lambda>(p, k). pin_mode (GPIO_Configuration b) p k = 0x3) output_pins"
  "pin_mode (GPIO_Configuration b) GPIOA 9 = 0xB" "pin_mode (GPIO_Configuration b) GPIOA 10 = 0x4"
  "pin_mode (GPIO_Configuration b) GPIOD 1 = 0xB" "pin_mode (GPIO_Configuration b) GPIOD 0 = 0x8"
  unfolding GPIO_Configuration_def Let_def
  by (simp_all add: pin_mode_pin_init gpio_mode_pin_init input_pins_def output_pins_def)

text \<open>The pins are set up for what the firmware does with them, whatever the port registers held
  before: the inputs read by the scan and by the address switches are floating inputs and the
  values read depend on no other pin; the belt outputs, the alarm, the LED and the RS-485 direction
  are push-pull outputs, and writing them changes no other pin; the serial and CAN lines have their
  transmitters on the alternate function and their receivers as inputs.\<close>

lemma pins_configured:
  "list_all (\<lambda>(p, k). pin_mode (GPIO_Configuration b) p k = 0x4) input_pins \<and>
   list_all (\<lambda>(p, k). pin_mode (GPIO_Configuration b) p k = 0x3) output_pins \<and>
   pin_mode (GPIO_Configuration b) GPIOA 9 = 0xB \<and> pin_mode (GPIO_Configuration b) GPIOA 10 = 0x4 \<and>
   pin_mode (GPIO_Configuration b) GPIOD 1 = 0xB \<and> pin_mode (GPIO_Configuration b) GPIOD 0 = 0x8 \<and>
   ((\<forall>(p, k) \<in> set input_pins. bit (IDR s p) k = bit (IDR t p) k) \<longrightarrow> input_values s = input_values t) \<and>
   (w \<in> set output_writes \<longrightarrow> (p, k) \<notin> set output_pins \<longrightarrow> pin_level p k (w v s) = pin_level p k s)"
  by (intro conjI impI pin_modes input_values_pins output_writes_pins)


lemma pins_configured_witness:
  "pin_mode (GPIO_Configuration reset_board) GPIOE 12 = 0x4 \<and>
   input_values (power_on\<lparr>IDR := \<lambda>_. 0\<rparr>) = input_values (power_on\<lparr>IDR := \<lambda>p. if p = GPIOE then 0x0001 else 0\<rparr>) \<and>
   pin_level GPIOE 7 (L_ALARM_OUT 1 power_on) = pin_level GPIOE 7 power_on"
proof -
  let ?s = "power_on\<lparr>IDR := \<lambda>_. 0\<rparr>" and ?t = "power_on\<lparr>IDR := \<lambda>p. if p = GPIOE then 0x0001 else 0\<rparr>"
  note p = pins_configured [of reset_board ?s ?t] pins_configured [of _ power_on _ L_ALARM_OUT GPIOE 7 1]
  have "\<forall>(p, k) \<in> set input_pins. bit (IDR ?s p) k = bit (IDR ?t p) k" by (simp add: input_pins_def)
  with p show ?thesis by (simp add: input_pins_def output_writes_def output_pins_def)
qed


section \<open>The state after start-up\<close>

text \<open>The same board but for the pins.\<close>

definition pins_only :: "board \<Rightarrow> board \<Rightarrow> bool" where
  "pins_only b t \<longleftrightarrow> t\<lparr>GPIO_CRL := GPIO_CRL b, GPIO_CRH := GPIO_CRH b, GPIO_ODR := GPIO_ODR b, AFIO_MAPR := AFIO_MAPR b\<rparr> = b"

lemma pins_only_eq:
  "pins_only b t \<Longrightarrow> t = b\<lparr>GPIO_CRL := GPIO_CRL t, GPIO_CRH := GPIO_CRH t, GPIO_ODR := GPIO_ODR t, AFIO_MAPR := AFIO_MAPR t\<rparr>"
  unfolding pins_only_def by (erule subst) simp

lemma pins_only_refl: "pins_only b b"
  by (simp add: pins_only_def)

lemma pins_only_Init: "pins_only b t \<Longrightarrow> pins_only b (GPIO_Init p i t)"
  unfolding pins_only_def GPIO_Init_def Let_def by (simp split: prod.split)

lemma pins_only_remap: "pins_only b t \<Longrightarrow> pins_only b (GPIO_PinRemapConfig r en t)"
  unfolding pins_only_def GPIO_PinRemapConfig_def Let_def by simp

lemma GPIO_Configuration_pins: "pins_only b (GPIO_Configuration b)"
  unfolding GPIO_Configuration_def Let_def by (intro pins_only_remap pins_only_Init pins_only_refl)

definition registers_ok :: "board \<Rightarrow> bool" where
  "registers_ok b \<longleftrightarrow> length (SCB_SHP b) = 12 \<and> length (NVIC_IP b) = 240 \<and> length (NVIC_ISER b) = 8 \<and>
     length (CAN_FR1 b) = 28 \<and> length (CAN_FR2 b) = 28"

lemma NVIC_Configuration_ok:
  assumes "registers_ok b"
  shows "NVIC_Configuration iap b = Some (b\<lparr>SCB_VTOR := (if iap then 0x08010000 else 0x08000000),
    SCB_AIRCR := 0x05FA0500, NVIC_IP := (NVIC_IP b)[61 := 0x80, 37 := 0x10, 20 := 0x10],
    NVIC_ISER := (NVIC_ISER b)[1 := NVIC_ISER b ! 1 OR 0x20000020, 0 := NVIC_ISER b ! 0 OR 0x00100000]\<rparr>)"
  using assms
  by (cases "NVIC_ISER b") (simp_all add: NVIC_Configuration_def NVIC_SetVectorTable_def NVIC_PriorityGroupConfig_def NVIC_Init_def Let_def
      registers_ok_def idx_def upd_def or.assoc)

lemma RCC_GetClocksFreq_cong:
  "RCC_CFGR t = RCC_CFGR b \<Longrightarrow> RCC_CFGR2 t = RCC_CFGR2 b \<Longrightarrow> RCC_SWS t = RCC_SWS b \<Longrightarrow>
     RCC_GetClocksFreq t = RCC_GetClocksFreq b"
  by (simp add: RCC_GetClocksFreq_def read_CFGR_def)

lemma USART_Configuration_ok:
  assumes "RCC_GetClocksFreq b = Some c" "PCLK2_Frequency c = 72000000"
  shows "USART_Configuration b = Some (b\<lparr>USART_CR1 := (USART_CR1 b AND 0xE9F3) OR 0x202C,
    USART_CR2 := USART_CR2 b AND 0xCFFF, USART_CR3 := USART_CR3 b AND 0xFCFF, USART_BRR := 7500\<rparr>)"
proof -
  have "RCC_GetClocksFreq (b\<lparr>USART_CR2 := x, USART_CR1 := y, USART_CR3 := z\<rparr>) = Some c" for x y z
    using assms(1) RCC_GetClocksFreq_cong [of "b\<lparr>USART_CR2 := x, USART_CR1 := y, USART_CR3 := z\<rparr>" b] by simp
  with assms(2) show ?thesis
    by (simp add: USART_Configuration_def USART_Init_def USART_Cmd_def USART_ITConfig_def Let_def usart_brr_def or.assoc)
qed

text \<open>The CAN controller acknowledges the request for the initialisation mode within the time-out,
  and the request to leave it within the time-out.\<close>

definition can_acknowledges :: "board \<Rightarrow> bool" where
  "can_acknowledges b \<longleftrightarrow> (\<exists>i < 0x10000. \<exists>j < 0x10000. \<forall>m \<ge> msr_reads b.
     (hw_MSR b m AND 1 = 1) = (msr_reads b + i \<le> m \<and> m < msr_reads b + i + 2 + j))"

lemma wait_at_most_first:
  "(\<And>m. n \<le> m \<Longrightarrow> m < n + j \<Longrightarrow> \<not> p m) \<Longrightarrow> p (n + j) \<Longrightarrow> j < k \<Longrightarrow> wait_at_most k p n = Suc (n + j)"
proof (induction k arbitrary: n j)
  case (Suc k)
  then show ?case
    using Suc.IH [of "Suc n" "j - 1"] by (cases j) auto
qed simp

lemma CAN_Init_ok:
  assumes "can_acknowledges b"
  shows "\<exists>n. CAN_Init can_parameters b =
    (CANINITOK, b\<lparr>CAN_MCR := (CAN_MCR b AND NOT 0xBB) OR 0x44, msr_reads := n, CAN_BTR := 0x001C0011\<rparr>)"
proof -
  from assms obtain i j where ij: "i < 0x10000" "j < 0x10000"
    and ack: "\<And>m. msr_reads b \<le> m \<Longrightarrow> (hw_MSR b m AND 1 = 1) = (msr_reads b + i \<le> m \<and> m < msr_reads b + i + 2 + j)"
    unfolding can_acknowledges_def by blast
  let ?inak = "\<lambda>n. hw_MSR b n AND 1 = 1"
  have w1: "wait_at_most 0x10000 ?inak (msr_reads b) = Suc (msr_reads b + i)"
    by (rule wait_at_most_first) (auto simp: ack ij)
  have w2: "wait_at_most 0x10000 (\<lambda>n. \<not> ?inak n) (Suc (Suc (msr_reads b + i))) = Suc (Suc (Suc (msr_reads b + i)) + j)"
    by (rule wait_at_most_first) (auto simp: ack ij)
  have r: "?inak (Suc (msr_reads b + i))" "\<not> ?inak (Suc (Suc (Suc (msr_reads b + i)) + j))" by (simp_all add: ack)
  have mcr: "(((((((((m AND NOT 2) OR 1) AND NOT 0x80) OR 0x40) AND NOT 0x20) AND NOT 0x10) AND NOT 8) OR 4) AND NOT 1) =
      (m AND NOT 0xBB) OR 0x44" for m :: u32
    by (simp add: bit.conj_disj_distrib2 and.assoc or.assoc)
  show ?thesis
    using w1 w2 r mcr [of "CAN_MCR b"]
    by (intro exI [of _ "Suc (Suc (Suc (Suc (msr_reads b + i + j))))"])
      (simp add: CAN_Init_def can_parameters_def CAN_StructInit_def mcr_flag_def can_btr_def Let_def)
qed

text \<open>Without an acknowledge the failure is reported, but the bit timing is not set and the
  controller is left in the requested initialisation mode.\<close>

lemma CAN_Init_fails:
  assumes "\<forall>m. hw_MSR b m AND 1 = 0"
  shows "CAN_Init i b = (CANINITFAILED, b\<lparr>CAN_MCR := (CAN_MCR b AND NOT 2) OR 1,
    msr_reads := Suc (msr_reads b + 0x10000)\<rparr>)"
  using assms wait_at_most_never [of "\<lambda>n. hw_MSR b n AND 1 = 1" "0x10000" "msr_reads b"]
  by (simp add: CAN_Init_def mcr_flag_def Let_def)


lemma CAN_FilterInit_accept_all:
  assumes "registers_ok b"
  shows "CAN_FilterInit \<lparr>CAN_FilterIdHigh = 0, CAN_FilterIdLow = 0, CAN_FilterMaskIdHigh = 0,
       CAN_FilterMaskIdLow = 0, CAN_FilterFIFOAssignment = 0, CAN_FilterNumber = 0, CAN_FilterMode = 0,
       CAN_FilterScale = 1, CAN_FilterActivation = True\<rparr> b = Some (b\<lparr>CAN_FMR := CAN_FMR b AND NOT 1,
       CAN_FA1R := CAN_FA1R b OR 1, CAN_FS1R := CAN_FS1R b OR 1,
       CAN_FM1R := CAN_FM1R b AND NOT 1, CAN_FFA1R := CAN_FFA1R b AND NOT 1,
       CAN_FR1 := (CAN_FR1 b)[0 := 0], CAN_FR2 := (CAN_FR2 b)[0 := 0]\<rparr>)"
proof -
  have l: "upd (CAN_FR1 b) 0 v = Some ((CAN_FR1 b)[0 := v])" "upd (CAN_FR2 b) 0 v = Some ((CAN_FR2 b)[0 := v])" for v
    using assms by (simp_all add: registers_ok_def upd_Some)
  have w: "((x OR 1) AND NOT 1 :: u32) = x AND NOT 1" "((x AND NOT 1) OR 1 :: u32) = x OR 1" for x
    by (simp_all add: bit.conj_disj_distrib2 bit.disj_conj_distrib2)
  show ?thesis using w by (simp add: CAN_FilterInit_def Let_def l)
qed

text \<open>The CAN registers after the configuration, with what \<open>CAN_Init\<close> left in \<open>MCR\<close> and \<open>BTR\<close>.\<close>

definition can_set :: "u32 \<Rightarrow> u32 \<Rightarrow> nat \<Rightarrow> board \<Rightarrow> board" where
  "can_set mcr btr n b = b\<lparr>RCC_APB1RSTR := RCC_APB1RSTR b AND NOT 0x02000000,
     CAN_MCR := mcr, msr_reads := n, CAN_BTR := btr,
     CAN_FMR := CAN_FMR b AND NOT 1, CAN_FA1R := CAN_FA1R b OR 1, CAN_FS1R := CAN_FS1R b OR 1,
     CAN_FM1R := CAN_FM1R b AND NOT 1, CAN_FFA1R := CAN_FFA1R b AND NOT 1,
     CAN_FR1 := (CAN_FR1 b)[0 := 0], CAN_FR2 := (CAN_FR2 b)[0 := 0], CAN_IER := CAN_IER b OR 2\<rparr>"

lemma CAN_Configuration_set:
  assumes "registers_ok b"
    and init: "snd (CAN_Init can_parameters (CAN_DeInit True b)) =
      (CAN_DeInit True b)\<lparr>CAN_MCR := mcr, msr_reads := n, CAN_BTR := btr\<rparr>"
  shows "CAN_Configuration b = Some (can_set mcr btr n b)"
proof -
  let ?b = "CAN_DeInit True b"
  have d: "?b = b\<lparr>RCC_APB1RSTR := RCC_APB1RSTR b AND NOT 0x02000000\<rparr>"
    by (simp add: CAN_DeInit_def RCC_APB1PeriphResetCmd_def bit.conj_disj_distrib2)
  have r: "registers_ok (?b\<lparr>CAN_MCR := mcr, msr_reads := n, CAN_BTR := btr\<rparr>)"
    using assms(1) by (simp add: d registers_ok_def)
  show ?thesis
    unfolding CAN_Configuration_def Let_def split_def init CAN_FilterInit_accept_all [OF r]
    unfolding CAN_ITConfig_def d can_set_def by simp
qed

lemma CAN_DeInit_frame:
  "hw_MSR (CAN_DeInit c b) = hw_MSR b" "msr_reads (CAN_DeInit c b) = msr_reads b"
  "CAN_MCR (CAN_DeInit c b) = CAN_MCR b" "CAN_BTR (CAN_DeInit c b) = CAN_BTR b"
  by (simp_all add: CAN_DeInit_def RCC_APB1PeriphResetCmd_def Let_def)

lemma CAN_Configuration_ok:
  assumes "registers_ok b" "can_acknowledges b"
  shows "\<exists>n. CAN_Configuration b = Some (can_set ((CAN_MCR b AND NOT 0xBB) OR 0x44) 0x001C0011 n b)"
proof -
  have "can_acknowledges (CAN_DeInit True b)"
    using assms(2) unfolding can_acknowledges_def CAN_DeInit_frame .
  from CAN_Init_ok [OF this] obtain n where
    "snd (CAN_Init can_parameters (CAN_DeInit True b)) = (CAN_DeInit True b)\<lparr>CAN_MCR := (CAN_MCR b AND NOT 0xBB) OR 0x44,
       msr_reads := n, CAN_BTR := 0x001C0011\<rparr>" by (auto simp: CAN_DeInit_frame)
  with CAN_Configuration_set [OF assms(1)] show ?thesis by blast
qed

lemma CAN_Configuration_fails:
  assumes "registers_ok b" "\<forall>m. hw_MSR b m AND 1 = 0"
  shows "\<exists>n. CAN_Configuration b = Some (can_set ((CAN_MCR b AND NOT 2) OR 1) (CAN_BTR b) n b)"
proof -
  have "snd (CAN_Init can_parameters (CAN_DeInit True b)) = (CAN_DeInit True b)\<lparr>CAN_MCR := (CAN_MCR b AND NOT 2) OR 1,
       msr_reads := Suc (msr_reads b + 0x10000), CAN_BTR := CAN_BTR b\<rparr>"
    using CAN_Init_fails [of "CAN_DeInit True b"] assms(2)
    by (simp add: CAN_DeInit_def RCC_APB1PeriphResetCmd_def Let_def)
  with CAN_Configuration_set [OF assms(1)] show ?thesis by blast
qed

lemma encoder_timer:
  "TIM_Cmd True (TIM_SetCounter 0 (TIM_ICInit (TIM_ICStructInit\<lparr>TIM_ICFilter := 6\<rparr>)
     (TIM_EncoderInterfaceConfig 3 0 0 (TIM_TimeBaseInit \<lparr>TIM_Prescaler = 0, TIM_CounterMode = 0,
        TIM_Period = 0xFFFF, TIM_ClockDivision = 0, TIM_RepetitionCounter = rep\<rparr> t)))) =
   t\<lparr>TIM1_CR1 := (TIM1_CR1 t AND 0x8F) OR 1, TIM1_ARR := 0xFFFF, TIM1_PSC := 0, TIM1_RCR := ucast rep, TIM1_EGR := 1,
     TIM1_SMCR := (TIM1_SMCR t AND 0xFFF8) OR 3, TIM1_CCMR1 := (TIM1_CCMR1 t AND 0xFC00) OR 0x0161,
     TIM1_CCER := (TIM1_CCER t AND 0xFFDC) OR 1, TIM1_CNT := 0\<rparr>"
  by (simp add: TIM_Cmd_def TIM_SetCounter_def TIM_ICInit_def TIM_ICStructInit_def TIM_EncoderInterfaceConfig_def
      TIM_TimeBaseInit_def TI1_Config_def TIM_SetIC1Prescaler_def Let_def bit.conj_disj_distrib2 and.assoc or.assoc)

definition encoder_set :: "u8 \<Rightarrow> board \<Rightarrow> board" where
  "encoder_set rep t = t\<lparr>RCC_APB2ENR := RCC_APB2ENR t OR 0x800,
     TIM1_CR1 := (TIM1_CR1 t AND 0x8F) OR 1, TIM1_ARR := 0xFFFF, TIM1_PSC := 0, TIM1_RCR := ucast rep, TIM1_EGR := 1,
     TIM1_SMCR := (TIM1_SMCR t AND 0xFFF8) OR 3, TIM1_CCMR1 := (TIM1_CCMR1 t AND 0xFC00) OR 0x0161,
     TIM1_CCER := (TIM1_CCER t AND 0xFFDC) OR 1, TIM1_CNT := 0\<rparr>"

lemma Encoder_Init_ok: "\<exists>t. pins_only b t \<and> Encoder_Init rep b = encoder_set rep t"
proof -
  let ?b = "RCC_APB2PeriphClockCmd 0x00000800 True b"
  define t where "t = GPIO_Init GPIOE (pin_init [9, 11] GPIO_Mode_IN_FLOATING) (GPIO_PinRemapConfig 0x001600C0 True ?b)"
  have "pins_only ?b t" unfolding t_def by (intro pins_only_remap pins_only_Init pins_only_refl)
  from pins_only_eq [OF this] obtain l h d m
    where t: "t = b\<lparr>RCC_APB2ENR := RCC_APB2ENR b OR 0x800, GPIO_CRL := l, GPIO_CRH := h, GPIO_ODR := d, AFIO_MAPR := m\<rparr>"
    by (simp add: RCC_APB2PeriphClockCmd_def)
  have "Encoder_Init rep b = TIM_Cmd True (TIM_SetCounter 0 (TIM_ICInit (TIM_ICStructInit\<lparr>TIM_ICFilter := 6\<rparr>)
     (TIM_EncoderInterfaceConfig 3 0 0 (TIM_TimeBaseInit \<lparr>TIM_Prescaler = 0, TIM_CounterMode = 0,
        TIM_Period = 0xFFFF, TIM_ClockDivision = 0, TIM_RepetitionCounter = rep\<rparr> t))))"
    unfolding Encoder_Init_def Let_def t_def ..
  then show ?thesis unfolding encoder_timer
    by (intro exI [of _ "b\<lparr>GPIO_CRL := l, GPIO_CRH := h, GPIO_ODR := d, AFIO_MAPR := m\<rparr>"])
      (simp add: encoder_set_def t pins_only_def)
qed

lemma clock_gates_eq:
  "clock_gates b = b\<lparr>RCC_APB1ENR := RCC_APB1ENR b OR 0x1A000000, RCC_AHBENR := RCC_AHBENR b OR 0x1C003,
     RCC_APB2ENR := RCC_APB2ENR b OR 0x407D\<rparr>"
  by (simp add: clock_gates_def RCC_APB1PeriphClockCmd_def RCC_AHBPeriphClockCmd_def RCC_APB2PeriphClockCmd_def)

lemma SysTick_1ms:
  assumes "length (SCB_SHP b) = 12"
  shows "(SysTick_Config 72000 b \<bind> (\<lambda>(_, b). NVIC_SetPriority SysTick_IRQn 0 b)) =
    Some (b\<lparr>SysTick_LOAD := 71999, SCB_SHP := (SCB_SHP b)[11 := 0], SysTick_VAL := 0, SysTick_CTRL := 7\<rparr>)"
  using assms by (simp add: SysTick_Config_def NVIC_SetPriority_def Let_def upd_def)

lemma same_but_clocksD:
  assumes "same_but_clocks b t"
  shows "t = b\<lparr>RCC_CR := RCC_CR t, RCC_CFGR := RCC_CFGR t, RCC_CFGR2 := RCC_CFGR2 t, RCC_CIR := RCC_CIR t,
    FLASH_ACR := FLASH_ACR t, rcc_reads := rcc_reads t, RCC_SWS := RCC_SWS t\<rparr>"
  using assms unfolding same_but_clocks_def by (rule subst) simp

text \<open>Start-up in two halves: up to the serial line, and from the CAN controller on.\<close>

definition setup_lines :: "bool \<Rightarrow> board \<Rightarrow> board option" where
  "setup_lines iap b = do {
     b \<leftarrow> SystemInit b;
     b \<leftarrow> NVIC_Configuration iap (clock_gates b);
     USART_Configuration (GPIO_Configuration b)
   }"

definition setup_rest :: "u8 \<Rightarrow> board \<Rightarrow> board option" where
  "setup_rest rep b = do {
     b \<leftarrow> CAN_Configuration b;
     let b = PWR_BackupAccessCmd True (Encoder_Init rep b);
     c \<leftarrow> RCC_GetClocksFreq b;
     (_, b) \<leftarrow> SysTick_Config (SYSCLK_Frequency c div 1000) b;
     NVIC_SetPriority SysTick_IRQn 0 b
   }"

lemma System_Setup_halves: "System_Setup iap rep b = setup_lines iap b \<bind> setup_rest rep"
  by (simp add: System_Setup_def setup_lines_def setup_rest_def [abs_def] Let_def Option.bind_assoc)

lemma setup_lines_ok:
  assumes "oscillators_start b" "registers_ok b"
  shows "\<exists>t c. setup_lines iap b = Some t \<and> RCC_GetClocksFreq t = Some c \<and> SYSCLK_Frequency c = 72000000 \<and>
    HCLK_Frequency c = 72000000 \<and> PCLK1_Frequency c = 36000000 \<and> PCLK2_Frequency c = 72000000 \<and> registers_ok t \<and>
    hw_MSR t = hw_MSR b \<and> msr_reads t = msr_reads b \<and> CAN_MCR t = CAN_MCR b \<and> CAN_BTR t = CAN_BTR b \<and>
    USART_BRR t = 7500 \<and> USART_CR1 t = (USART_CR1 b AND 0xE9F3) OR 0x202C \<and> CAN_FA1R t = CAN_FA1R b \<and>
    CAN_FS1R t = CAN_FS1R b \<and> CAN_FM1R t = CAN_FM1R b \<and> CAN_FFA1R t = CAN_FFA1R b \<and>
    CAN_IER t = CAN_IER b \<and> NVIC_IP t = (NVIC_IP b)[61 := 0x80, 37 := 0x10, 20 := 0x10] \<and>
    NVIC_ISER t = (NVIC_ISER b)[1 := NVIC_ISER b ! 1 OR 0x20000020, 0 := NVIC_ISER b ! 0 OR 0x00100000] \<and>
    TIM1_SMCR t = TIM1_SMCR b \<and> TIM1_CR1 t = TIM1_CR1 b"
proof -
  obtain t0 where t0: "SystemInit b = Some t0" "same_but_clocks b t0"
    and x: "RCC_CFGR t0 = RCC_CFGR b AND 0xF0800000 OR 0x001D0402" "RCC_CFGR2 t0 = 0x00010644" "RCC_SWS t0 = 0x8"
    using SystemInit_clocks [OF assms(1)] by blast
  obtain c where c: "RCC_GetClocksFreq t0 = Some c" "SYSCLK_Frequency c = 72000000" "HCLK_Frequency c = 72000000"
    "PCLK1_Frequency c = 36000000" "PCLK2_Frequency c = 72000000" using clocks_72 [OF x] by blast
  obtain v1 v2 v3 v4 v5 v6 v7 where v: "t0 = b\<lparr>RCC_CR := v1, RCC_CFGR := v2, RCC_CFGR2 := v3, RCC_CIR := v4,
    FLASH_ACR := v5, rcc_reads := v6, RCC_SWS := v7\<rparr>" using same_but_clocksD [OF t0(2)] by blast
  obtain b1 where g: "b1 = clock_gates t0" by blast
  then have b1: "registers_ok b1" using assms(2) by (simp add: registers_ok_def clock_gates_eq v)
  obtain b2 where b2: "b2 = b1\<lparr>SCB_VTOR := (if iap then 0x08010000 else 0x08000000),
    SCB_AIRCR := 0x05FA0500, NVIC_IP := (NVIC_IP b1)[61 := 0x80, 37 := 0x10, 20 := 0x10],
    NVIC_ISER := (NVIC_ISER b1)[1 := NVIC_ISER b1 ! 1 OR 0x20000020, 0 := NVIC_ISER b1 ! 0 OR 0x00100000]\<rparr>" by blast
  have nv: "NVIC_Configuration iap b1 = Some b2" unfolding b2 by (rule NVIC_Configuration_ok [OF b1])
  obtain b3 x1 x2 x3 x4 where gp: "GPIO_Configuration b2 = b3"
    and b3: "b3 = b2\<lparr>GPIO_CRL := x1, GPIO_CRH := x2, GPIO_ODR := x3, AFIO_MAPR := x4\<rparr>"
    using pins_only_eq [OF GPIO_Configuration_pins] by blast
  obtain b4 where b4: "b4 = b3\<lparr>USART_CR1 := (USART_CR1 b3 AND 0xE9F3) OR 0x202C,
    USART_CR2 := USART_CR2 b3 AND 0xCFFF, USART_CR3 := USART_CR3 b3 AND 0xFCFF, USART_BRR := 7500\<rparr>" by blast
  note eqs = b3 b2 g clock_gates_eq v
  have clk: "RCC_GetClocksFreq u = Some c" if "u = b3 \<or> u = b4" for u
    using c(1) RCC_GetClocksFreq_cong [of u t0] that by (auto simp: b4 eqs)
  have us: "USART_Configuration b3 = Some b4" unfolding b4 using USART_Configuration_ok [OF clk c(5)] by simp
  have "registers_ok b4" using b1 by (simp add: b4 b3 b2 registers_ok_def)
  moreover have "setup_lines iap b = Some b4" by (simp add: setup_lines_def t0(1) g [symmetric] nv gp us)
  ultimately show ?thesis using c(2-5) clk by (intro exI [of _ b4] exI [of _ c] conjI) (simp_all add: b4 eqs)
qed

lemma setup_rest_ok:
  assumes can: "CAN_Configuration b = Some (can_set mcr btr n b)" and "registers_ok b"
    and c: "RCC_GetClocksFreq b = Some c" "SYSCLK_Frequency c = 72000000"
  shows "\<exists>t. setup_rest rep b = Some t \<and> RCC_GetClocksFreq t = Some c \<and> SysTick_LOAD t = 71999 \<and> SysTick_CTRL t = 7 \<and>
    SCB_SHP t ! 11 = 0 \<and> USART_BRR t = USART_BRR b \<and> USART_CR1 t = USART_CR1 b \<and> CAN_MCR t = mcr \<and> CAN_BTR t = btr \<and>
    CAN_FA1R t = CAN_FA1R b OR 1 \<and> CAN_FS1R t = CAN_FS1R b OR 1 \<and> CAN_FM1R t = CAN_FM1R b AND NOT 1 \<and>
    CAN_FFA1R t = CAN_FFA1R b AND NOT 1 \<and> CAN_FR2 t ! 0 = 0 \<and> CAN_IER t = CAN_IER b OR 2 \<and>
    NVIC_IP t = NVIC_IP b \<and> NVIC_ISER t = NVIC_ISER b \<and>
    TIM1_SMCR t = (TIM1_SMCR b AND 0xFFF8) OR 3 \<and> TIM1_CR1 t = (TIM1_CR1 b AND 0x8F) OR 1"
proof -
  let ?b = "can_set mcr btr n b"
  obtain u y1 y2 y3 y4 where u: "u = ?b\<lparr>GPIO_CRL := y1, GPIO_CRH := y2, GPIO_ODR := y3, AFIO_MAPR := y4\<rparr>"
    and en: "Encoder_Init rep ?b = encoder_set rep u"
    using Encoder_Init_ok [of ?b rep] by (blast dest: pins_only_eq)
  obtain v where v: "v = PWR_BackupAccessCmd True (encoder_set rep u)" by blast
  note eqs = PWR_BackupAccessCmd_def encoder_set_def can_set_def
  have k: "RCC_GetClocksFreq v = Some c"
    using c(1) RCC_GetClocksFreq_cong [of v b] by (simp add: v u eqs)
  have l: "length (SCB_SHP v) = 12" using assms(2) by (simp add: v u eqs registers_ok_def)
  let ?t = "v\<lparr>SysTick_LOAD := 71999, SCB_SHP := (SCB_SHP v)[11 := 0], SysTick_VAL := 0, SysTick_CTRL := 7\<rparr>"
  have "setup_rest rep b = Some ?t"
    using SysTick_1ms [OF l] by (simp add: setup_rest_def Let_def can en v [symmetric] k c(2))
  moreover have "RCC_GetClocksFreq ?t = Some c" using k RCC_GetClocksFreq_cong [of ?t v] by simp
  moreover have "length (CAN_FR2 b) = 28" using assms(2) by (simp add: registers_ok_def)
  ultimately show ?thesis using l by (intro exI [of _ ?t] conjI) (simp_all add: v u eqs)
qed

text \<open>What start-up leaves behind, given the outcome of the CAN initialisation.\<close>

lemma System_Setup_ends:
  assumes "oscillators_start b" "registers_ok b"
    and can: "\<And>u. registers_ok u \<Longrightarrow> hw_MSR u = hw_MSR b \<Longrightarrow> msr_reads u = msr_reads b \<Longrightarrow> CAN_MCR u = CAN_MCR b \<Longrightarrow>
      CAN_BTR u = CAN_BTR b \<Longrightarrow> \<exists>n. CAN_Configuration u = Some (can_set mcr btr n u)"
  shows "\<exists>t c. System_Setup iap rep b = Some t \<and> RCC_GetClocksFreq t = Some c \<and>
    HCLK_Frequency c = 72000000 \<and> PCLK1_Frequency c = 36000000 \<and> PCLK2_Frequency c = 72000000 \<and>
    SysTick_LOAD t = 71999 \<and> SysTick_CTRL t = 7 \<and>
    USART_BRR t = 7500 \<and> USART_CR1 t = (USART_CR1 b AND 0xE9F3) OR 0x202C \<and>
    CAN_MCR t = mcr \<and> CAN_BTR t = btr \<and> CAN_FA1R t = CAN_FA1R b OR 1 \<and> CAN_FS1R t = CAN_FS1R b OR 1 \<and>
    CAN_FM1R t = CAN_FM1R b AND NOT 1 \<and> CAN_FFA1R t = CAN_FFA1R b AND NOT 1 \<and> CAN_FR2 t ! 0 = 0 \<and>
    CAN_IER t = CAN_IER b OR 2 \<and>
    NVIC_IP t = (NVIC_IP b)[61 := 0x80, 37 := 0x10, 20 := 0x10] \<and> SCB_SHP t ! 11 = 0 \<and>
    NVIC_ISER t = (NVIC_ISER b)[1 := NVIC_ISER b ! 1 OR 0x20000020, 0 := NVIC_ISER b ! 0 OR 0x00100000] \<and>
    TIM1_SMCR t = (TIM1_SMCR b AND 0xFFF8) OR 3 \<and> TIM1_CR1 t = (TIM1_CR1 b AND 0x8F) OR 1"
proof -
  obtain b4 c where b4: "setup_lines iap b = Some b4" "RCC_GetClocksFreq b4 = Some c" "SYSCLK_Frequency c = 72000000"
    "HCLK_Frequency c = 72000000" "PCLK1_Frequency c = 36000000" "PCLK2_Frequency c = 72000000" "registers_ok b4"
    and f: "hw_MSR b4 = hw_MSR b" "msr_reads b4 = msr_reads b" "CAN_MCR b4 = CAN_MCR b" "CAN_BTR b4 = CAN_BTR b"
    "USART_BRR b4 = 7500" "USART_CR1 b4 = (USART_CR1 b AND 0xE9F3) OR 0x202C" "CAN_FA1R b4 = CAN_FA1R b"
    "CAN_FS1R b4 = CAN_FS1R b" "CAN_FM1R b4 = CAN_FM1R b" "CAN_FFA1R b4 = CAN_FFA1R b"
    "CAN_IER b4 = CAN_IER b" "NVIC_IP b4 = (NVIC_IP b)[61 := 0x80, 37 := 0x10, 20 := 0x10]"
    "NVIC_ISER b4 = (NVIC_ISER b)[1 := NVIC_ISER b ! 1 OR 0x20000020, 0 := NVIC_ISER b ! 0 OR 0x00100000]"
    "TIM1_SMCR b4 = TIM1_SMCR b" "TIM1_CR1 b4 = TIM1_CR1 b"
    using setup_lines_ok [OF assms(1,2)] by blast
  obtain n where "CAN_Configuration b4 = Some (can_set mcr btr n b4)" using can [OF b4(7) f(1-4)] by blast
  from setup_rest_ok [OF this b4(7) b4(2,3), of rep] b4(1,4-6) show ?thesis
    unfolding f System_Setup_halves by auto
qed

lemma usart_cr1_bits: "(x AND 0x2020) OR 0x202C = (0x202C :: u16)"
proof -
  have "(0x202C :: u16) = 0x2020 OR 0xC" by simp
  then have "(x AND 0x2020) OR 0x202C = ((x AND 0x2020) OR 0x2020) OR 0xC" by (simp only: or.assoc)
  also have "(x AND 0x2020) OR 0x2020 = 0x2020" by (rule word_ao_absorbs)
  finally show ?thesis by simp
qed

lemma can_mcr_low: "((m AND NOT 0xBB) OR 0x44) AND 0xFF = (0x44 :: u32)"
  by (simp add: bit.conj_disj_distrib2 and.assoc)

text \<open>C39. On a board whose oscillators start and whose CAN controller answers, start-up ends, and what
  it leaves in the registers is what the rest of the firmware relies on: the tick comes every
  millisecond; the serial line runs at 9600 baud, eight bits without parity, with the receive
  interrupt on; the CAN bus runs at 125 kbit/s with automatic bus-off recovery, retransmission and
  mailboxes sent in the order of the requests, out of the initialisation mode, and filter 0 accepts every frame into
  FIFO 0, with its interrupt on; tick, serial and CAN handlers have the same pre-emption level, so that
  none of them interrupts another, and the Ethernet handler a lower one.\<close>

theorem system_setup_timing:
  assumes "oscillators_start b" "registers_ok b" "can_acknowledges b"
  shows "\<exists>t c. System_Setup iap rep b = Some t \<and> RCC_GetClocksFreq t = Some c \<and>
    (unat (SysTick_LOAD t) + 1) * 1000 = unat (HCLK_Frequency c) \<and> SysTick_CTRL t = 7 \<and>
    unat (USART_BRR t) * 9600 = unat (PCLK2_Frequency c) \<and> USART_CR1 t AND 0x342C = 0x202C \<and>
    125000 * (unat (CAN_BTR t AND 0x3FF) + 1) * (3 + unat (drop_bit 16 (CAN_BTR t) AND 0xF) +
      unat (drop_bit 20 (CAN_BTR t) AND 0x7)) = unat (PCLK1_Frequency c) \<and>
    CAN_MCR t AND 0xFF = 0x44 \<and> bit (CAN_FA1R t) 0 \<and> bit (CAN_FS1R t) 0 \<and> \<not> bit (CAN_FM1R t) 0 \<and> \<not> bit (CAN_FFA1R t) 0 \<and>
    CAN_FR2 t ! 0 = 0 \<and> CAN_IER t AND 2 = 2 \<and>
    drop_bit 6 (SCB_SHP t ! 11) = 0 \<and> drop_bit 6 (NVIC_IP t ! 37) = 0 \<and> drop_bit 6 (NVIC_IP t ! 20) = 0 \<and>
    drop_bit 6 (NVIC_IP t ! 61) = 2 \<and> bit (NVIC_ISER t ! 1) 5 \<and> bit (NVIC_ISER t ! 0) 20 \<and>
    TIM1_SMCR t AND 7 = 3 \<and> TIM1_CR1 t AND 1 = 1"
proof -
  have "\<exists>n. CAN_Configuration u = Some (can_set ((CAN_MCR b AND NOT 0xBB) OR 0x44) 0x001C0011 n u)"
    if "registers_ok u" "hw_MSR u = hw_MSR b" "msr_reads u = msr_reads b" "CAN_MCR u = CAN_MCR b" for u
    using CAN_Configuration_ok [OF that(1)] assms(3) that(2-4) by (simp add: can_acknowledges_def)
  from System_Setup_ends [OF assms(1,2) this, of iap rep] obtain t c where
    t: "System_Setup iap rep b = Some t" "RCC_GetClocksFreq t = Some c"
    and f: "HCLK_Frequency c = 72000000" "PCLK1_Frequency c = 36000000" "PCLK2_Frequency c = 72000000"
    "SysTick_LOAD t = 71999" "SysTick_CTRL t = 7" "USART_BRR t = 7500" "USART_CR1 t = (USART_CR1 b AND 0xE9F3) OR 0x202C"
    "CAN_MCR t = (CAN_MCR b AND NOT 0xBB) OR 0x44" "CAN_BTR t = 0x001C0011" "CAN_FA1R t = CAN_FA1R b OR 1"
    "CAN_FS1R t = CAN_FS1R b OR 1" "CAN_FM1R t = CAN_FM1R b AND NOT 1" "CAN_FFA1R t = CAN_FFA1R b AND NOT 1"
    "CAN_FR2 t ! 0 = 0" "CAN_IER t = CAN_IER b OR 2" "SCB_SHP t ! 11 = 0"
    "NVIC_IP t = (NVIC_IP b)[61 := 0x80, 37 := 0x10, 20 := 0x10]"
    "NVIC_ISER t = (NVIC_ISER b)[1 := NVIC_ISER b ! 1 OR 0x20000020, 0 := NVIC_ISER b ! 0 OR 0x00100000]"
    "TIM1_SMCR t = (TIM1_SMCR b AND 0xFFF8) OR 3" "TIM1_CR1 t = (TIM1_CR1 b AND 0x8F) OR 1" by blast
  have w: "NVIC_ISER t ! 1 = NVIC_ISER b ! 1 OR 0x20000020" "NVIC_ISER t ! 0 = NVIC_ISER b ! 0 OR 0x00100000"
    "NVIC_IP t ! 37 = 0x10" "NVIC_IP t ! 20 = 0x10" "NVIC_IP t ! 61 = 0x80"
    using assms(2) by (simp_all add: f(17,18) registers_ok_def nth_list_update)
  have "USART_CR1 t AND 0x342C = 0x202C" "CAN_IER t AND 2 = 2" "TIM1_SMCR t AND 7 = 3" "TIM1_CR1 t AND 1 = 1"
    by (simp_all only: f(7,15,19,20)) (simp_all add: usart_cr1_bits bit.conj_disj_distrib2 and.assoc)
  moreover have "bit (NVIC_ISER t ! 1) 5" "bit (NVIC_ISER t ! 0) 20" "bit (CAN_FA1R t) 0" "bit (CAN_FS1R t) 0"
    "\<not> bit (CAN_FM1R t) 0" "\<not> bit (CAN_FFA1R t) 0"
    by (simp_all only: w f(10-13)) (simp_all add: bit_or_iff bit_and_iff bit_not_iff)
  ultimately show ?thesis
    by (intro exI [of _ t] exI [of _ c] conjI t) (simp_all add: f(1-6,8,9,14,16) w can_mcr_low [simplified])
qed

theorem system_setup_timing_witness:
  "\<exists>t. System_Setup False 0 reset_board = Some t \<and> SysTick_CTRL t = 7 \<and> CAN_MCR t AND 0xFF = 0x44"
proof -
  have "registers_ok reset_board" by (simp add: registers_ok_def reset_board_def)
  moreover have "can_acknowledges reset_board"
    by (simp add: can_acknowledges_def reset_board_def) (intro exI [of _ 0] conjI; force)
  ultimately show ?thesis using system_setup_timing [OF oscillators_reset_board, of False 0] by blast
qed

text \<open>The result of the CAN initialisation is ignored: with a controller that never acknowledges,
  start-up ends all the same and the tick runs, while the bit timing is not set and the controller is
  left in the initialisation mode, in which it neither sends nor receives.\<close>

lemma can_start_failure_ignored:
  assumes "oscillators_start b" "registers_ok b" "\<forall>m. hw_MSR b m AND 1 = 0"
  shows "\<exists>t. System_Setup iap rep b = Some t \<and> CAN_MCR t AND 1 = 1 \<and> CAN_BTR t = CAN_BTR b \<and> SysTick_CTRL t = 7"
proof -
  have "\<exists>n. CAN_Configuration u = Some (can_set ((CAN_MCR b AND NOT 2) OR 1) (CAN_BTR b) n u)"
    if "registers_ok u" "hw_MSR u = hw_MSR b" "CAN_MCR u = CAN_MCR b" "CAN_BTR u = CAN_BTR b" for u
    using CAN_Configuration_fails [OF that(1)] assms(3) that(2-4) by simp
  from System_Setup_ends [OF assms(1,2) this, of iap rep] show ?thesis
    by (fastforce simp: bit.conj_disj_distrib2 and.assoc)
qed


end
