(* ===== verification/Startup.thy ===== *)
theory Startup
  imports System Board
begin

text \<open>
  The start of \<open>main\<close> (main.c) as a whole: \<open>System_Setup\<close> on the registers of the board, then
  the initialisation of the queues, the station number, the addresses and the parameters. The
  output registers that the pin configuration leaves behind are those the firmware goes on with.

  Start-up is one step, without interrupts, although \<open>System_Setup\<close> enables them before the
  queues are initialised: a handler that runs in these few instructions is outside the model.
\<close>

definition main_start :: "bool \<Rightarrow> u8 \<Rightarrow> (nat \<Rightarrow> gpio_port \<Rightarrow> u16) \<Rightarrow> u32 \<Rightarrow> u32 \<Rightarrow> u32 \<Rightarrow> fw \<times> board \<Rightarrow>
  (fw \<times> board) option" where
  "main_start IAP_MODE_SYS rep inputs id0 id1 id2 = (\<lambda>(s, b). do {
     b \<leftarrow> System_Setup IAP_MODE_SYS rep b;
     s \<leftarrow> main_init inputs id0 id1 id2 (s\<lparr>ODR := GPIO_ODR b\<rparr>);
     Some (s, b)
   })"

text \<open>What the board has to do: its oscillators start, and its CAN controller enters and leaves the
  initialisation mode when asked to, or never acknowledges the request at all.\<close>

definition board_starts :: "board \<Rightarrow> bool" where
  "board_starts b \<longleftrightarrow> registers_ok b \<and> oscillators_start b \<and> (can_acknowledges b \<or> (\<forall>m. hw_MSR b m AND 1 = 0))"

lemma System_Setup_returns:
  assumes "board_starts b"
  shows "\<exists>t c. System_Setup iap rep b = Some t \<and> RCC_GetClocksFreq t = Some c \<and> HCLK_Frequency c = 72000000 \<and>
    SysTick_LOAD t = 71999 \<and> SysTick_CTRL t = 7"
proof -
  have b: "oscillators_start b" "registers_ok b" using assms by (simp_all add: board_starts_def)
  consider "can_acknowledges b" | "\<forall>m. hw_MSR b m AND 1 = 0" using assms by (auto simp: board_starts_def)
  then show ?thesis
  proof cases
    case 1
    have "\<exists>n. CAN_Configuration u = Some (can_set ((CAN_MCR b AND NOT 0xBB) OR 0x44) 0x001C0011 n u)"
      if "registers_ok u" "hw_MSR u = hw_MSR b" "msr_reads u = msr_reads b" "CAN_MCR u = CAN_MCR b" for u
      using CAN_Configuration_ok [OF that(1)] 1 that(2-4) by (simp add: can_acknowledges_def)
    from System_Setup_ends [OF b this, of iap rep] show ?thesis by blast
  next
    case 2
    have "\<exists>n. CAN_Configuration u = Some (can_set ((CAN_MCR b AND NOT 2) OR 1) (CAN_BTR b) n u)"
      if "registers_ok u" "hw_MSR u = hw_MSR b" "CAN_MCR u = CAN_MCR b" "CAN_BTR u = CAN_BTR b" for u
      using CAN_Configuration_fails [OF that(1)] 2 that(2-4) by simp
    from System_Setup_ends [OF b this, of iap rep] show ?thesis by blast
  qed
qed

lemma power_up_ODR: "power_up s \<Longrightarrow> power_up (s\<lparr>ODR := x\<rparr>)"
  by (simp add: power_up_def)

text \<open>C38. From power-up, taken without interrupts, on a board whose oscillators start and whose CAN
  controller answers or never does, start-up runs to its end whatever the address switches, the flash
  and the uninitialised variables contain; it reaches a state that satisfies the invariant of the
  firmware, with no command queued and the emergency filter at rest, and the tick runs every
  millisecond. When the external oscillator does not start, start-up never ends.\<close>

theorem start_up_reaches_invariant:
  assumes "power_up s"
  shows "(board_starts b \<longrightarrow> (\<exists>t u c. main_start iap rep inputs id0 id1 id2 (s, b) = Some (t, u) \<and>
      sys_ok t \<and> uart_nodes t = [] \<and> uart_tx t = [] \<and> bEmergencyInfo t = zero_button \<and>
      isHost t = (if local_station t = 1 then 1 else 0) \<and>
      RCC_GetClocksFreq u = Some c \<and> (unat (SysTick_LOAD u) + 1) * 1000 = unat (HCLK_Frequency c) \<and> SysTick_CTRL u = 7)) \<and>
    ((\<forall>n. hw_CR b n AND 0x00020000 = 0) \<longrightarrow> main_start iap rep inputs id0 id1 id2 (s, b) = None)"
proof (intro conjI impI)
  assume "board_starts b"
  then obtain u c where u: "System_Setup iap rep b = Some u" "RCC_GetClocksFreq u = Some c" "HCLK_Frequency c = 72000000"
    "SysTick_LOAD u = 71999" "SysTick_CTRL u = 7" using System_Setup_returns by blast
  obtain t where t: "main_init inputs id0 id1 id2 (s\<lparr>ODR := GPIO_ODR u\<rparr>) = Some t" "sys_ok t" "uart_nodes t = []" "uart_tx t = []"
    "bEmergencyInfo t = zero_button" "isHost t = (if local_station t = 1 then 1 else 0)"
    using main_init_ok [OF power_up_ODR [OF assms], of inputs id0 id1 id2 "GPIO_ODR u"] by (auto simp: returns_def)
  have "main_start iap rep inputs id0 id1 id2 (s, b) = Some (t, u)" using u(1) t(1) by (simp add: main_start_def)
  with t u show "\<exists>t u c. main_start iap rep inputs id0 id1 id2 (s, b) = Some (t, u) \<and>
      sys_ok t \<and> uart_nodes t = [] \<and> uart_tx t = [] \<and> bEmergencyInfo t = zero_button \<and>
      isHost t = (if local_station t = 1 then 1 else 0) \<and>
      RCC_GetClocksFreq u = Some c \<and> (unat (SysTick_LOAD u) + 1) * 1000 = unat (HCLK_Frequency c) \<and> SysTick_CTRL u = 7"
    by (intro exI [of _ t] exI [of _ u] exI [of _ c] conjI) simp_all
next
  assume "\<forall>n. hw_CR b n AND 0x00020000 = 0"
  then have "SystemInit b = None" by (simp add: SystemInit_def SetSysClockTo72_def Let_def)
  then show "main_start iap rep inputs id0 id1 id2 (s, b) = None" by (simp add: main_start_def System_Setup_def)
qed

text \<open>The states that the loop of \<open>main\<close> reaches after such a start are those of the theory \<open>System\<close>.\<close>

lemma start_up_reachable:
  assumes "power_up s" "main_start iap rep inputs id0 id1 id2 (s, b) = Some (t, u)" "trace (0, t) vs c"
  shows "reachable vs c"
proof -
  have "main_init inputs id0 id1 id2 (s\<lparr>ODR := GPIO_ODR u\<rparr>) = Some t"
    using assms(2) by (auto simp: main_start_def dest!: bind_eq_SomeD)
  from reachable.intros [OF power_up_ODR [OF assms(1)] this assms(3)] show ?thesis .
qed

lemma reset_board_starts: "board_starts reset_board"
proof -
  have "can_acknowledges reset_board"
    by (simp add: can_acknowledges_def reset_board_def) (intro exI [of _ 0] conjI; force)
  then show ?thesis using oscillators_reset_board by (simp add: board_starts_def registers_ok_def) (simp add: reset_board_def)
qed

theorem start_up_reaches_invariant_witness:
  "(\<exists>t u. main_start False 0 (\<lambda>_. IDR power_on) 0 0 0 (power_on, reset_board) = Some (t, u) \<and> sys_ok t \<and> SysTick_CTRL u = 7) \<and>
   main_start False 0 (\<lambda>_. IDR power_on) 0 0 0 (power_on, reset_board\<lparr>hw_CR := \<lambda>_. 0\<rparr>) = None"
proof
  note p = power_up_power_on
  show "\<exists>t u. main_start False 0 (\<lambda>_. IDR power_on) 0 0 0 (power_on, reset_board) = Some (t, u) \<and> sys_ok t \<and> SysTick_CTRL u = 7"
    using start_up_reaches_invariant [OF p, of reset_board False 0 "\<lambda>_. IDR power_on" 0 0 0] reset_board_starts by blast
  show "main_start False 0 (\<lambda>_. IDR power_on) 0 0 0 (power_on, reset_board\<lparr>hw_CR := \<lambda>_. 0\<rparr>) = None"
    using start_up_reaches_invariant [OF p, of "reset_board\<lparr>hw_CR := \<lambda>_. 0\<rparr>" False 0 "\<lambda>_. IDR power_on" 0 0 0] by simp
qed

end
