(* ===== verification/EthDrv.thy ===== *)
theory EthDrv
  imports Clock
begin

text \<open>
  The Ethernet controller and its set-up: the PHY register accesses and \<open>ETH_Init\<close>
  (stm32_eth.c), \<open>Ethernet_Configuration\<close>, \<open>check_link\<close> and \<open>check_ETH_link\<close>
  (stm32f107.c). The record also holds the state of the driver (ethernetif.c) and of netconf.c,
  which the theory \<open>EthIf\<close> works on, and lwIP's own state, of a type \<open>'l\<close> the
  code does not look into.

  The hardware's answers are functions of the number of the read: the software reset bit
  (\<open>hw_SWR\<close>), the busy bit of the MII address register (\<open>hw_MB\<close>) and the value the PHY
  returns for a register (\<open>hw_PHY\<close>). The delays of \<open>ETH_Init\<close> (\<open>_eth_delay_\<close>, after the reset
  of the PHY and after its configuration) change no state and are left out. A reset of the controller also resets its registers;
  this is not modelled, and the theorems hold whatever the registers contain.
\<close>

section \<open>State\<close>

text \<open>A descriptor; a buffer is given by its offset in the array of the buffers, the next
  descriptor by its index in the table.\<close>

record ETH_DMADESCTypeDef =
  Status :: u32
  ControlBufferSize :: u32
  Buffer1Addr :: nat
  Buffer2NextDescAddr :: nat

record 'l eth =
  eth_board :: board
  RCC_AHBRSTR :: u32
  MACCR :: u32
  MACFFR :: u32
  MACHTHR :: u32
  MACHTLR :: u32
  MACMIIAR :: u32
  MACMIIDR :: u32
  MACFCR :: u32
  MACVLANTR :: u32
  MACA0HR :: u32
  MACA0LR :: u32
  DMABMR :: u32
  DMASR :: u32
  DMAOMR :: u32
  DMAIER :: u32
  hw_SWR :: "nat \<Rightarrow> bool"
  swr_reads :: nat
  hw_MB :: "nat \<Rightarrow> bool"
  mb_reads :: nat
  hw_PHY :: "nat \<Rightarrow> u16 \<Rightarrow> u16"
  phy_accesses :: nat
  phy_writes :: "(u16 \<times> u16 \<times> u16) list"
  EthInitStatus :: u32
  DMATxDscrTab :: "ETH_DMADESCTypeDef list"
  DMARxDscrTab :: "ETH_DMADESCTypeDef list"
  Tx_Buff :: "u8 list"
  Rx_Buff :: "u8 list"
  DMATxDescToSet :: nat
  DMARxDescToGet :: nat
  hw_TxDesc :: nat
  hw_RxDesc :: nat
  tx_polls :: nat
  rx_polls :: nat
  MACaddr :: "u8 list"
  hwaddr :: "u8 list"
  hwaddr_len :: u8
  netif_mtu :: u16
  netif_flags :: u8
  TCPTimer :: u32
  ARPTimer :: u32
  lwip :: 'l
  lwip_in :: "u8 list option list"

abbreviation (input) "ETH_ERROR \<equiv> 0 :: u32"
abbreviation (input) "ETH_SUCCESS \<equiv> 1 :: u32"

section \<open>PHY registers\<close>

text \<open>\<open>PHY_READ_TO\<close> and \<open>PHY_WRITE_TO\<close>.\<close>

definition PHY_TO :: nat where
  "PHY_TO = 0x4FFFF"

abbreviation (input) "PHY_BCR \<equiv> 0 :: u16"
abbreviation (input) "PHY_BSR \<equiv> 1 :: u16"
abbreviation (input) "PHY_SR \<equiv> 16 :: u16"

text \<open>The value written to the MII address register: PHY, register, direction and busy bit.\<close>

definition mii_command :: "u16 \<Rightarrow> u16 \<Rightarrow> bool \<Rightarrow> u32 \<Rightarrow> u32" where
  "mii_command phy reg write r =
     (let t = r AND NOT 0xFFFFFFE3;
          t = t OR (push_bit 11 (ucast phy) AND 0xF800);
          t = t OR (push_bit 6 (ucast reg) AND 0x07C0);
          t = (if write then t OR 0x2 else t AND NOT 0x2)
      in t OR 0x1)"

definition mii_wait :: "'l eth \<Rightarrow> nat" where
  "mii_wait e = wait_at_most PHY_TO (\<lambda>n. \<not> hw_MB e n) (mb_reads e)"

text \<open>Both fail when the last permitted poll is used up, even if that one finds the bus free.\<close>

definition ETH_ReadPHYRegister :: "u16 \<Rightarrow> u16 \<Rightarrow> 'l eth \<Rightarrow> u16 \<times> 'l eth" where
  "ETH_ReadPHYRegister phy reg e =
     (let e = e\<lparr>MACMIIAR := mii_command phy reg False (MACMIIAR e)\<rparr>;
          n = mii_wait e;
          timeout = n - mb_reads e;
          v = hw_PHY e (phy_accesses e) reg;
          e = e\<lparr>mb_reads := n, phy_accesses := Suc (phy_accesses e)\<rparr>
      in if timeout = PHY_TO then (ucast ETH_ERROR, e)
         else (v, e\<lparr>MACMIIDR := ucast v\<rparr>))"

definition ETH_WritePHYRegister :: "u16 \<Rightarrow> u16 \<Rightarrow> u16 \<Rightarrow> 'l eth \<Rightarrow> u32 \<times> 'l eth" where
  "ETH_WritePHYRegister phy reg v e =
     (let t = mii_command phy reg True (MACMIIAR e);
          e = e\<lparr>MACMIIDR := ucast v\<rparr>;
          e = e\<lparr>MACMIIAR := t, phy_writes := phy_writes e @ [(phy, reg, v)]\<rparr>;
          n = mii_wait e;
          timeout = n - mb_reads e;
          e = e\<lparr>mb_reads := n, phy_accesses := Suc (phy_accesses e)\<rparr>
      in (if timeout = PHY_TO then ETH_ERROR else ETH_SUCCESS, e))"

text \<open>The loops of \<open>ETH_Init\<close> that read the status register until a bit is set: \<open>k\<close> more
  reads are permitted, \<open>timeout\<close> have been made.\<close>

primrec phy_poll :: "nat \<Rightarrow> u16 \<Rightarrow> u16 \<Rightarrow> nat \<Rightarrow> 'l eth \<Rightarrow> nat \<times> 'l eth" where
  "phy_poll 0 phy m timeout e = (timeout, e)"
| "phy_poll (Suc k) phy m timeout e =
     (let (v, e) = ETH_ReadPHYRegister phy PHY_BSR e in
      if v AND m \<noteq> 0 then (Suc timeout, e) else phy_poll k phy m (Suc timeout) e)"

section \<open>Initialisation\<close>

record ETH_InitTypeDef =
  ETH_AutoNegotiation :: u32
  ETH_Watchdog :: u32
  ETH_Jabber :: u32
  ETH_InterFrameGap :: u32
  ETH_CarrierSense :: u32
  ETH_Speed :: u32
  ETH_ReceiveOwn :: u32
  ETH_LoopbackMode :: u32
  ETH_Mode :: u32
  ETH_ChecksumOffload :: u32
  ETH_RetryTransmission :: u32
  ETH_AutomaticPadCRCStrip :: u32
  ETH_BackOffLimit :: u32
  ETH_DeferralCheck :: u32
  ETH_ReceiveAll :: u32
  ETH_SourceAddrFilter :: u32
  ETH_PassControlFrames :: u32
  ETH_BroadcastFramesReception :: u32
  ETH_DestinationAddrFilter :: u32
  ETH_PromiscuousMode :: u32
  ETH_MulticastFramesFilter :: u32
  ETH_UnicastFramesFilter :: u32
  ETH_HashTableHigh :: u32
  ETH_HashTableLow :: u32
  ETH_PauseTime :: u32
  ETH_ZeroQuantaPause :: u32
  ETH_PauseLowThreshold :: u32
  ETH_UnicastPauseFrameDetect :: u32
  ETH_ReceiveFlowControl :: u32
  ETH_TransmitFlowControl :: u32
  ETH_VLANTagComparison :: u32
  ETH_VLANTagIdentifier :: u32
  ETH_DropTCPIPChecksumErrorFrame :: u32
  ETH_ReceiveStoreForward :: u32
  ETH_FlushReceivedFrame :: u32
  ETH_TransmitStoreForward :: u32
  ETH_TransmitThresholdControl :: u32
  ETH_ForwardErrorFrames :: u32
  ETH_ForwardUndersizedGoodFrames :: u32
  ETH_ReceiveThresholdControl :: u32
  ETH_SecondFrameOperate :: u32
  ETH_AddressAlignedBeats :: u32
  ETH_FixedBurst :: u32
  ETH_RxDMABurstLength :: u32
  ETH_TxDMABurstLength :: u32
  ETH_DescriptorSkipLength :: u32
  ETH_DMAArbitration :: u32

definition ETH_StructInit :: ETH_InitTypeDef where
  "ETH_StructInit = \<lparr>ETH_AutoNegotiation = 0, ETH_Watchdog = 0, ETH_Jabber = 0, ETH_InterFrameGap = 0,
     ETH_CarrierSense = 0, ETH_Speed = 0, ETH_ReceiveOwn = 0, ETH_LoopbackMode = 0, ETH_Mode = 0,
     ETH_ChecksumOffload = 0, ETH_RetryTransmission = 0, ETH_AutomaticPadCRCStrip = 0,
     ETH_BackOffLimit = 0, ETH_DeferralCheck = 0, ETH_ReceiveAll = 0, ETH_SourceAddrFilter = 0,
     ETH_PassControlFrames = 0x40, ETH_BroadcastFramesReception = 0x20, ETH_DestinationAddrFilter = 0,
     ETH_PromiscuousMode = 0, ETH_MulticastFramesFilter = 0, ETH_UnicastFramesFilter = 0,
     ETH_HashTableHigh = 0, ETH_HashTableLow = 0, ETH_PauseTime = 0, ETH_ZeroQuantaPause = 0x80,
     ETH_PauseLowThreshold = 0, ETH_UnicastPauseFrameDetect = 0, ETH_ReceiveFlowControl = 0,
     ETH_TransmitFlowControl = 0, ETH_VLANTagComparison = 0, ETH_VLANTagIdentifier = 0,
     ETH_DropTCPIPChecksumErrorFrame = 0x04000000, ETH_ReceiveStoreForward = 0x02000000,
     ETH_FlushReceivedFrame = 0x01000000, ETH_TransmitStoreForward = 0x00200000,
     ETH_TransmitThresholdControl = 0, ETH_ForwardErrorFrames = 0, ETH_ForwardUndersizedGoodFrames = 0,
     ETH_ReceiveThresholdControl = 0, ETH_SecondFrameOperate = 0, ETH_AddressAlignedBeats = 0x02000000,
     ETH_FixedBurst = 0, ETH_RxDMABurstLength = 0x00020000, ETH_TxDMABurstLength = 0x00000100,
     ETH_DescriptorSkipLength = 0, ETH_DMAArbitration = 0\<rparr>"

text \<open>The clock range of the management interface.\<close>

definition mii_clock_range :: "u32 \<Rightarrow> u32" where
  "mii_clock_range hclk =
     (if 20000000 \<le> hclk \<and> hclk < 35000000 then 0x8
      else if 35000000 \<le> hclk \<and> hclk < 60000000 then 0xC else 0x0)"

text \<open>Link and autonegotiation: waits for the link, starts the negotiation, waits for its end
  and takes over its result; \<open>None\<close> is the return of \<open>ETH_ERROR\<close>.\<close>

definition eth_link :: "u16 \<Rightarrow> ETH_InitTypeDef \<Rightarrow> 'l eth \<Rightarrow> ETH_InitTypeDef option \<times> 'l eth" where
  "eth_link phy i e =
     (if ETH_AutoNegotiation i \<noteq> 0 then
        let (timeout, e) = phy_poll PHY_TO phy 0x0004 0 e in
        if timeout = PHY_TO then (None, e)
        else
          let (w, e) = ETH_WritePHYRegister phy PHY_BCR 0x1000 e in
          if w = 0 then (None, e)
          else
            let (timeout, e) = phy_poll PHY_TO phy 0x0020 0 e in
            if timeout = PHY_TO then (None, e)
            else
              let (v, e) = ETH_ReadPHYRegister phy PHY_SR e;
                  i = i\<lparr>ETH_Mode := if v AND 0x0004 \<noteq> 0 then 0x0800 else 0\<rparr>;
                  i = i\<lparr>ETH_Speed := if v AND 0x0002 \<noteq> 0 then 0 else 0x4000\<rparr>
              in (Some i, e)
      else
        let (w, e) = ETH_WritePHYRegister phy PHY_BCR
              (ucast (drop_bit 3 (ETH_Mode i)) OR ucast (drop_bit 1 (ETH_Speed i))) e in
        if w = 0 then (None, e) else (Some i, e))"

text \<open>The registers of the MAC and the DMA.\<close>

definition eth_registers :: "ETH_InitTypeDef \<Rightarrow> 'l eth \<Rightarrow> 'l eth" where
  "eth_registers i e =
     (let e = e\<lparr>MACCR := (MACCR e AND 0xFF20810F) OR
            (ETH_Watchdog i OR ETH_Jabber i OR ETH_InterFrameGap i OR ETH_CarrierSense i OR ETH_Speed i OR
             ETH_ReceiveOwn i OR ETH_LoopbackMode i OR ETH_Mode i OR ETH_ChecksumOffload i OR
             ETH_RetryTransmission i OR ETH_AutomaticPadCRCStrip i OR ETH_BackOffLimit i OR ETH_DeferralCheck i)\<rparr>;
          e = e\<lparr>MACFFR := ETH_ReceiveAll i OR ETH_SourceAddrFilter i OR ETH_PassControlFrames i OR
            ETH_BroadcastFramesReception i OR ETH_DestinationAddrFilter i OR ETH_PromiscuousMode i OR
            ETH_MulticastFramesFilter i OR ETH_UnicastFramesFilter i\<rparr>;
          e = e\<lparr>MACHTHR := ETH_HashTableHigh i, MACHTLR := ETH_HashTableLow i\<rparr>;
          e = e\<lparr>MACFCR := (MACFCR e AND 0x0000FF41) OR
            (push_bit 16 (ETH_PauseTime i) OR ETH_ZeroQuantaPause i OR ETH_PauseLowThreshold i OR
             ETH_UnicastPauseFrameDetect i OR ETH_ReceiveFlowControl i OR ETH_TransmitFlowControl i)\<rparr>;
          e = e\<lparr>MACVLANTR := ETH_VLANTagComparison i OR ETH_VLANTagIdentifier i\<rparr>;
          e = e\<lparr>DMAOMR := (DMAOMR e AND 0xF8DE3F23) OR
            (ETH_DropTCPIPChecksumErrorFrame i OR ETH_ReceiveStoreForward i OR ETH_FlushReceivedFrame i OR
             ETH_TransmitStoreForward i OR ETH_TransmitThresholdControl i OR ETH_ForwardErrorFrames i OR
             ETH_ForwardUndersizedGoodFrames i OR ETH_ReceiveThresholdControl i OR ETH_SecondFrameOperate i)\<rparr>
      in e\<lparr>DMABMR := ETH_AddressAlignedBeats i OR ETH_FixedBurst i OR ETH_RxDMABurstLength i OR
            ETH_TxDMABurstLength i OR push_bit 2 (ETH_DescriptorSkipLength i) OR ETH_DMAArbitration i OR 0x00800000\<rparr>)"

definition eth_phy_init :: "ETH_InitTypeDef \<Rightarrow> u16 \<Rightarrow> 'l eth \<Rightarrow> u32 \<times> 'l eth" where
  "eth_phy_init i phy e =
     (let (w, e) = ETH_WritePHYRegister phy PHY_BCR 0x8000 e in
      if w = 0 then (ETH_ERROR, e)
      else
        (case eth_link phy i e of
           (None, e) \<Rightarrow> (ETH_ERROR, e)
         | (Some i, e) \<Rightarrow> (ETH_SUCCESS, eth_registers i e)))"

definition ETH_Init :: "ETH_InitTypeDef \<Rightarrow> u16 \<Rightarrow> 'l eth \<Rightarrow> (u32 \<times> 'l eth) option" where
  "ETH_Init i phy e = do {
     c \<leftarrow> RCC_GetClocksFreq (eth_board e);
     let e = e\<lparr>MACMIIAR := (MACMIIAR e AND 0xFFFFFFE3) OR mii_clock_range (HCLK_Frequency c)\<rparr>;
     Some (eth_phy_init i phy e)
   }"

section \<open>The Ethernet set-up of the host\<close>

definition GPIO_ETH_MediaInterfaceConfig :: "u32 \<Rightarrow> board \<Rightarrow> board" where
  "GPIO_ETH_MediaInterfaceConfig v b =
     b\<lparr>AFIO_MAPR := (AFIO_MAPR b AND NOT (push_bit 0x17 1)) OR push_bit 0x17 (v AND 1)\<rparr>"

definition RCC_MCOConfig :: "u8 \<Rightarrow> board \<Rightarrow> board" where
  "RCC_MCOConfig v b = b\<lparr>RCC_CFGR := (RCC_CFGR b AND 0x00FFFFFF) OR push_bit 24 (ucast v)\<rparr>"

definition RCC_AHBPeriphResetCmd :: "u32 \<Rightarrow> bool \<Rightarrow> 'l eth \<Rightarrow> 'l eth" where
  "RCC_AHBPeriphResetCmd periph en e =
     e\<lparr>RCC_AHBRSTR := (if en then RCC_AHBRSTR e OR periph else RCC_AHBRSTR e AND NOT periph)\<rparr>"

definition ETH_DeInit :: "'l eth \<Rightarrow> 'l eth" where
  "ETH_DeInit e = RCC_AHBPeriphResetCmd 0x4000 False (RCC_AHBPeriphResetCmd 0x4000 True e)"

definition ETH_SoftwareReset :: "'l eth \<Rightarrow> 'l eth" where
  "ETH_SoftwareReset e = e\<lparr>DMABMR := DMABMR e OR 1\<rparr>"

definition ETH_GetSoftwareResetStatus :: "nat \<Rightarrow> 'l eth \<Rightarrow> bool" where
  "ETH_GetSoftwareResetStatus n e = hw_SWR e n"

definition ETH_DMAITConfig :: "u32 \<Rightarrow> bool \<Rightarrow> 'l eth \<Rightarrow> 'l eth" where
  "ETH_DMAITConfig it en e = e\<lparr>DMAIER := (if en then DMAIER e OR it else DMAIER e AND NOT it)\<rparr>"

definition eth_parameters :: ETH_InitTypeDef where
  "eth_parameters = ETH_StructInit
     \<lparr>ETH_AutoNegotiation := 1, ETH_LoopbackMode := 0, ETH_RetryTransmission := 0x200,
      ETH_AutomaticPadCRCStrip := 0, ETH_ReceiveAll := 0, ETH_BroadcastFramesReception := 0,
      ETH_PromiscuousMode := 0, ETH_MulticastFramesFilter := 0, ETH_UnicastFramesFilter := 0,
      ETH_ChecksumOffload := 0x400, ETH_DropTCPIPChecksumErrorFrame := 0,
      ETH_ReceiveStoreForward := 0x02000000, ETH_TransmitStoreForward := 0x00200000,
      ETH_ForwardErrorFrames := 0, ETH_ForwardUndersizedGoodFrames := 0, ETH_SecondFrameOperate := 0x4,
      ETH_AddressAlignedBeats := 0x02000000, ETH_FixedBurst := 0x00010000,
      ETH_RxDMABurstLength := 0x00400000, ETH_TxDMABurstLength := 0x00002000, ETH_DMAArbitration := 0x4000\<rparr>"

abbreviation (input) "PHY_ADDRESS \<equiv> 1 :: u16"

text \<open>Media interface, clock output and reset.\<close>

definition eth_prepare :: "'l eth \<Rightarrow> 'l eth" where
  "eth_prepare e =
     (let e = e\<lparr>eth_board := GPIO_ETH_MediaInterfaceConfig 0 (eth_board e)\<rparr>;
          e = e\<lparr>eth_board := RCC_MCOConfig 0x06 (eth_board e)\<rparr>
      in ETH_SoftwareReset (ETH_DeInit e))"

definition Ethernet_Configuration :: "'l eth \<Rightarrow> 'l eth option" where
  "Ethernet_Configuration e = do {
     let e = eth_prepare e;
     n \<leftarrow> wait_for (\<lambda>n. \<not> ETH_GetSoftwareResetStatus n e) (swr_reads e);
     let e = e\<lparr>swr_reads := n\<rparr>;
     (r, e) \<leftarrow> ETH_Init eth_parameters PHY_ADDRESS e;
     let e = e\<lparr>EthInitStatus := r\<rparr>;
     Some (ETH_DMAITConfig (0x00010000 OR 0x00000040) True e)
   }"

definition check_link :: "u16 \<Rightarrow> 'l eth \<Rightarrow> u32 \<times> 'l eth" where
  "check_link phy e =
     (let (v, e) = ETH_ReadPHYRegister phy PHY_BSR e in (if v AND 0x0004 = 0 then ETH_ERROR else ETH_SUCCESS, e))"

definition check_ETH_link :: "'l eth \<Rightarrow> 'l eth" where
  "check_ETH_link e = (let (r, e) = check_link 1 e in e\<lparr>EthInitStatus := r\<rparr>)"

section \<open>Register accesses of the management interface\<close>

text \<open>The PHY accesses change nothing but the management interface.\<close>

definition mii_only :: "'l eth \<Rightarrow> 'l eth \<Rightarrow> bool" where
  "mii_only e t \<longleftrightarrow> (\<exists>a d m p w. t = e\<lparr>MACMIIAR := a, MACMIIDR := d, mb_reads := m, phy_accesses := p, phy_writes := w\<rparr>)"

lemma mii_onlyI:
  assumes "t\<lparr>MACMIIAR := MACMIIAR e, MACMIIDR := MACMIIDR e, mb_reads := mb_reads e,
    phy_accesses := phy_accesses e, phy_writes := phy_writes e\<rparr> = e"
  shows "mii_only e t"
proof -
  let ?r = "\<lambda>u. u\<lparr>MACMIIAR := MACMIIAR t, MACMIIDR := MACMIIDR t, mb_reads := mb_reads t,
    phy_accesses := phy_accesses t, phy_writes := phy_writes t\<rparr>"
  have "?r e = ?r (t\<lparr>MACMIIAR := MACMIIAR e, MACMIIDR := MACMIIDR e, mb_reads := mb_reads e,
    phy_accesses := phy_accesses e, phy_writes := phy_writes e\<rparr>)" by (simp only: assms)
  also have "\<dots> = t" by simp
  finally have t: "?r e = t" .
  show ?thesis unfolding mii_only_def by (intro exI) (rule t [symmetric])
qed

lemma mii_only_refl: "mii_only e e"
  by (rule mii_onlyI) simp

lemma mii_only_trans: "mii_only e t \<Longrightarrow> mii_only t u \<Longrightarrow> mii_only e u"
  by (force simp: mii_only_def)

lemma mii_only_fields:
  "mii_only e t \<Longrightarrow> hw_MB t = hw_MB e \<and> hw_SWR t = hw_SWR e \<and> hw_PHY t = hw_PHY e \<and> MACCR t = MACCR e \<and> MACFFR t = MACFFR e \<and>
     MACFCR t = MACFCR e \<and> DMAOMR t = DMAOMR e \<and> DMAIER t = DMAIER e \<and> eth_board t = eth_board e"
  by (auto simp: mii_only_def)

lemma wait_at_most_bounds: "n \<le> wait_at_most k p n \<and> wait_at_most k p n \<le> n + k \<and> (0 < k \<longrightarrow> n < wait_at_most k p n)"
proof (induction k arbitrary: n)
  case (Suc k)
  show ?case using Suc.IH [of "Suc n"] by auto
qed simp

lemma wait_at_most_in_time: "p (n + j) \<Longrightarrow> Suc j < k \<Longrightarrow> wait_at_most k p n < n + k"
proof (induction k arbitrary: n j)
  case (Suc k)
  show ?case
  proof (cases "p n")
    case True
    with Suc.prems show ?thesis by simp
  next
    case False
    with Suc.prems obtain i where "j = Suc i" by (cases j) auto
    with Suc.prems Suc.IH [of "Suc n" i] False show ?thesis by simp
  qed
qed simp

lemma mii_wait_bounds: "mb_reads e < mii_wait e \<and> mii_wait e \<le> mb_reads e + PHY_TO"
  using wait_at_most_bounds [of "mb_reads e" PHY_TO "\<lambda>n. \<not> hw_MB e n"] by (simp add: mii_wait_def PHY_TO_def)

lemma mii_wait_upd [simp]:
  "mii_wait (e\<lparr>MACMIIAR := a\<rparr>) = mii_wait e" "mii_wait (e\<lparr>MACMIIDR := d, MACMIIAR := a, phy_writes := l\<rparr>) = mii_wait e"
  by (simp_all add: mii_wait_def)

lemma read_phy:
  assumes "ETH_ReadPHYRegister phy reg e = (v, t)"
  shows "mii_only e t \<and> mb_reads e < mb_reads t \<and> phy_accesses t = Suc (phy_accesses e) \<and>
    (v = 0 \<or> v = hw_PHY e (phy_accesses e) reg)"
proof -
  show ?thesis
    using assms mii_wait_bounds [of e] by (auto simp: ETH_ReadPHYRegister_def Let_def split: if_splits intro!: mii_onlyI)
qed

lemma write_phy:
  assumes "ETH_WritePHYRegister phy reg w e = (r, t)"
  shows "mii_only e t \<and> mb_reads e < mb_reads t \<and> phy_accesses t = Suc (phy_accesses e) \<and>
    phy_writes t = phy_writes e @ [(phy, reg, w)] \<and> (r = 0 \<longrightarrow> mb_reads t = mb_reads e + PHY_TO)"
proof -
  show ?thesis
    using assms mii_wait_bounds [of e] by (auto simp: ETH_WritePHYRegister_def Let_def split: if_splits intro!: mii_onlyI)
qed

lemma read_phy_writes: "ETH_ReadPHYRegister phy reg e = (v, t) \<Longrightarrow> phy_writes t = phy_writes e"
  by (auto simp: ETH_ReadPHYRegister_def Let_def split: if_splits)

text \<open>The management bus becomes free in time whenever it is polled.\<close>

definition mii_answers :: "'l eth \<Rightarrow> bool" where
  "mii_answers e \<longleftrightarrow> (\<forall>n. \<exists>j. Suc j < PHY_TO \<and> \<not> hw_MB e (n + j))"

lemma mii_wait_in_time:
  assumes "mii_answers e"
  shows "mii_wait e < mb_reads e + PHY_TO"
proof -
  obtain j where "Suc j < PHY_TO" "\<not> hw_MB e (mb_reads e + j)" using assms unfolding mii_answers_def by blast
  then show ?thesis unfolding mii_wait_def by (intro wait_at_most_in_time [where j = j])
qed

lemma mii_in_time: "mii_answers e \<Longrightarrow> mii_wait e - mb_reads e \<noteq> PHY_TO"
  using mii_wait_in_time [of e] mii_wait_bounds [of e] by linarith

lemma read_phy_answers:
  assumes "mii_answers e"
  shows "fst (ETH_ReadPHYRegister phy reg e) = hw_PHY e (phy_accesses e) reg"
  using mii_in_time [OF assms] by (simp add: ETH_ReadPHYRegister_def Let_def)

lemma write_phy_answers: "mii_answers e \<Longrightarrow> fst (ETH_WritePHYRegister phy reg w e) = ETH_SUCCESS"
  using mii_in_time [of e] by (simp add: ETH_WritePHYRegister_def Let_def)

lemma mii_answers_only: "mii_only e t \<Longrightarrow> mii_answers e \<Longrightarrow> mii_answers t"
  by (simp add: mii_answers_def mii_only_fields)

section \<open>Polling the PHY\<close>

lemma phy_poll_only: "phy_poll k phy m i e = (j, t) \<Longrightarrow> mii_only e t \<and> phy_accesses e \<le> phy_accesses t"
proof (induction k arbitrary: i e)
  case (Suc k)
  obtain v u where r: "ETH_ReadPHYRegister phy PHY_BSR e = (v, u)" by force
  from Suc.prems r consider "t = u" | "phy_poll k phy m (Suc i) u = (j, t)" by (auto split: if_splits)
  then show ?case
    using Suc.IH [of "Suc i" u] read_phy [OF r] by cases (auto intro: mii_only_trans)
qed (simp add: mii_only_refl)

text \<open>Without a link all the reads permitted are made.\<close>

lemma phy_poll_no_link:
  assumes "\<forall>n. hw_PHY e n PHY_BSR AND m = 0" "phy_poll k phy m i e = (j, t)"
  shows "j = i + k \<and> phy_accesses t = phy_accesses e + k \<and> phy_writes t = phy_writes e"
  using assms
proof (induction k arbitrary: i e)
  case (Suc k)
  obtain v u where r: "ETH_ReadPHYRegister phy PHY_BSR e = (v, u)" by force
  note u = read_phy [OF r] read_phy_writes [OF r]
  from u Suc.prems(1) have "v AND m = 0" by auto
  with Suc.prems(2) r have "phy_poll k phy m (Suc i) u = (j, t)" by simp
  with Suc.IH [of u "Suc i"] Suc.prems(1) u mii_only_fields show ?case by fastforce
qed simp

lemma phy_poll_link:
  assumes "mii_answers e" "\<forall>n \<ge> N. hw_PHY e n PHY_BSR AND m \<noteq> 0" "Suc N < phy_accesses e + k" "1 < k"
    "phy_poll k phy m i e = (j, t)"
  shows "j < i + k"
  using assms
proof (induction k arbitrary: i e)
  case (Suc k)
  obtain v u where r: "ETH_ReadPHYRegister phy PHY_BSR e = (v, u)" by force
  note u = read_phy [OF r]
  have v: "v = hw_PHY e (phy_accesses e) PHY_BSR" using read_phy_answers [OF Suc.prems(1), of phy PHY_BSR] r by simp
  show ?case
  proof (cases "v AND m = 0")
    case False
    with Suc.prems r show ?thesis by auto
  next
    case True
    with v Suc.prems(2) have "phy_accesses e < N" by (meson not_le)
    with Suc.prems(3) u have "Suc N < phy_accesses u + k" "1 < k" by auto
    moreover from True Suc.prems(5) r have "phy_poll k phy m (Suc i) u = (j, t)" by simp
    ultimately show ?thesis
      using Suc.IH [of u "Suc i"] Suc.prems(1,2) u mii_answers_only [of e u] mii_only_fields [of e u] by auto
  qed
qed simp

section \<open>The set-up of the host\<close>

lemma idx_ex: "i < length xs \<Longrightarrow> \<exists>v. idx xs i = Some v"
  by (simp add: idx_def)

lemma unat_field:
  assumes "drop_bit k (m :: u32) = mask n"
  shows "unat (drop_bit k (w AND m)) < 2 ^ n"
proof -
  have "drop_bit k (w AND m) = take_bit n (drop_bit k w)" by (simp add: drop_bit_and assms take_bit_eq_mask)
  moreover have "unat (take_bit n x) = take_bit n (unat x)" for x :: u32 by (rule unsigned_take_bit_eq)
  ultimately show ?thesis by (simp add: take_bit_nat_less_exp)
qed

lemma clocks_defined: "\<exists>c. RCC_GetClocksFreq b = Some c"
proof -
  have "length APBAHBPrescTable = 16" "length ADCPrescTable = 4" by (simp_all add: APBAHBPrescTable_def ADCPrescTable_def)
  moreover have "unat (drop_bit 4 (w AND 0xF0)) < 16" "unat (drop_bit 8 (w AND 0x700)) < 16"
    "unat (drop_bit 11 (w AND 0x3800)) < 16" "unat (drop_bit 14 (w AND 0xC000)) < 4" for w :: u32
    using unat_field [of 4 "0xF0" 4 w] unat_field [of 8 "0x700" 3 w] unat_field [of 11 "0x3800" 3 w]
      unat_field [of 14 "0xC000" 2 w]
    by (simp_all add: mask_eq_exp_minus_1)
  ultimately show ?thesis
    by (simp add: RCC_GetClocksFreq_def Let_def idx_def)
qed

lemma ETH_DeInit_ex: "\<exists>w. ETH_DeInit e = e\<lparr>RCC_AHBRSTR := w\<rparr>"
  unfolding ETH_DeInit_def RCC_AHBPeriphResetCmd_def if_True simp_thms
  by (rule exI [of _ "(RCC_AHBRSTR e OR 0x4000) AND NOT 0x4000"]) simp

lemma eth_prepare_ex: "\<exists>b w d. eth_prepare e = e\<lparr>eth_board := b, RCC_AHBRSTR := w, DMABMR := d\<rparr>"
proof -
  define b where "b = RCC_MCOConfig 6 (GPIO_ETH_MediaInterfaceConfig 0 (eth_board e))"
  obtain w where w: "ETH_DeInit (e\<lparr>eth_board := b\<rparr>) = e\<lparr>eth_board := b, RCC_AHBRSTR := w\<rparr>"
    using ETH_DeInit_ex [of "e\<lparr>eth_board := b\<rparr>"] by blast
  have "eth_prepare e = ETH_SoftwareReset (ETH_DeInit (e\<lparr>eth_board := b\<rparr>))"
    by (simp add: eth_prepare_def Let_def b_def)
  then have "eth_prepare e = e\<lparr>eth_board := b, RCC_AHBRSTR := w, DMABMR := DMABMR e OR 1\<rparr>"
    by (simp add: w ETH_SoftwareReset_def)
  then show ?thesis by blast
qed

text \<open>Up to the reset of the PHY, \<open>Ethernet_Configuration\<close> sets up clocks and management interface.\<close>

lemma Ethernet_Configuration_starts:
  assumes "m \<ge> swr_reads e" "\<not> hw_SWR e m"
  shows "\<exists>u. Ethernet_Configuration e =
      Some (case eth_phy_init eth_parameters PHY_ADDRESS u of (r, t) \<Rightarrow> ETH_DMAITConfig 0x00010040 True (t\<lparr>EthInitStatus := r\<rparr>)) \<and>
    hw_SWR u = hw_SWR e \<and> hw_PHY u = hw_PHY e \<and> hw_MB u = hw_MB e \<and> mb_reads u = mb_reads e \<and> phy_accesses u = phy_accesses e \<and>
    phy_writes u = phy_writes e \<and> MACCR u = MACCR e \<and> DMAOMR u = DMAOMR e \<and> DMAIER u = DMAIER e"
proof -
  obtain n where n: "wait_for (\<lambda>n. \<not> hw_SWR e n) (swr_reads e) = Some n" 
    using wait_for_ends [of "\<lambda>n. \<not> hw_SWR e n" m "swr_reads e"] assms by auto
  obtain b w d where v: "eth_prepare e = e\<lparr>eth_board := b, RCC_AHBRSTR := w, DMABMR := d\<rparr>"
    using eth_prepare_ex by blast
  define v where "v = e\<lparr>eth_board := b, RCC_AHBRSTR := w, DMABMR := d\<rparr>"
  have f: "hw_SWR v = hw_SWR e" "swr_reads v = swr_reads e" unfolding v_def by simp_all
  obtain c where c: "RCC_GetClocksFreq (eth_board v) = Some c" using clocks_defined by blast
  define u where "u = v\<lparr>swr_reads := n, MACMIIAR := (MACMIIAR v AND 0xFFFFFFE3) OR mii_clock_range (HCLK_Frequency c)\<rparr>"
  obtain r t where rt: "eth_phy_init eth_parameters PHY_ADDRESS u = (r, t)" by force
  have "wait_for (\<lambda>n. \<not> ETH_GetSoftwareResetStatus n v) (swr_reads v) = Some n"
    using n f by (simp add: ETH_GetSoftwareResetStatus_def)
  moreover have "ETH_Init eth_parameters PHY_ADDRESS (v\<lparr>swr_reads := n\<rparr>) = Some (r, t)"
    using rt c by (simp add: ETH_Init_def u_def)
  ultimately have "Ethernet_Configuration e = Some (ETH_DMAITConfig 0x00010040 True (t\<lparr>EthInitStatus := r\<rparr>))"
    unfolding Ethernet_Configuration_def Let_def v v_def [symmetric] by simp
  with rt show ?thesis
    by (intro exI [of _ u]) (simp add: u_def v_def)
qed

lemma phy_init_no_link:
  assumes "mii_answers u" "\<forall>n. hw_PHY u n PHY_BSR AND 0x0004 = 0" "ETH_AutoNegotiation i \<noteq> 0" "eth_phy_init i phy u = (r, t)"
  shows "r = ETH_ERROR \<and> phy_accesses t = phy_accesses u + Suc PHY_TO \<and> phy_writes t = phy_writes u @ [(phy, PHY_BCR, 0x8000)] \<and>
    mii_only u t"
proof -
  obtain w v where w: "ETH_WritePHYRegister phy PHY_BCR 0x8000 u = (w, v)" by force
  note wv = write_phy [OF w]
  have w1: "w = ETH_SUCCESS" using write_phy_answers [OF assms(1), of phy PHY_BCR "0x8000"] w by simp
  obtain j x where p: "phy_poll PHY_TO phy 0x0004 0 v = (j, x)" by force
  have "\<forall>n. hw_PHY v n PHY_BSR AND 0x0004 = 0" using assms(2) wv mii_only_fields [of u v] by simp
  note j = phy_poll_no_link [OF this p]
  then have "eth_link phy i v = (None, x)" using p assms(3) by (simp add: eth_link_def)
  with w w1 assms(4) have "r = ETH_ERROR" "t = x" by (simp_all add: eth_phy_init_def)
  with phy_poll_only [OF p] wv j show ?thesis by (auto intro: mii_only_trans)
qed

lemma link_bits: "x AND 0x24 = (0x24 :: u16) \<Longrightarrow> x AND 0x04 \<noteq> 0 \<and> x AND 0x20 \<noteq> 0"
proof -
  assume a: "x AND 0x24 = 0x24"
  have "x AND 0x04 = (x AND 0x24) AND 0x04" "x AND 0x20 = (x AND 0x24) AND 0x20" by (simp_all add: and.assoc)
  with a show ?thesis by simp
qed

text \<open>The modes that the negotiation result \<open>sr\<close> selects.\<close>

definition negotiated :: "u16 \<Rightarrow> ETH_InitTypeDef \<Rightarrow> ETH_InitTypeDef" where
  "negotiated sr i =
     i\<lparr>ETH_Mode := if sr AND 0x0004 \<noteq> 0 then 0x0800 else 0, ETH_Speed := if sr AND 0x0002 \<noteq> 0 then 0 else 0x4000\<rparr>"

lemma eth_link_up:
  assumes "mii_answers v" "\<forall>n \<ge> N. hw_PHY v n PHY_BSR AND 0x24 = 0x24" "\<forall>n. hw_PHY v n PHY_SR = sr"
    "Suc N < phy_accesses v + PHY_TO" "ETH_AutoNegotiation i \<noteq> 0"
  shows "\<exists>t. eth_link phy i v = (Some (negotiated sr i), t) \<and> mii_only v t"
proof -
  have k: "1 < PHY_TO" by (simp add: PHY_TO_def)
  have up: "\<forall>n \<ge> N. hw_PHY v n PHY_BSR AND 0x04 \<noteq> 0" "\<forall>n \<ge> N. hw_PHY v n PHY_BSR AND 0x20 \<noteq> 0"
    using assms(2) link_bits by blast+
  obtain j1 a where p1: "phy_poll PHY_TO phy 0x0004 0 v = (j1, a)" by force
  note a = phy_poll_only [OF p1]
  have j1: "j1 \<noteq> PHY_TO" using phy_poll_link [OF assms(1) up(1) assms(4) k p1] by simp
  obtain w b where w: "ETH_WritePHYRegister phy PHY_BCR 0x1000 a = (w, b)" by force
  note b = write_phy [OF w]
  have ans: "mii_answers a" using a assms(1) mii_answers_only by blast
  have w1: "w = 1" using write_phy_answers [OF ans, of phy PHY_BCR "0x1000"] w by simp
  have vb: "mii_only v b" "phy_accesses v \<le> phy_accesses b" using a b by (auto intro: mii_only_trans)
  obtain j2 c where p2: "phy_poll PHY_TO phy 0x0020 0 b = (j2, c)" by force
  note c = phy_poll_only [OF p2]
  have "mii_answers b" "\<forall>n \<ge> N. hw_PHY b n PHY_BSR AND 0x20 \<noteq> 0" "Suc N < phy_accesses b + PHY_TO"
    using vb assms(1,4) up(2) mii_answers_only mii_only_fields [OF vb(1)] by auto
  from phy_poll_link [OF this k p2] have j2: "j2 \<noteq> PHY_TO" by simp
  obtain x d where x: "ETH_ReadPHYRegister phy PHY_SR c = (x, d)" by force
  have vc: "mii_only v c" using vb c mii_only_trans by blast
  have "x = sr" using read_phy_answers [OF mii_answers_only [OF vc assms(1)], of phy PHY_SR] x assms(3) mii_only_fields [OF vc] by simp
  moreover have "mii_only v d" using vc read_phy [OF x] mii_only_trans by blast
  ultimately show ?thesis
    using p1 j1 w w1 p2 j2 x assms(5) by (simp add: eth_link_def negotiated_def)
qed

text \<open>Without a link the set-up resets the PHY, reads its status 327679 times and fails; the MAC is not
  configured.\<close>

lemma ethernet_without_link:
  assumes "m \<ge> swr_reads e" "\<not> hw_SWR e m" "mii_answers e" "\<forall>n. hw_PHY e n PHY_BSR AND 0x0004 = 0"
  shows "\<exists>t. Ethernet_Configuration e = Some t \<and> EthInitStatus t = ETH_ERROR \<and>
    phy_accesses t = phy_accesses e + 0x50000 \<and> phy_writes t = phy_writes e @ [(PHY_ADDRESS, PHY_BCR, 0x8000)] \<and>
    MACCR t = MACCR e \<and> hw_SWR t = hw_SWR e \<and> hw_PHY t = hw_PHY e \<and> hw_MB t = hw_MB e"
proof -
  obtain u where u: "Ethernet_Configuration e =
      Some (case eth_phy_init eth_parameters PHY_ADDRESS u of (r, t) \<Rightarrow> ETH_DMAITConfig 0x00010040 True (t\<lparr>EthInitStatus := r\<rparr>))"
    "hw_PHY u = hw_PHY e" "hw_MB u = hw_MB e" "phy_accesses u = phy_accesses e" "phy_writes u = phy_writes e" "MACCR u = MACCR e"
    "hw_SWR u = hw_SWR e"
    using Ethernet_Configuration_starts [OF assms(1,2)] by blast
  obtain r t where rt: "eth_phy_init eth_parameters PHY_ADDRESS u = (r, t)" by force
  have i: "ETH_AutoNegotiation eth_parameters \<noteq> 0" by (simp add: eth_parameters_def)
  have "mii_answers u" "\<forall>n. hw_PHY u n PHY_BSR AND 0x0004 = 0" using assms(3,4) u(2,3) by (simp_all add: mii_answers_def)
  from phy_init_no_link [OF this i rt] have t: "r = ETH_ERROR" "phy_accesses t = phy_accesses u + Suc PHY_TO"
    "phy_writes t = phy_writes u @ [(PHY_ADDRESS, PHY_BCR, 0x8000)]" "mii_only u t" by auto
  with u rt mii_only_fields [OF t(4)] show ?thesis by (simp add: ETH_DMAITConfig_def PHY_TO_def)
qed

text \<open>When the PHY has a link and finishes its negotiation in time, the set-up succeeds and the MAC
  runs in the negotiated mode and speed, with checksums in hardware and without retries; frames to
  the station, broadcasts and no others are received, error frames are not passed on, and the
  receive interrupt is enabled.\<close>

lemma ethernet_configured:
  assumes "m \<ge> swr_reads e" "\<not> hw_SWR e m" "mii_answers e" "N < phy_accesses e + 0x4FFFF"
    "\<forall>n \<ge> N. hw_PHY e n PHY_BSR AND 0x24 = 0x24" "\<forall>n. hw_PHY e n PHY_SR = sr"
  shows "\<exists>t. Ethernet_Configuration e = Some t \<and> EthInitStatus t = ETH_SUCCESS \<and>
    MACCR t = MACCR e AND 0xFF20810F OR 0x600 OR (if sr AND 4 \<noteq> 0 then 0x0800 else 0) OR (if sr AND 2 \<noteq> 0 then 0 else 0x4000) \<and>
    MACFFR t = 0x40 \<and> DMAOMR t = DMAOMR e AND 0xF8DE3F23 OR 0x03200004 \<and> DMAIER t = DMAIER e OR 0x00010040"
proof -
  obtain u where u: "Ethernet_Configuration e =
      Some (case eth_phy_init eth_parameters PHY_ADDRESS u of (r, t) \<Rightarrow> ETH_DMAITConfig 0x00010040 True (t\<lparr>EthInitStatus := r\<rparr>))"
    "hw_PHY u = hw_PHY e" "hw_MB u = hw_MB e" "phy_accesses u = phy_accesses e" "MACCR u = MACCR e" "DMAOMR u = DMAOMR e"
    "DMAIER u = DMAIER e"
    using Ethernet_Configuration_starts [OF assms(1,2)] by blast
  obtain w v where w: "ETH_WritePHYRegister PHY_ADDRESS PHY_BCR 0x8000 u = (w, v)" by force
  note v = write_phy [OF w]
  have ans: "mii_answers u" using assms(3) u(3) by (simp add: mii_answers_def)
  have w1: "w = 1" using write_phy_answers [OF ans, of PHY_ADDRESS PHY_BCR "0x8000"] w by simp
  have f: "hw_PHY v = hw_PHY e" "phy_accesses v = Suc (phy_accesses e)" using v u mii_only_fields [of u v] by simp_all
  have "\<forall>n \<ge> N. hw_PHY v n PHY_BSR AND 0x24 = 0x24" "\<forall>n. hw_PHY v n PHY_SR = sr" "Suc N < phy_accesses v + PHY_TO"
    "ETH_AutoNegotiation eth_parameters \<noteq> 0" "mii_answers v"
    using assms(4-6) f ans v mii_answers_only by (auto simp: PHY_TO_def eth_parameters_def)
  from eth_link_up [OF this(5,1,2,3,4)] obtain t where t: "eth_link PHY_ADDRESS eth_parameters v = (Some (negotiated sr eth_parameters), t)"
    "mii_only v t" by blast
  have "mii_only u t" using v t(2) mii_only_trans by blast
  note g = mii_only_fields [OF this]
  have "Ethernet_Configuration e =
      Some (ETH_DMAITConfig 0x00010040 True ((eth_registers (negotiated sr eth_parameters) t)\<lparr>EthInitStatus := 1\<rparr>))"
    using u(1) w w1 t(1) by (simp add: eth_phy_init_def)
  moreover have "MACCR (eth_registers (negotiated sr eth_parameters) t) = MACCR e AND 0xFF20810F OR 0x600 OR
      (if sr AND 4 \<noteq> 0 then 0x0800 else 0) OR (if sr AND 2 \<noteq> 0 then 0 else 0x4000)"
    "MACFFR (eth_registers (negotiated sr eth_parameters) t) = 0x40"
    "DMAOMR (eth_registers (negotiated sr eth_parameters) t) = DMAOMR e AND 0xF8DE3F23 OR 0x03200004"
    "DMAIER (eth_registers (negotiated sr eth_parameters) t) = DMAIER e"
    using g u(5-7) by (simp_all add: eth_registers_def Let_def negotiated_def eth_parameters_def ETH_StructInit_def or.assoc)
  ultimately show ?thesis by (simp add: ETH_DMAITConfig_def)
qed

text \<open>A controller after power-on whose hardware answers at once; \<open>up\<close> is the state of the link.\<close>

definition reset_eth :: "bool \<Rightarrow> 'l \<Rightarrow> 'l eth" where
  "reset_eth up l = \<lparr>eth_board = reset_board, RCC_AHBRSTR = 0, MACCR = 0x8000, MACFFR = 0, MACHTHR = 0, MACHTLR = 0,
     MACMIIAR = 0, MACMIIDR = 0, MACFCR = 0, MACVLANTR = 0, MACA0HR = 0, MACA0LR = 0, DMABMR = 0x00020101, DMASR = 0,
     DMAOMR = 0, DMAIER = 0, hw_SWR = \<lambda>n. n = 0, swr_reads = 0, hw_MB = \<lambda>n. even n, mb_reads = 0,
     hw_PHY = \<lambda>n reg. if reg = 1 then if up then 0x24 else 0 else 0x0004, phy_accesses = 0, phy_writes = [],
     EthInitStatus = 0, DMATxDscrTab = replicate 2 \<lparr>Status = 0, ControlBufferSize = 0, Buffer1Addr = 0, Buffer2NextDescAddr = 0\<rparr>,
     DMARxDscrTab = replicate 4 \<lparr>Status = 0, ControlBufferSize = 0, Buffer1Addr = 0, Buffer2NextDescAddr = 0\<rparr>,
     Tx_Buff = replicate 3040 0, Rx_Buff = replicate 6080 0, DMATxDescToSet = 0, DMARxDescToGet = 0, hw_TxDesc = 0,
     hw_RxDesc = 0, tx_polls = 0, rx_polls = 0, MACaddr = replicate 6 0, hwaddr = replicate 6 0, hwaddr_len = 0, netif_mtu = 0,
     netif_flags = 0, TCPTimer = 0, ARPTimer = 0,
     lwip = l, lwip_in = []\<rparr>"

lemma reset_eth_hw:
  "swr_reads (reset_eth up l) = 0" "hw_SWR (reset_eth up l) = (\<lambda>n. n = 0)" "phy_accesses (reset_eth up l) = 0"
  "hw_PHY (reset_eth up l) = (\<lambda>n reg. if reg = 1 then if up then 0x24 else 0 else 0x0004)" "mb_reads (reset_eth up l) = 0"
  "MACCR (reset_eth up l) = 0x8000" "hw_MB (reset_eth up l) = (\<lambda>n. even n)"
  by (simp_all add: reset_eth_def)

lemma reset_eth_answers: "mii_answers (reset_eth up l)"
proof -
  have "Suc (if even n then 1 else 0) < PHY_TO \<and> odd (n + (if even n then 1 else 0))" for n :: nat
    by (auto simp: PHY_TO_def)
  then show ?thesis unfolding mii_answers_def reset_eth_hw by blast
qed

lemma ethernet_configured_witness:
  "\<exists>t. Ethernet_Configuration (reset_eth True ()) = Some t \<and> EthInitStatus t = 1 \<and> MACCR t = 0xCE00"
  using ethernet_configured [of "reset_eth True ()" 1 0 "0x0004"] reset_eth_answers [of True "()"]
  by (auto simp: reset_eth_hw)

end
