(* ===== verification/EthIf.thy ===== *)
theory EthIf
  imports EthDrv
begin

text \<open>
  The network interface: the driver between the Ethernet DMA and lwIP (ethernetif.c, the
  descriptor functions of stm32_eth.c), its interrupt handler (stm32f10x_it.c) and the calls of
  lwIP (netconf.c).

  lwIP is a parameter: what it does with a frame, with an allocation or at a timer tick is given
  by the functions of the record \<open>lwip_ops\<close> on its state, and the frames it sends meanwhile
  through \<open>netif->linkoutput\<close> are part of their results. A frame to send is a chain of buffers, a
  list of byte lists. \<open>None\<close> is an access outside an array or through a null pointer, or a
  loop that does not end. \<open>lwip_in\<close> records what became of each frame taken from the ring: the
  bytes with which \<open>ethernet_input\<close> of lwIP is called, or \<open>None\<close> where the driver gives up without a
  call because \<open>pbuf_alloc\<close> has failed.
\<close>

type_synonym pbuf = "u8 list list"

record 'l lwip_ops =
  lwip_start :: "'l \<Rightarrow> 'l"
  ethernetif_alloc :: "'l \<Rightarrow> bool \<times> 'l"
  netif_up :: "'l \<Rightarrow> pbuf list \<times> 'l"
  pbuf_alloc :: "u16 \<Rightarrow> 'l \<Rightarrow> nat list option \<times> 'l"
  pbuf_free :: "pbuf \<Rightarrow> 'l \<Rightarrow> 'l"
  ethernet_input :: "pbuf \<Rightarrow> 'l \<Rightarrow> u8 \<times> pbuf list \<times> 'l"
  tcp_tmr :: "'l \<Rightarrow> pbuf list \<times> 'l"
  etharp_tmr :: "'l \<Rightarrow> pbuf list \<times> 'l"

abbreviation (input) "ERR_OK \<equiv> 0 :: u8"
abbreviation (input) "ERR_MEM \<equiv> - 1 :: u8"

abbreviation (input) "ETH_RXBUFNB \<equiv> 4 :: nat"
abbreviation (input) "ETH_TXBUFNB \<equiv> 2 :: nat"
abbreviation (input) "ETH_MAX_PACKET_SIZE \<equiv> 1520 :: nat"

abbreviation (input) "DESC_OWN \<equiv> 0x80000000 :: u32"
abbreviation (input) "RX_FL \<equiv> 0x3FFF0000 :: u32"
abbreviation (input) "RX_ES \<equiv> 0x8000 :: u32"
abbreviation (input) "RX_FS \<equiv> 0x200 :: u32"
abbreviation (input) "RX_LS \<equiv> 0x100 :: u32"
abbreviation (input) "TX_LS \<equiv> 0x20000000 :: u32"
abbreviation (input) "TX_FS \<equiv> 0x10000000 :: u32"
abbreviation (input) "RBUS \<equiv> 0x80 :: u32"
abbreviation (input) "TBUS \<equiv> 0x4 :: u32"
abbreviation (input) "DMA_IT_R \<equiv> 0x40 :: u32"
abbreviation (input) "DMA_IT_NIS \<equiv> 0x10000 :: u32"

section \<open>Descriptors\<close>

text \<open>A bit of the status register is cleared by writing it.\<close>

definition write_DMASR :: "u32 \<Rightarrow> 'l eth \<Rightarrow> 'l eth" where
  "write_DMASR v e = e\<lparr>DMASR := DMASR e AND NOT v\<rparr>"

text \<open>When the DMA has found no free receive buffer, it is told to look again.\<close>

definition resume_rx :: "'l eth \<Rightarrow> 'l eth" where
  "resume_rx e =
     (if DMASR e AND RBUS \<noteq> 0
      then let e = write_DMASR RBUS e in e\<lparr>rx_polls := Suc (rx_polls e)\<rparr> else e)"

definition ETH_GetDMARxDescFrameLength :: "ETH_DMADESCTypeDef \<Rightarrow> u32" where
  "ETH_GetDMARxDescFrameLength d = drop_bit 16 (Status d AND RX_FL)"

definition ETH_GetRxPktSize :: "'l eth \<Rightarrow> u32 option" where
  "ETH_GetRxPktSize e = do {
     d \<leftarrow> idx (DMARxDscrTab e) (DMARxDescToGet e);
     Some (if Status d AND DESC_OWN = 0 \<and> Status d AND RX_ES = 0 \<and> Status d AND RX_LS \<noteq> 0 \<and> Status d AND RX_FS \<noteq> 0
           then ETH_GetDMARxDescFrameLength d else 0)
   }"

text \<open>\<open>FrameTypeDef\<close>: a null pointer is \<open>None\<close>.\<close>

record frame =
  frame_length :: u32
  frame_buffer :: "nat option"
  frame_descriptor :: "nat option"

definition ETH_RxPkt_ChainMode :: "'l eth \<Rightarrow> (frame \<times> 'l eth) option" where
  "ETH_RxPkt_ChainMode e = do {
     d \<leftarrow> idx (DMARxDscrTab e) (DMARxDescToGet e);
     if Status d AND DESC_OWN \<noteq> 0 then
       Some (\<lparr>frame_length = ETH_ERROR, frame_buffer = None, frame_descriptor = None\<rparr>, resume_rx e)
     else
       let (framelength, buffer) =
         (if Status d AND RX_ES = 0 \<and> Status d AND RX_LS \<noteq> 0 \<and> Status d AND RX_FS \<noteq> 0
          then (drop_bit 16 (Status d AND RX_FL) - 4, Some (Buffer1Addr d)) else (ETH_ERROR, None))
       in Some (\<lparr>frame_length = framelength, frame_buffer = buffer, frame_descriptor = Some (DMARxDescToGet e)\<rparr>,
            e\<lparr>DMARxDescToGet := Buffer2NextDescAddr d\<rparr>)
   }"

definition ETH_TxPkt_ChainMode :: "u16 \<Rightarrow> 'l eth \<Rightarrow> (u32 \<times> 'l eth) option" where
  "ETH_TxPkt_ChainMode len e = do {
     d \<leftarrow> idx (DMATxDscrTab e) (DMATxDescToSet e);
     if Status d AND DESC_OWN \<noteq> 0 then Some (ETH_ERROR, e)
     else do {
       let d = d\<lparr>ControlBufferSize := ucast len AND 0x1FFF\<rparr>;
       let d = d\<lparr>Status := Status d OR (TX_LS OR TX_FS)\<rparr>;
       let d = d\<lparr>Status := Status d OR DESC_OWN\<rparr>;
       tab \<leftarrow> upd (DMATxDscrTab e) (DMATxDescToSet e) d;
       let e = e\<lparr>DMATxDscrTab := tab\<rparr>;
       let e = (if DMASR e AND TBUS \<noteq> 0
                then let e = write_DMASR TBUS e in e\<lparr>tx_polls := Suc (tx_polls e)\<rparr> else e);
       Some (ETH_SUCCESS, e\<lparr>DMATxDescToSet := Buffer2NextDescAddr d\<rparr>)
     }
   }"

definition ETH_GetCurrentTxBuffer :: "'l eth \<Rightarrow> nat option" where
  "ETH_GetCurrentTxBuffer e = map_option Buffer1Addr (idx (DMATxDscrTab e) (DMATxDescToSet e))"

section \<open>Sending\<close>

primrec copy_out :: "pbuf \<Rightarrow> nat \<Rightarrow> u8 list \<Rightarrow> u8 list option" where
  "copy_out [] pos mem = Some mem"
| "copy_out (q # qs) pos mem = do { mem \<leftarrow> memcpy mem pos q (length q); copy_out qs (pos + length q) mem }"

definition fill_tx_buffer :: "pbuf \<Rightarrow> 'l eth \<Rightarrow> 'l eth option" where
  "fill_tx_buffer p e = do {
     buffer \<leftarrow> ETH_GetCurrentTxBuffer e;
     mem \<leftarrow> copy_out p buffer (Tx_Buff e);
     Some (e\<lparr>Tx_Buff := mem\<rparr>)
   }"

definition low_level_output :: "pbuf \<Rightarrow> 'l eth \<Rightarrow> (u8 \<times> 'l eth) option" where
  "low_level_output p e = do {
     e \<leftarrow> fill_tx_buffer p e;
     (r, e) \<leftarrow> ETH_TxPkt_ChainMode (of_nat (length (concat p))) e;
     Some (ERR_OK, e)
   }"

text \<open>The frames a call of lwIP sends.\<close>

primrec output_all :: "pbuf list \<Rightarrow> 'l eth \<Rightarrow> 'l eth option" where
  "output_all [] e = Some e"
| "output_all (p # ps) e = do { (r, e) \<leftarrow> low_level_output p e; output_all ps e }"

section \<open>Receiving\<close>

primrec copy_in :: "nat list \<Rightarrow> nat \<Rightarrow> u8 list \<Rightarrow> pbuf option" where
  "copy_in [] pos mem = Some []"
| "copy_in (n # ns) pos mem =
     (if pos + n \<le> length mem then do { ps \<leftarrow> copy_in ns (pos + n) mem; Some (take n (drop pos mem) # ps) } else None)"

definition low_level_input :: "'l lwip_ops \<Rightarrow> 'l eth \<Rightarrow> (pbuf option \<times> 'l eth) option" where
  "low_level_input L e = do {
     (frame, e) \<leftarrow> ETH_RxPkt_ChainMode e;
     let (lens, l) = pbuf_alloc L (ucast (frame_length frame)) (lwip e);
     let e = e\<lparr>lwip := l\<rparr>;
     p \<leftarrow> (case lens of
         None \<Rightarrow> Some None
       | Some ns \<Rightarrow> do { buffer \<leftarrow> frame_buffer frame; ps \<leftarrow> copy_in ns buffer (Rx_Buff e); Some (Some ps) });
     i \<leftarrow> frame_descriptor frame;
     d \<leftarrow> idx (DMARxDscrTab e) i;
     tab \<leftarrow> upd (DMARxDscrTab e) i (d\<lparr>Status := DESC_OWN\<rparr>);
     Some (p, resume_rx (e\<lparr>DMARxDscrTab := tab\<rparr>))
   }"

definition ethernetif_input :: "'l lwip_ops \<Rightarrow> 'l eth \<Rightarrow> (u8 \<times> 'l eth) option" where
  "ethernetif_input L e = do {
     (p, e) \<leftarrow> low_level_input L e;
     (case p of
        None \<Rightarrow> Some (ERR_MEM, e\<lparr>lwip_in := lwip_in e @ [None]\<rparr>)
      | Some p \<Rightarrow> do {
          let (err, out, l) = ethernet_input L p (lwip e);
          e \<leftarrow> output_all out (e\<lparr>lwip := l, lwip_in := lwip_in e @ [Some (concat p)]\<rparr>);
          Some (err, if err \<noteq> ERR_OK then e\<lparr>lwip := pbuf_free L p (lwip e)\<rparr> else e)
        })
   }"

definition LwIP_Pkt_Handle :: "'l lwip_ops \<Rightarrow> 'l eth \<Rightarrow> 'l eth option" where
  "LwIP_Pkt_Handle L e = map_option snd (ethernetif_input L e)"

definition ETH_DMAClearITPendingBit :: "u32 \<Rightarrow> 'l eth \<Rightarrow> 'l eth" where
  "ETH_DMAClearITPendingBit = write_DMASR"

partial_function (option) rx_loop :: "'l lwip_ops \<Rightarrow> 'l eth \<Rightarrow> 'l eth option" where
  "rx_loop L e = Option.bind (ETH_GetRxPktSize e)
     (\<lambda>n. if n \<noteq> 0 then Option.bind (LwIP_Pkt_Handle L e) (rx_loop L) else Some e)"

definition ETH_IRQHandler :: "'l lwip_ops \<Rightarrow> 'l eth \<Rightarrow> 'l eth option" where
  "ETH_IRQHandler L e = do {
     e \<leftarrow> rx_loop L e;
     Some (ETH_DMAClearITPendingBit DMA_IT_NIS (ETH_DMAClearITPendingBit DMA_IT_R e))
   }"

section \<open>Start of the interface\<close>

definition next_desc :: "nat \<Rightarrow> nat \<Rightarrow> nat" where
  "next_desc n i = (if i < n - 1 then i + 1 else 0)"

definition ETH_DMATxDescChainInit :: "nat \<Rightarrow> 'l eth \<Rightarrow> 'l eth option" where
  "ETH_DMATxDescChainInit n e = do {
     let e = e\<lparr>DMATxDescToSet := 0\<rparr>;
     e \<leftarrow> for_up 0 n (\<lambda>i e. do {
       d \<leftarrow> idx (DMATxDscrTab e) i;
       tab \<leftarrow> upd (DMATxDscrTab e) i
         (d\<lparr>Status := 0x00100000, Buffer1Addr := i * ETH_MAX_PACKET_SIZE, Buffer2NextDescAddr := next_desc n i\<rparr>);
       Some (e\<lparr>DMATxDscrTab := tab\<rparr>) }) e;
     Some (e\<lparr>hw_TxDesc := 0\<rparr>)
   }"

definition ETH_DMARxDescChainInit :: "nat \<Rightarrow> 'l eth \<Rightarrow> 'l eth option" where
  "ETH_DMARxDescChainInit n e = do {
     let e = e\<lparr>DMARxDescToGet := 0\<rparr>;
     e \<leftarrow> for_up 0 n (\<lambda>i e. do {
       d \<leftarrow> idx (DMARxDscrTab e) i;
       tab \<leftarrow> upd (DMARxDscrTab e) i
         (d\<lparr>Status := DESC_OWN, ControlBufferSize := 0x4000 OR of_nat ETH_MAX_PACKET_SIZE,
            Buffer1Addr := i * ETH_MAX_PACKET_SIZE, Buffer2NextDescAddr := next_desc n i\<rparr>);
       Some (e\<lparr>DMARxDscrTab := tab\<rparr>) }) e;
     Some (e\<lparr>hw_RxDesc := 0\<rparr>)
   }"

definition ETH_DMARxDescReceiveITConfig :: "nat \<Rightarrow> bool \<Rightarrow> 'l eth \<Rightarrow> 'l eth option" where
  "ETH_DMARxDescReceiveITConfig i en e = do {
     d \<leftarrow> idx (DMARxDscrTab e) i;
     let c = ControlBufferSize d;
     tab \<leftarrow> upd (DMARxDscrTab e) i
       (d\<lparr>ControlBufferSize := if en then c AND NOT 0x80000000 else c OR 0x80000000\<rparr>);
     Some (e\<lparr>DMARxDscrTab := tab\<rparr>)
   }"

definition ETH_DMATxDescChecksumInsertionConfig :: "nat \<Rightarrow> u32 \<Rightarrow> 'l eth \<Rightarrow> 'l eth option" where
  "ETH_DMATxDescChecksumInsertionConfig i c e = do {
     d \<leftarrow> idx (DMATxDscrTab e) i;
     tab \<leftarrow> upd (DMATxDscrTab e) i (d\<lparr>Status := Status d OR c\<rparr>);
     Some (e\<lparr>DMATxDscrTab := tab\<rparr>)
   }"

definition ETH_MACTransmissionCmd :: "bool \<Rightarrow> 'l eth \<Rightarrow> 'l eth" where
  "ETH_MACTransmissionCmd en e = e\<lparr>MACCR := (if en then MACCR e OR 0x8 else MACCR e AND NOT 0x8)\<rparr>"

definition ETH_MACReceptionCmd :: "bool \<Rightarrow> 'l eth \<Rightarrow> 'l eth" where
  "ETH_MACReceptionCmd en e = e\<lparr>MACCR := (if en then MACCR e OR 0x4 else MACCR e AND NOT 0x4)\<rparr>"

definition ETH_FlushTransmitFIFO :: "'l eth \<Rightarrow> 'l eth" where
  "ETH_FlushTransmitFIFO e = e\<lparr>DMAOMR := DMAOMR e OR 0x00100000\<rparr>"

definition ETH_DMATransmissionCmd :: "bool \<Rightarrow> 'l eth \<Rightarrow> 'l eth" where
  "ETH_DMATransmissionCmd en e = e\<lparr>DMAOMR := (if en then DMAOMR e OR 0x2000 else DMAOMR e AND NOT 0x2000)\<rparr>"

definition ETH_DMAReceptionCmd :: "bool \<Rightarrow> 'l eth \<Rightarrow> 'l eth" where
  "ETH_DMAReceptionCmd en e = e\<lparr>DMAOMR := (if en then DMAOMR e OR 0x2 else DMAOMR e AND NOT 0x2)\<rparr>"

definition ETH_Start :: "'l eth \<Rightarrow> 'l eth" where
  "ETH_Start e =
     (let e = ETH_MACTransmissionCmd True e;
          e = ETH_FlushTransmitFIFO e;
          e = ETH_MACReceptionCmd True e;
          e = ETH_DMATransmissionCmd True e
      in ETH_DMAReceptionCmd True e)"

definition ETH_MACAddressConfig :: "u8 list \<Rightarrow> 'l eth \<Rightarrow> 'l eth option" where
  "ETH_MACAddressConfig a e = do {
     a0 \<leftarrow> idx a 0; a1 \<leftarrow> idx a 1; a2 \<leftarrow> idx a 2; a3 \<leftarrow> idx a 3; a4 \<leftarrow> idx a 4; a5 \<leftarrow> idx a 5;
     Some (e\<lparr>MACA0HR := push_bit 8 (ucast a5) OR ucast a4,
             MACA0LR := push_bit 24 (ucast a3) OR push_bit 16 (ucast a2) OR push_bit 8 (ucast a1) OR ucast a0\<rparr>)
   }"

definition Set_MAC_Address :: "u8 list \<Rightarrow> 'l eth \<Rightarrow> 'l eth option" where
  "Set_MAC_Address a e = do {
     m \<leftarrow> memcpy (MACaddr e) 0 a 6;
     ETH_MACAddressConfig a (e\<lparr>MACaddr := m\<rparr>)
   }"

definition low_level_init :: "'l eth \<Rightarrow> 'l eth option" where
  "low_level_init e = do {
     h \<leftarrow> memcpy (hwaddr e) 0 (MACaddr e) 6;
     let e = e\<lparr>hwaddr_len := 6, hwaddr := h, netif_mtu := 1500, netif_flags := 0x02 OR 0x20 OR 0x10\<rparr>;
     e \<leftarrow> ETH_DMATxDescChainInit ETH_TXBUFNB e;
     e \<leftarrow> ETH_DMARxDescChainInit ETH_RXBUFNB e;
     e \<leftarrow> for_up 0 ETH_RXBUFNB (\<lambda>i. ETH_DMARxDescReceiveITConfig i True) e;
     e \<leftarrow> for_up 0 ETH_TXBUFNB (\<lambda>i. ETH_DMATxDescChecksumInsertionConfig i 0x00C00000) e;
     Some (ETH_Start e)
   }"

definition ethernetif_init :: "'l lwip_ops \<Rightarrow> 'l eth \<Rightarrow> (u8 \<times> 'l eth) option" where
  "ethernetif_init L e = do {
     let (ok, l) = ethernetif_alloc L (lwip e);
     let e = e\<lparr>lwip := l\<rparr>;
     if ok then do { e \<leftarrow> low_level_init e; Some (ERR_OK, e) } else Some (ERR_MEM, e)
   }"

text \<open>\<open>mac\<close> is the address computed by \<open>read_mac_addrs\<close>. The result of \<open>netif_add\<close>, which fails
  when \<open>ethernetif_init\<close> does, is not looked at.\<close>

definition LwIP_Init :: "'l lwip_ops \<Rightarrow> u8 list \<Rightarrow> 'l eth \<Rightarrow> 'l eth option" where
  "LwIP_Init L mac e = do {
     let e = e\<lparr>lwip := lwip_start L (lwip e)\<rparr>;
     e \<leftarrow> Set_MAC_Address mac e;
     (r, e) \<leftarrow> ethernetif_init L e;
     let (out, l) = netif_up L (lwip e);
     output_all out (e\<lparr>lwip := l\<rparr>)
   }"

abbreviation (input) "TCP_TMR_INTERVAL \<equiv> 25 :: u32"
abbreviation (input) "ARP_TMR_INTERVAL \<equiv> 5000 :: u32"

definition LwIP_Periodic_Handle :: "'l lwip_ops \<Rightarrow> u32 \<Rightarrow> 'l eth \<Rightarrow> 'l eth option" where
  "LwIP_Periodic_Handle L localtime e = do {
     e \<leftarrow> (if localtime - TCPTimer e \<ge> TCP_TMR_INTERVAL then do {
         let (out, l) = tcp_tmr L (lwip e);
         output_all out (e\<lparr>TCPTimer := localtime, lwip := l\<rparr>)
       } else Some e);
     (if localtime - ARPTimer e \<ge> ARP_TMR_INTERVAL then do {
         let (out, l) = etharp_tmr L (lwip e);
         output_all out (e\<lparr>ARPTimer := localtime, lwip := l\<rparr>)
       } else Some e)
   }"

section \<open>Transmission\<close>

text \<open>The transmit ring as \<open>low_level_init\<close> sets it up.\<close>

definition tx_ring :: "'l eth \<Rightarrow> bool" where
  "tx_ring e \<longleftrightarrow> length (DMATxDscrTab e) = 2 \<and> length (Tx_Buff e) = 3040 \<and> DMATxDescToSet e < 2 \<and>
     (\<forall>i < 2. Buffer1Addr (DMATxDscrTab e ! i) = i * 1520 \<and> Buffer2NextDescAddr (DMATxDscrTab e ! i) = 1 - i)"

definition tx_data :: "nat \<Rightarrow> nat \<Rightarrow> 'l eth \<Rightarrow> u8 list" where
  "tx_data i n e = take n (drop (i * 1520) (Tx_Buff e))"

lemma copy_out_Some:
  "pos + length (concat p) \<le> length mem \<Longrightarrow>
     copy_out p pos mem = Some (take pos mem @ concat p @ drop (pos + length (concat p)) mem)"
proof (induction p arbitrary: pos mem)
  case (Cons q p)
  let ?m = "take pos mem @ q @ drop (pos + length q) mem"
  have "memcpy mem pos q (length q) = Some ?m" using Cons.prems by (simp add: memcpy_def)
  moreover have "copy_out p (pos + length q) ?m = Some (take (pos + length q) ?m @ concat p @
      drop (pos + length q + length (concat p)) ?m)"
    using Cons.prems by (intro Cons.IH) simp
  ultimately show ?case using Cons.prems by (simp add: add.commute add.left_commute)
qed simp

lemma fill_tx_buffer_Some:
  assumes "tx_ring e" "length (concat p) \<le> 1520"
  shows "\<exists>m. fill_tx_buffer p e = Some (e\<lparr>Tx_Buff := m\<rparr>) \<and> length m = 3040 \<and>
    take (length (concat p)) (drop (DMATxDescToSet e * 1520) m) = concat p \<and>
    (\<forall>n \<le> 1520. take n (drop ((1 - DMATxDescToSet e) * 1520) m) = tx_data (1 - DMATxDescToSet e) n e)"
proof -
  let ?i = "DMATxDescToSet e" and ?n = "length (concat p)"
  define m where "m = take (?i * 1520) (Tx_Buff e) @ concat p @ drop (?i * 1520 + ?n) (Tx_Buff e)"
  have e: "length (DMATxDscrTab e) = 2" "length (Tx_Buff e) = 3040" "?i < 2" "Buffer1Addr (DMATxDscrTab e ! ?i) = ?i * 1520"
    using assms(1) by (auto simp: tx_ring_def)
  then have i: "?i = 0 \<or> ?i = 1" by auto
  have room: "?i * 1520 + ?n \<le> length (Tx_Buff e)" using i e(2) assms(2) by auto
  have "fill_tx_buffer p e = Some (e\<lparr>Tx_Buff := m\<rparr>)"
    using e copy_out_Some [OF room] by (simp add: fill_tx_buffer_def ETH_GetCurrentTxBuffer_def idx_def m_def)
  moreover have "length m = 3040" using room e(2) by (simp add: m_def)
  moreover have "take ?n (drop (?i * 1520) m) = concat p" using i e(2) by (auto simp: m_def)
  moreover have "\<forall>n \<le> 1520. take n (drop ((1 - ?i) * 1520) m) = tx_data (1 - ?i) n e"
    using i e(2) assms(2) by (auto simp: m_def tx_data_def take_drop)
  ultimately show ?thesis by blast
qed

text \<open>Sending changes the transmit side only.\<close>

definition tx_only :: "'l eth \<Rightarrow> 'l eth \<Rightarrow> bool" where
  "tx_only e t \<longleftrightarrow> (\<exists>tab m s p i. t = e\<lparr>DMATxDscrTab := tab, Tx_Buff := m, DMASR := s, tx_polls := p, DMATxDescToSet := i\<rparr> \<and>
     s AND NOT TBUS = DMASR e AND NOT TBUS)"

lemma tx_only_trans:
  assumes "tx_only e t" "tx_only t u"
  shows "tx_only e u"
proof -
  from assms(1) obtain tab m s p i where t: "t = e\<lparr>DMATxDscrTab := tab, Tx_Buff := m, DMASR := s, tx_polls := p, DMATxDescToSet := i\<rparr>"
    "s AND NOT TBUS = DMASR e AND NOT TBUS" unfolding tx_only_def by blast
  from assms(2) obtain tab' m' s' p' i' where u: "u = t\<lparr>DMATxDscrTab := tab', Tx_Buff := m', DMASR := s', tx_polls := p', DMATxDescToSet := i'\<rparr>"
    "s' AND NOT TBUS = DMASR t AND NOT TBUS" unfolding tx_only_def by blast
  have "u = e\<lparr>DMATxDscrTab := tab', Tx_Buff := m', DMASR := s', tx_polls := p', DMATxDescToSet := i'\<rparr>"
    unfolding u(1) t(1) by simp
  moreover have "s' AND NOT TBUS = DMASR e AND NOT TBUS" using u(2) t by simp
  ultimately show ?thesis unfolding tx_only_def by blast
qed

lemma and_NOT_eq:
  assumes "x AND NOT b = y AND NOT b" "m AND b = (0 :: 'a::len word)"
  shows "x AND m = y AND m"
proof -
  have "m AND (b OR NOT b) = (m AND b) OR (m AND NOT b)" by (rule bit.conj_disj_distrib)
  then have m: "m = NOT b AND m" using assms(2) by (simp add: and.commute)
  have "x AND (NOT b AND m) = y AND (NOT b AND m)" using assms(1) by (simp add: and.assoc [symmetric])
  then show ?thesis using m by simp
qed

lemma tx_onlyI:
  assumes "t\<lparr>DMATxDscrTab := DMATxDscrTab e, Tx_Buff := Tx_Buff e, DMASR := DMASR e, tx_polls := tx_polls e,
    DMATxDescToSet := DMATxDescToSet e\<rparr> = e" "DMASR t AND NOT TBUS = DMASR e AND NOT TBUS"
  shows "tx_only e t"
proof -
  let ?r = "\<lambda>u. u\<lparr>DMATxDscrTab := DMATxDscrTab t, Tx_Buff := Tx_Buff t, DMASR := DMASR t, tx_polls := tx_polls t,
    DMATxDescToSet := DMATxDescToSet t\<rparr>"
  have "?r e = ?r (t\<lparr>DMATxDscrTab := DMATxDscrTab e, Tx_Buff := Tx_Buff e, DMASR := DMASR e, tx_polls := tx_polls e,
    DMATxDescToSet := DMATxDescToSet e\<rparr>)" by (simp only: assms(1))
  also have "\<dots> = t" by simp
  finally have t: "?r e = t" .
  show ?thesis unfolding tx_only_def by (intro exI conjI) (rule t [symmetric], rule assms(2))
qed

lemma tx_only_refl: "tx_only e e"
  by (rule tx_onlyI) simp_all

lemma tx_only_fields:
  assumes "tx_only e t"
  shows "DMARxDscrTab t = DMARxDscrTab e \<and> Rx_Buff t = Rx_Buff e \<and> DMARxDescToGet t = DMARxDescToGet e \<and>
    hw_RxDesc t = hw_RxDesc e \<and> lwip t = lwip e \<and> lwip_in t = lwip_in e \<and> DMASR t AND DMA_IT_R = DMASR e AND DMA_IT_R"
  using assms and_NOT_eq [of "DMASR t" TBUS "DMASR e" DMA_IT_R] by (auto simp: tx_only_def)

lemma tx_length: "n \<le> 1520 \<Longrightarrow> ucast (of_nat n :: u16) AND 0x1FFF = (of_nat n :: u32)"
proof -
  assume n: "n \<le> 1520"
  have "unat (ucast (of_nat n :: u16) :: u32) = n" using n by (simp add: unat_of_nat take_bit_nat_eq_self unsigned_ucast_eq)
  moreover have "unat (of_nat n :: u32) = n" using n by (simp add: unat_of_nat take_bit_nat_eq_self)
  ultimately have "ucast (of_nat n :: u16) = (of_nat n :: u32)" by (metis word_unat_eq_iff)
  moreover have "of_nat n AND 0x1FFF = (of_nat n :: u32)"
  proof -
    have "take_bit 13 (of_nat n :: u32) = of_nat n" using n by (simp add: word_unat_eq_iff unsigned_take_bit_eq unat_of_nat take_bit_nat_eq_self)
    then show ?thesis by (simp add: take_bit_eq_mask mask_eq_exp_minus_1)
  qed
  ultimately show ?thesis by simp
qed

definition tx_desc :: "nat \<Rightarrow> ETH_DMADESCTypeDef \<Rightarrow> ETH_DMADESCTypeDef" where
  "tx_desc n d = d\<lparr>ControlBufferSize := of_nat n, Status := Status d OR 0xB0000000\<rparr>"

lemma ETH_TxPkt_own:
  assumes "tx_ring e" "Status (DMATxDscrTab e ! DMATxDescToSet e) AND DESC_OWN \<noteq> 0"
  shows "ETH_TxPkt_ChainMode len e = Some (ETH_ERROR, e)"
  using assms by (auto simp: tx_ring_def ETH_TxPkt_ChainMode_def idx_def)

lemma ETH_TxPkt_free:
  assumes "tx_ring e" "Status (DMATxDscrTab e ! DMATxDescToSet e) AND DESC_OWN = 0" "n \<le> 1520"
  shows "\<exists>s p. ETH_TxPkt_ChainMode (of_nat n) e = Some (ETH_SUCCESS, e\<lparr>DMATxDscrTab :=
      (DMATxDscrTab e)[DMATxDescToSet e := tx_desc n (DMATxDscrTab e ! DMATxDescToSet e)], DMASR := s, tx_polls := p,
      DMATxDescToSet := 1 - DMATxDescToSet e\<rparr>) \<and> s AND NOT TBUS = DMASR e AND NOT TBUS"
proof -
  let ?i = "DMATxDescToSet e"
  have e: "?i < length (DMATxDscrTab e)" "Buffer2NextDescAddr (DMATxDscrTab e ! ?i) = 1 - ?i"
    using assms(1) by (auto simp: tx_ring_def)
  let ?t = "e\<lparr>DMATxDscrTab := (DMATxDscrTab e)[?i := tx_desc n (DMATxDscrTab e ! ?i)]\<rparr>"
  have r: "ETH_TxPkt_ChainMode (of_nat n) e = Some (ETH_SUCCESS,
      (if DMASR e AND TBUS \<noteq> 0 then ?t\<lparr>DMASR := DMASR e AND NOT TBUS, tx_polls := Suc (tx_polls e)\<rparr> else ?t)
        \<lparr>DMATxDescToSet := 1 - ?i\<rparr>)"
    using e assms(2,3) by (simp add: ETH_TxPkt_ChainMode_def idx_def upd_def Let_def tx_desc_def tx_length write_DMASR_def or.assoc)
  show ?thesis
  proof (cases "DMASR e AND TBUS = 0")
    case True
    with r show ?thesis by (intro exI [of _ "DMASR e"] exI [of _ "tx_polls e"]) simp
  next
    case False
    with r show ?thesis by (intro exI [of _ "DMASR e AND NOT TBUS"] exI [of _ "Suc (tx_polls e)"]) (simp add: and.assoc)
  qed
qed

lemma tx_ring_upd:
  assumes "tx_ring e" "length m = 3040"
  shows "tx_ring (e\<lparr>Tx_Buff := m\<rparr>)"
    "tx_ring (e\<lparr>Tx_Buff := m, DMATxDscrTab := (DMATxDscrTab e)[DMATxDescToSet e := tx_desc n (DMATxDscrTab e ! DMATxDescToSet e)],
       DMASR := s, tx_polls := p, DMATxDescToSet := 1 - DMATxDescToSet e\<rparr>)"
  using assms by (auto simp: tx_ring_def nth_list_update tx_desc_def)

text \<open>C30. A frame of up to 1520 bytes is copied into the buffer of the current descriptor and reported as
  sent in any case. If the descriptor is free, it is handed to the DMA with the length of the frame;
  if the DMA still owns it, the frame is lost, and its bytes have replaced those of a frame that
  was waiting to be sent.\<close>

theorem low_level_output_result:
  assumes "tx_ring e" "length (concat p) \<le> 1520"
  shows "\<exists>t. low_level_output p e = Some (ERR_OK, t) \<and> tx_ring t \<and>
    tx_data (DMATxDescToSet e) (length (concat p)) t = concat p \<and>
    (\<forall>n \<le> 1520. tx_data (1 - DMATxDescToSet e) n t = tx_data (1 - DMATxDescToSet e) n e) \<and>
    (if Status (DMATxDscrTab e ! DMATxDescToSet e) AND DESC_OWN = 0
     then DMATxDscrTab t = (DMATxDscrTab e)[DMATxDescToSet e := tx_desc (length (concat p)) (DMATxDscrTab e ! DMATxDescToSet e)] \<and>
       DMATxDescToSet t = 1 - DMATxDescToSet e
     else DMATxDscrTab t = DMATxDscrTab e \<and> DMATxDescToSet t = DMATxDescToSet e)"
proof -
  let ?n = "length (concat p)"
  obtain m where m: "fill_tx_buffer p e = Some (e\<lparr>Tx_Buff := m\<rparr>)" "length m = 3040"
    "take ?n (drop (DMATxDescToSet e * 1520) m) = concat p"
    "\<forall>n \<le> 1520. take n (drop ((1 - DMATxDescToSet e) * 1520) m) = tx_data (1 - DMATxDescToSet e) n e"
    using fill_tx_buffer_Some [OF assms] by blast
  note ring = tx_ring_upd [OF assms(1) m(2)]
  show ?thesis
  proof (cases "Status (DMATxDscrTab e ! DMATxDescToSet e) AND DESC_OWN = 0")
    case True
    with ETH_TxPkt_free [OF ring(1) _ assms(2)] obtain s q where
      "ETH_TxPkt_ChainMode (of_nat ?n) (e\<lparr>Tx_Buff := m\<rparr>) = Some (ETH_SUCCESS, e\<lparr>Tx_Buff := m, DMATxDscrTab :=
        (DMATxDscrTab e)[DMATxDescToSet e := tx_desc ?n (DMATxDscrTab e ! DMATxDescToSet e)], DMASR := s, tx_polls := q,
        DMATxDescToSet := 1 - DMATxDescToSet e\<rparr>)" by auto
    with m ring(2) True show ?thesis by (simp add: low_level_output_def tx_data_def)
  next
    case False
    with ETH_TxPkt_own [OF ring(1)] m ring(1) show ?thesis by (simp add: low_level_output_def tx_data_def)
  qed
qed

lemma low_level_output_only:
  assumes "tx_ring e" "length (concat p) \<le> 1520" "low_level_output p e = Some (r, t)"
  shows "tx_only e t"
proof -
  obtain m where m: "fill_tx_buffer p e = Some (e\<lparr>Tx_Buff := m\<rparr>)" "length m = 3040"
    using fill_tx_buffer_Some [OF assms(1,2)] by blast
  let ?u = "e\<lparr>Tx_Buff := m\<rparr>"
  have eu: "tx_only e ?u" by (rule tx_onlyI) simp_all
  have "tx_only ?u t"
  proof (cases "Status (DMATxDscrTab ?u ! DMATxDescToSet ?u) AND DESC_OWN = 0")
    case True
    from ETH_TxPkt_free [OF tx_ring_upd(1) [OF assms(1) m(2)] True assms(2)] m assms(3) show ?thesis
      by (auto simp: low_level_output_def intro!: tx_onlyI)
  next
    case False
    with ETH_TxPkt_own [OF tx_ring_upd(1) [OF assms(1) m(2)]] m assms(3) show ?thesis
      by (auto simp: low_level_output_def tx_only_refl)
  qed
  with eu show ?thesis by (rule tx_only_trans)
qed

lemma output_all_only:
  "tx_ring e \<Longrightarrow> list_all (\<lambda>p. length (concat p) \<le> 1520) ps \<Longrightarrow> \<exists>t. output_all ps e = Some t \<and> tx_ring t \<and> tx_only e t"
proof (induction ps arbitrary: e)
  case (Cons p ps)
  from Cons.prems have p: "length (concat p) \<le> 1520" by simp
  obtain t where t: "low_level_output p e = Some (ERR_OK, t)" "tx_ring t"
    using low_level_output_result [OF Cons.prems(1) p] by blast
  from Cons.IH [OF t(2)] Cons.prems(2) obtain u where "output_all ps t = Some u" "tx_ring u" "tx_only t u" by auto
  with t low_level_output_only [OF Cons.prems(1) p t(1)] show ?case by (auto intro: tx_only_trans)
qed (simp add: tx_only_refl)

text \<open>The main loop fills a transmit buffer and is interrupted before it hands it over; the interrupt
  handler answers the frame it has received, for instance an ARP request.\<close>

definition output_preempted :: "pbuf \<Rightarrow> pbuf \<Rightarrow> 'l eth \<Rightarrow> (u8 \<times> 'l eth) option" where
  "output_preempted p q e = do {
     e \<leftarrow> fill_tx_buffer p e;
     (r, e) \<leftarrow> low_level_output q e;
     (r, e) \<leftarrow> ETH_TxPkt_ChainMode (of_nat (length (concat p))) e;
     Some (ERR_OK, e)
   }"

lemma output_not_preempted:
  "low_level_output p e = do { e \<leftarrow> fill_tx_buffer p e; (r, e) \<leftarrow> ETH_TxPkt_ChainMode (of_nat (length (concat p))) e; Some (ERR_OK, e) }"
  by (simp add: low_level_output_def)

text \<open>C14. With both descriptors free, a frame of the main loop that is interrupted by the sending of another
  frame is never sent: the other frame goes out in its place, and in its own place the old contents
  of the second buffer, cut to its length.\<close>

theorem preempted_output_sends_stale_data:
  assumes "tx_ring e" "length (concat p) \<le> 1520" "length (concat q) \<le> 1520"
    "\<forall>i < 2. Status (DMATxDscrTab e ! i) AND DESC_OWN = 0"
  defines "i \<equiv> DMATxDescToSet e"
  shows "\<exists>t. output_preempted p q e = Some (ERR_OK, t) \<and>
    DMATxDscrTab t ! i = tx_desc (length (concat q)) (DMATxDscrTab e ! i) \<and> tx_data i (length (concat q)) t = concat q \<and>
    DMATxDscrTab t ! (1 - i) = tx_desc (length (concat p)) (DMATxDscrTab e ! (1 - i)) \<and>
    tx_data (1 - i) (length (concat p)) t = tx_data (1 - i) (length (concat p)) e"
proof -
  obtain m where m: "fill_tx_buffer p e = Some (e\<lparr>Tx_Buff := m\<rparr>)" "length m = 3040"
    "\<forall>n \<le> 1520. take n (drop ((1 - i) * 1520) m) = tx_data (1 - i) n e"
    using fill_tx_buffer_Some [OF assms(1,2)] unfolding i_def by blast
  let ?u = "e\<lparr>Tx_Buff := m\<rparr>"
  have u: "tx_ring ?u" "DMATxDescToSet ?u = i" "DMATxDscrTab ?u = DMATxDscrTab e" "\<forall>n. tx_data (1 - i) n ?u = take n (drop ((1 - i) * 1520) m)"
    using tx_ring_upd(1) [OF assms(1) m(2)] by (simp_all add: i_def tx_data_def)
  have i: "i < 2" "length (DMATxDscrTab e) = 2" using assms(1) by (simp_all add: tx_ring_def i_def)
  then have i2: "i = 0 \<or> i = 1" by auto
  obtain v where v: "low_level_output q ?u = Some (ERR_OK, v)" "tx_ring v" "tx_data i (length (concat q)) v = concat q"
    "\<forall>n \<le> 1520. tx_data (1 - i) n v = tx_data (1 - i) n ?u"
    "DMATxDscrTab v = (DMATxDscrTab e)[i := tx_desc (length (concat q)) (DMATxDscrTab e ! i)]" "DMATxDescToSet v = 1 - i"
    using low_level_output_result [OF u(1) assms(3)] u(2,3) assms(4) i(1) by auto
  have "Status (DMATxDscrTab v ! DMATxDescToSet v) AND DESC_OWN = 0" using v(5,6) i i2 assms(4) by auto
  from ETH_TxPkt_free [OF v(2) this assms(2)] v(6) obtain s r where
    t: "ETH_TxPkt_ChainMode (of_nat (length (concat p))) v = Some (ETH_SUCCESS, v\<lparr>DMATxDscrTab :=
      (DMATxDscrTab v)[1 - i := tx_desc (length (concat p)) (DMATxDscrTab v ! (1 - i))], DMASR := s, tx_polls := r,
      DMATxDescToSet := 1 - (1 - i)\<rparr>)" by auto
  show ?thesis
    using m v t u i i2 assms(2) by (auto simp: output_preempted_def tx_data_def)
qed

text \<open>A transmit ring with both descriptors free.\<close>

definition tx_sample :: "unit eth" where
  "tx_sample = (reset_eth True ())\<lparr>DMATxDscrTab :=
     [\<lparr>Status = 0x00D00000, ControlBufferSize = 0, Buffer1Addr = 0, Buffer2NextDescAddr = 1\<rparr>,
      \<lparr>Status = 0x00D00000, ControlBufferSize = 0, Buffer1Addr = 1520, Buffer2NextDescAddr = 0\<rparr>]\<rparr>"

lemma tx_sample_ring:
  "tx_ring tx_sample" "\<forall>i < 2. Status (DMATxDscrTab tx_sample ! i) AND DESC_OWN = 0" "DMATxDescToSet tx_sample = 0"
  by (auto simp: tx_ring_def tx_sample_def reset_eth_def less_2_cases_iff)

theorem low_level_output_result_witness:
  "\<exists>t. low_level_output [[1, 2], [3]] tx_sample = Some (ERR_OK, t) \<and> tx_data 0 3 t = [1, 2, 3] \<and> DMATxDescToSet t = 1"
  using low_level_output_result [OF tx_sample_ring(1), of "[[1, 2], [3]]"] tx_sample_ring(2,3)
  by (auto simp: numeral_eq_Suc)

theorem preempted_output_sends_stale_data_witness:
  "\<exists>t. output_preempted [[1, 2]] [[9]] tx_sample = Some (ERR_OK, t) \<and> tx_data 0 1 t = [9]"
  using preempted_output_sends_stale_data [OF tx_sample_ring(1) _ _ tx_sample_ring(2), of "[[1, 2]]" "[[9]]"] tx_sample_ring(3)
  by auto

end
