(* ===== verification/EthRx.thy ===== *)
theory EthRx
  imports EthIf
begin

text \<open>
  Reception: the ring of receive descriptors, filled by the DMA while the interrupt handler
  empties it, refines a queue of at most four frames. The DMA may act before every step of the
  handler; a step of the handler is a pass of its loop, the exit from the loop or the clearing of
  the interrupt flags.
\<close>

section \<open>The DMA and the handler as steps\<close>

text \<open>The DMA closes its descriptor with a status and the bytes it has received, raises the receive
  interrupt and goes on to the next descriptor; without a free descriptor it notes that and
  drops the frame.\<close>

definition dma_receive :: "u32 \<Rightarrow> u8 list \<Rightarrow> 'l eth \<Rightarrow> 'l eth option" where
  "dma_receive st data e = do {
     d \<leftarrow> idx (DMARxDscrTab e) (hw_RxDesc e);
     if Status d AND DESC_OWN \<noteq> 0 then do {
       mem \<leftarrow> memcpy (Rx_Buff e) (Buffer1Addr d) data (length data);
       tab \<leftarrow> upd (DMARxDscrTab e) (hw_RxDesc e) (d\<lparr>Status := st\<rparr>);
       Some (e\<lparr>Rx_Buff := mem, DMARxDscrTab := tab, hw_RxDesc := Buffer2NextDescAddr d,
         DMASR := DMASR e OR (DMA_IT_R OR DMA_IT_NIS)\<rparr>)
     } else Some (e\<lparr>DMASR := DMASR e OR RBUS\<rparr>)
   }"

datatype rx_pc = Rx_Idle | Rx_Loop | Rx_Clear

datatype rx_event = Dma u32 "u8 list" | Cpu

fun rx_step :: "'l lwip_ops \<Rightarrow> rx_event \<Rightarrow> rx_pc \<times> 'l eth \<Rightarrow> (rx_pc \<times> 'l eth) option" where
  "rx_step L (Dma st data) (pc, e) = map_option (Pair pc) (dma_receive st data e)"
| "rx_step L Cpu (Rx_Idle, e) = Some (if DMASR e AND DMA_IT_R \<noteq> 0 then Rx_Loop else Rx_Idle, e)"
| "rx_step L Cpu (Rx_Loop, e) = do {
     n \<leftarrow> ETH_GetRxPktSize e;
     if n \<noteq> 0 then map_option (Pair Rx_Loop) (LwIP_Pkt_Handle L e) else Some (Rx_Clear, e)
   }"
| "rx_step L Cpu (Rx_Clear, e) =
     Some (Rx_Idle, ETH_DMAClearITPendingBit DMA_IT_NIS (ETH_DMAClearITPendingBit DMA_IT_R e))"

fun rx_run :: "'l lwip_ops \<Rightarrow> rx_event list \<Rightarrow> rx_pc \<times> 'l eth \<Rightarrow> (rx_pc \<times> 'l eth) option" where
  "rx_run L [] c = Some c"
| "rx_run L (ev # evs) c = do { c \<leftarrow> rx_step L ev c; rx_run L evs c }"

lemma rx_run_append: "rx_run L (evs @ evs') c = Option.bind (rx_run L evs c) (rx_run L evs')"
proof (induction evs arbitrary: c)
  case (Cons ev evs)
  show ?case by (cases "rx_step L ev c") (simp_all add: Cons.IH)
qed simp

section \<open>The ring as a queue\<close>

text \<open>A status the DMA gives a frame it has received without error into one descriptor; the length
  includes the four bytes of the checksum, which are in the buffer too.\<close>

definition good_frame :: "u32 \<Rightarrow> u8 list \<Rightarrow> bool" where
  "good_frame st data \<longleftrightarrow> st AND DESC_OWN = 0 \<and> st AND RX_ES = 0 \<and> st AND RX_LS \<noteq> 0 \<and> st AND RX_FS \<noteq> 0 \<and>
     drop_bit 16 (st AND RX_FL) = of_nat (length data) \<and> 4 \<le> length data \<and> length data \<le> 1520"

definition without_crc :: "u8 list \<Rightarrow> u8 list" where
  "without_crc data = take (length data - 4) data"

definition rx_slot :: "'l eth \<Rightarrow> nat \<Rightarrow> nat" where
  "rx_slot e k = (DMARxDescToGet e + k) mod 4"

definition rx_table :: "'l eth \<Rightarrow> bool" where
  "rx_table e \<longleftrightarrow> length (DMARxDscrTab e) = 4 \<and> length (Rx_Buff e) = 6080 \<and> DMARxDescToGet e < 4 \<and> hw_RxDesc e < 4 \<and>
     (\<forall>i < 4. Buffer1Addr (DMARxDscrTab e ! i) = i * 1520 \<and> Buffer2NextDescAddr (DMARxDscrTab e ! i) = Suc i mod 4)"

definition rx_holds :: "'l eth \<Rightarrow> nat \<Rightarrow> u8 list \<Rightarrow> bool" where
  "rx_holds e i data \<longleftrightarrow> good_frame (Status (DMARxDscrTab e ! i)) data \<and> take (length data) (drop (i * 1520) (Rx_Buff e)) = data"

definition rx_ring :: "u8 list list \<Rightarrow> 'l eth \<Rightarrow> bool" where
  "rx_ring q e \<longleftrightarrow> rx_table e \<and> length q \<le> 4 \<and> hw_RxDesc e = rx_slot e (length q) \<and>
     (\<forall>k < length q. rx_holds e (rx_slot e k) (q ! k)) \<and>
     (\<forall>k. length q \<le> k \<and> k < 4 \<longrightarrow> Status (DMARxDscrTab e ! rx_slot e k) AND DESC_OWN \<noteq> 0)"

lemma rx_slot_less [simp]: "rx_slot e k < 4"
  by (simp add: rx_slot_def)

lemma slot_inject: "j < 4 \<Longrightarrow> k < 4 \<Longrightarrow> (g + j) mod 4 = (g + k) mod 4 \<Longrightarrow> j = (k :: nat)"
  by presburger

lemma slot_Suc: "(Suc g mod 4 + k) mod 4 = (g + Suc k) mod (4 :: nat)"
  by presburger

lemma slot_wrap: "(Suc g mod 4 + 3) mod 4 = g mod (4 :: nat)"
  by presburger

text \<open>Writing into one buffer leaves the others alone.\<close>

lemma buffer_frame:
  assumes "length mem = 6080" "i < 4" "j < 4" "i \<noteq> j" "length data \<le> 1520" "n \<le> 1520"
  shows "take n (drop (j * 1520) (take (i * 1520) mem @ data @ drop (i * 1520 + length data) mem)) = take n (drop (j * 1520) mem)"
proof (cases "i < j")
  case True
  then have "i * 1520 + 1520 \<le> j * 1520" by auto
  moreover have "i * 1520 \<le> 6080" using assms by auto
  ultimately have le: "i * 1520 + length data \<le> j * 1520" "min 6080 (i * 1520) = i * 1520" using assms(5) by auto
  then show ?thesis using assms(1) by simp
next
  case False
  then have le: "j * 1520 + 1520 \<le> i * 1520" using assms(4) by auto
  have "drop (j * 1520) (take (i * 1520) mem @ data @ drop (i * 1520 + length data) mem) =
      take (i * 1520 - j * 1520) (drop (j * 1520) mem) @ data @ drop (i * 1520 + length data) mem"
    using le assms(1,2) by (simp add: drop_take)
  moreover have "n \<le> i * 1520 - j * 1520" using le assms(6) by auto
  moreover have "i * 1520 - j * 1520 \<le> length (drop (j * 1520) mem)" using assms(1,2) by auto
  ultimately show ?thesis by simp
qed

lemma buffer_filled:
  assumes "length mem = 6080" "i < 4" "length data \<le> 1520"
  shows "take (length data) (drop (i * 1520) (take (i * 1520) mem @ data @ drop (i * 1520 + length data) mem)) = data"
proof -
  have "i * 1520 \<le> 6080" using assms(2) by auto
  then show ?thesis using assms(1) by simp
qed

lemma dma_receive_own:
  assumes "rx_table e" "Status (DMARxDscrTab e ! hw_RxDesc e) AND DESC_OWN \<noteq> 0" "length data \<le> 1520"
  shows "dma_receive st data e = Some (e\<lparr>
      Rx_Buff := take (hw_RxDesc e * 1520) (Rx_Buff e) @ data @ drop (hw_RxDesc e * 1520 + length data) (Rx_Buff e),
      DMARxDscrTab := (DMARxDscrTab e)[hw_RxDesc e := (DMARxDscrTab e ! hw_RxDesc e)\<lparr>Status := st\<rparr>],
      hw_RxDesc := Suc (hw_RxDesc e) mod 4, DMASR := DMASR e OR (DMA_IT_R OR DMA_IT_NIS)\<rparr>)"
proof -
  have "hw_RxDesc e < 4" "length (Rx_Buff e) = 6080" using assms(1) by (auto simp: rx_table_def)
  then have "hw_RxDesc e * 1520 + length data \<le> 6080" using assms(3) by auto
  with assms show ?thesis by (simp add: dma_receive_def rx_table_def idx_def upd_def memcpy_def)
qed

lemma dma_receive_busy:
  assumes "rx_table e" "Status (DMARxDscrTab e ! hw_RxDesc e) AND DESC_OWN = 0"
  shows "dma_receive st data e = Some (e\<lparr>DMASR := DMASR e OR RBUS\<rparr>)"
  using assms by (simp add: dma_receive_def rx_table_def idx_def)

text \<open>A good frame is appended to the queue, or dropped when four are waiting.\<close>

lemma dma_receive_ring:
  assumes ring: "rx_ring q e" and good: "good_frame st data"
  shows "\<exists>t. dma_receive st data e = Some t \<and>
    (if length q < 4 then rx_ring (q @ [data]) t \<and> DMASR t AND DMA_IT_R \<noteq> 0
     else rx_ring q t \<and> DMASR t AND DMA_IT_R = DMASR e AND DMA_IT_R) \<and>
    lwip_in t = lwip_in e \<and> lwip t = lwip e \<and> (tx_ring e \<longrightarrow> tx_ring t)"
proof (cases "length q < 4")
  case True
  let ?h = "hw_RxDesc e"
  have tab: "rx_table e" and h: "?h = rx_slot e (length q)" using ring by (auto simp: rx_ring_def)
  have len: "length data \<le> 1520" using good by (simp add: good_frame_def)
  have own: "Status (DMARxDscrTab e ! ?h) AND DESC_OWN \<noteq> 0" using ring True by (simp add: rx_ring_def)
  define t where "t = e\<lparr>
      Rx_Buff := take (?h * 1520) (Rx_Buff e) @ data @ drop (?h * 1520 + length data) (Rx_Buff e),
      DMARxDscrTab := (DMARxDscrTab e)[?h := (DMARxDscrTab e ! ?h)\<lparr>Status := st\<rparr>],
      hw_RxDesc := Suc ?h mod 4, DMASR := DMASR e OR (DMA_IT_R OR DMA_IT_NIS)\<rparr>"
  have t: "dma_receive st data e = Some t" using dma_receive_own [OF tab own len] by (simp add: t_def)
  have h4: "?h < 4" "length (Rx_Buff e) = 6080" "length (DMARxDscrTab e) = 4" using tab by (auto simp: rx_table_def)
  then have "?h * 1520 + length data \<le> 6080" using len by auto
  then have tab': "rx_table t" using tab by (auto simp: rx_table_def t_def nth_list_update)
  have slot: "rx_slot t k = rx_slot e k" for k by (simp add: rx_slot_def t_def)
  have ne: "rx_slot e k \<noteq> ?h" if "k < 4" "k \<noteq> length q" for k
    using that True h slot_inject [of k "length q" "DMARxDescToGet e"] by (auto simp: rx_slot_def)
  have old: "rx_holds t (rx_slot e k) (q ! k)" if "k < length q" for k
  proof -
    have "rx_holds e (rx_slot e k) (q ! k)" using ring that by (simp add: rx_ring_def)
    moreover have "take n (drop (rx_slot e k * 1520) (Rx_Buff t)) = take n (drop (rx_slot e k * 1520) (Rx_Buff e))" if "n \<le> 1520" for n
      using buffer_frame [of "Rx_Buff e" ?h "rx_slot e k" data n] h4 len ne [of k] that \<open>k < length q\<close> True by (simp add: t_def)
    ultimately show ?thesis using ne [of k] that True by (simp add: rx_holds_def good_frame_def t_def)
  qed
  moreover have "rx_holds t ?h data"
    using good h4 buffer_filled [of "Rx_Buff e" ?h data] len by (simp add: rx_holds_def t_def)
  ultimately have "\<forall>k < length (q @ [data]). rx_holds t (rx_slot t k) ((q @ [data]) ! k)"
    using h slot by (auto simp: nth_append less_Suc_eq)
  moreover have "Status (DMARxDscrTab t ! rx_slot t k) AND DESC_OWN \<noteq> 0" if "length (q @ [data]) \<le> k" "k < 4" for k
    using ring that ne [of k] slot by (simp add: rx_ring_def t_def)
  moreover have "hw_RxDesc t = rx_slot t (length (q @ [data]))"
    using h slot_Suc by (simp add: t_def rx_slot_def mod_Suc_eq)
  ultimately have "rx_ring (q @ [data]) t" using tab' True by (simp add: rx_ring_def)
  moreover have "DMASR t AND DMA_IT_R \<noteq> 0" by (simp add: t_def bit.conj_disj_distrib2)
  moreover have "tx_ring e \<longrightarrow> tx_ring t" by (simp add: tx_ring_def t_def)
  ultimately show ?thesis using t True by (simp add: t_def)
next
  case False
  have tab: "rx_table e" and q: "length q = 4" and h: "hw_RxDesc e = rx_slot e 4" using ring False by (auto simp: rx_ring_def)
  have "rx_slot e 4 = rx_slot e 0" by (simp add: rx_slot_def)
  moreover have "rx_holds e (rx_slot e 0) (q ! 0)" using ring q by (simp add: rx_ring_def)
  ultimately have "Status (DMARxDscrTab e ! hw_RxDesc e) AND DESC_OWN = 0" using h by (simp add: rx_holds_def good_frame_def)
  from dma_receive_busy [OF tab this, of st data] show ?thesis
    using False ring by (simp add: rx_ring_def rx_table_def rx_holds_def rx_slot_def tx_ring_def bit.conj_disj_distrib2)
qed

text \<open>What lwIP promises: a chain of buffers has the length asked for, and no frame it sends is longer
  than a transmit buffer.\<close>

definition lwip_ok :: "'l lwip_ops \<Rightarrow> bool" where
  "lwip_ok L \<longleftrightarrow> (\<forall>len l ns l'. pbuf_alloc L len l = (Some ns, l') \<longrightarrow> sum_list ns = unat len) \<and>
     (\<forall>p l. list_all (\<lambda>q. length (concat q) \<le> 1520) (fst (snd (ethernet_input L p l))))"

text \<open>A frame cut into buffers of the given lengths.\<close>

primrec chain :: "nat list \<Rightarrow> u8 list \<Rightarrow> pbuf" where
  "chain [] f = []"
| "chain (n # ns) f = take n f # chain ns (drop n f)"

lemma concat_chain: "concat (chain ns f) = take (sum_list ns) f"
  by (induction ns arbitrary: f) (simp_all add: take_add)

lemma chain_take: "sum_list ns \<le> n \<Longrightarrow> chain ns (take n f) = chain ns f"
proof (induction ns arbitrary: n f)
  case (Cons m ns)
  have "chain ns (drop m (take n f)) = chain ns (drop m f)"
    using Cons.IH [of "n - m" "drop m f"] Cons.prems by (simp add: drop_take)
  with Cons.prems show ?case by (simp add: min_def)
qed simp

lemma copy_in_Some: "pos + sum_list ns \<le> length mem \<Longrightarrow> copy_in ns pos mem = Some (chain ns (drop pos mem))"
  by (induction ns arbitrary: pos) (simp_all add: add.commute)

lemma frame_length_u16:
  assumes "4 \<le> n" "n \<le> 1520"
  shows "(ucast (of_nat n - 4 :: u32) :: u16) = of_nat (n - 4)" "unat (of_nat (n - 4) :: u16) = n - 4"
proof -
  have "(of_nat n - 4 :: u32) = of_nat (n - 4)" using assms(1) by simp
  then show "(ucast (of_nat n - 4 :: u32) :: u16) = of_nat (n - 4)"
    using assms(2) by (simp add: word_unat_eq_iff unsigned_ucast_eq unat_of_nat take_bit_nat_eq_self)
  show "unat (of_nat (n - 4) :: u16) = n - 4" using assms(2) by (simp add: unat_of_nat take_bit_nat_eq_self)
qed

lemma rx_ring_empty_size: "rx_ring [] e \<Longrightarrow> ETH_GetRxPktSize e = Some 0"
proof -
  assume r: "rx_ring [] e"
  then have "rx_slot e 0 = DMARxDescToGet e" by (simp add: rx_ring_def rx_table_def rx_slot_def)
  with r have "Status (DMARxDscrTab e ! DMARxDescToGet e) AND DESC_OWN \<noteq> 0" by (auto simp: rx_ring_def dest: spec [of _ 0])
  with r show ?thesis by (simp add: ETH_GetRxPktSize_def rx_ring_def rx_table_def idx_def)
qed

lemma rx_ring_head:
  assumes "rx_ring (d # q) e"
  shows "rx_holds e (DMARxDescToGet e) d"
proof -
  have "rx_slot e 0 = DMARxDescToGet e" using assms by (simp add: rx_ring_def rx_table_def rx_slot_def)
  moreover have "rx_holds e (rx_slot e 0) ((d # q) ! 0)" using assms by (auto simp: rx_ring_def)
  ultimately show ?thesis by simp
qed

lemma rx_ring_size:
  assumes "rx_ring (d # q) e"
  shows "\<exists>n. ETH_GetRxPktSize e = Some n \<and> n \<noteq> 0"
proof -
  have g: "good_frame (Status (DMARxDscrTab e ! DMARxDescToGet e)) d" using rx_ring_head [OF assms] by (simp add: rx_holds_def)
  have d: "4 \<le> length d" "length d \<le> 1520" using g by (auto simp: good_frame_def)
  then have "unat (of_nat (length d) :: u32) = length d" by (simp add: unat_of_nat take_bit_nat_eq_self)
  then have "(of_nat (length d) :: u32) \<noteq> 0" using d(1) by fastforce
  with g assms show ?thesis
    by (simp add: ETH_GetRxPktSize_def ETH_GetDMARxDescFrameLength_def good_frame_def rx_ring_def rx_table_def idx_def)
qed

lemma RxPkt_head:
  assumes "rx_ring (d # q) e"
  shows "ETH_RxPkt_ChainMode e = Some (\<lparr>frame_length = of_nat (length d) - 4, frame_buffer = Some (DMARxDescToGet e * 1520),
      frame_descriptor = Some (DMARxDescToGet e)\<rparr>, e\<lparr>DMARxDescToGet := Suc (DMARxDescToGet e) mod 4\<rparr>)"
  using rx_ring_head [OF assms] assms
  by (simp add: ETH_RxPkt_ChainMode_def rx_holds_def good_frame_def rx_ring_def rx_table_def idx_def)

text \<open>Giving back the first descriptor takes the first frame off the queue.\<close>

definition rx_release :: "'l \<Rightarrow> 'l eth \<Rightarrow> 'l eth" where
  "rx_release l e = e\<lparr>DMARxDescToGet := Suc (DMARxDescToGet e) mod 4, lwip := l,
     DMARxDscrTab := (DMARxDscrTab e)[DMARxDescToGet e := (DMARxDscrTab e ! DMARxDescToGet e)\<lparr>Status := DESC_OWN\<rparr>]\<rparr>"

lemma rx_release_ring:
  assumes ring: "rx_ring (d # q) e"
  shows "rx_ring q (rx_release l e)"
proof -
  let ?g = "DMARxDescToGet e" and ?t = "rx_release l e"
  have tab: "rx_table e" and q: "length q < 4" and h: "hw_RxDesc e = rx_slot e (Suc (length q))" using ring by (auto simp: rx_ring_def)
  have g: "?g < 4" "length (DMARxDscrTab e) = 4" using tab by (auto simp: rx_table_def)
  have tab': "rx_table ?t" using tab by (auto simp: rx_table_def rx_release_def nth_list_update)
  have slot: "rx_slot ?t k = rx_slot e (Suc k)" for k by (simp add: rx_slot_def rx_release_def slot_Suc)
  have g0: "rx_slot e 0 = ?g" using g by (simp add: rx_slot_def)
  have ne: "rx_slot e (Suc k) \<noteq> ?g" if "Suc k < 4" for k
    using that g0 slot_inject [of "Suc k" 0 ?g] by (auto simp: rx_slot_def)
  have "rx_holds ?t (rx_slot ?t k) (q ! k)" if "k < length q" for k
  proof -
    have "rx_holds e (rx_slot e (Suc k)) ((d # q) ! Suc k)" using ring that by (auto simp: rx_ring_def)
    moreover have "Suc k < 4" using that q ring by (auto simp: rx_ring_def)
    ultimately show ?thesis using ne [of k] slot by (simp add: rx_holds_def rx_release_def)
  qed
  moreover have "Status (DMARxDscrTab ?t ! rx_slot ?t k) AND DESC_OWN \<noteq> 0" if k: "length q \<le> k" "k < 4" for k
  proof (cases "k = 3")
    case True
    then have "rx_slot ?t k = ?g" using g slot by (simp add: rx_slot_def)
    then show ?thesis using g by (simp add: rx_release_def)
  next
    case False
    with k have "Suc k < 4" by simp
    with ring k ne [of k] slot show ?thesis by (simp add: rx_ring_def rx_release_def)
  qed
  moreover have "hw_RxDesc ?t = rx_slot ?t (length q)" using h slot by (simp add: rx_release_def)
  ultimately show ?thesis using tab' q by (simp add: rx_ring_def)
qed

text \<open>The queue does not depend on what lwIP and the transmit side do.\<close>

lemma rx_ring_cong:
  assumes "rx_ring q e" "DMARxDscrTab t = DMARxDscrTab e" "Rx_Buff t = Rx_Buff e" "DMARxDescToGet t = DMARxDescToGet e"
    "hw_RxDesc t = hw_RxDesc e"
  shows "rx_ring q t"
  using assms by (simp add: rx_ring_def rx_table_def rx_holds_def rx_slot_def)

lemma tx_ring_cong:
  assumes "tx_ring e" "DMATxDscrTab t = DMATxDscrTab e" "Tx_Buff t = Tx_Buff e" "DMATxDescToSet t = DMATxDescToSet e"
  shows "tx_ring t"
  using assms by (simp add: tx_ring_def)

lemma resume_rx_fields:
  "DMARxDscrTab (resume_rx e) = DMARxDscrTab e" "Rx_Buff (resume_rx e) = Rx_Buff e" "DMARxDescToGet (resume_rx e) = DMARxDescToGet e"
  "hw_RxDesc (resume_rx e) = hw_RxDesc e" "lwip (resume_rx e) = lwip e" "lwip_in (resume_rx e) = lwip_in e"
  "DMATxDscrTab (resume_rx e) = DMATxDscrTab e" "Tx_Buff (resume_rx e) = Tx_Buff e" "DMATxDescToSet (resume_rx e) = DMATxDescToSet e"
  "DMASR (resume_rx e) AND DMA_IT_R = DMASR e AND DMA_IT_R"
  by (simp_all add: resume_rx_def write_DMASR_def Let_def and.assoc)

text \<open>What is due to one frame (without its checksum): lwIP is asked for buffers; when it has none, the
  frame is lost and noted so; otherwise lwIP is called once, with the frame in these buffers, which
  are freed again when lwIP does not take them.\<close>

definition deliver :: "'l lwip_ops \<Rightarrow> u8 list \<Rightarrow> 'l \<times> u8 list option list \<Rightarrow> 'l \<times> u8 list option list" where
  "deliver L f = (\<lambda>(l, log).
     case pbuf_alloc L (of_nat (length f)) l of
       (None, l) \<Rightarrow> (l, log @ [None])
     | (Some ns, l) \<Rightarrow>
         let (err, out, l) = ethernet_input L (chain ns f) l
         in (if err \<noteq> ERR_OK then pbuf_free L (chain ns f) l else l, log @ [Some f]))"

lemma deliver_length: "length (snd (deliver L f c)) = Suc (length (snd c))"
  by (auto simp: deliver_def split: prod.splits option.splits)

lemma fold_deliver_log:
  assumes "\<forall>len l. fst (pbuf_alloc L len l) \<noteq> None"
  shows "snd (fold (deliver L) fs c) = snd c @ map Some fs"
proof (induction fs arbitrary: c)
  case (Cons f fs)
  obtain l log where c: "c = (l, log)" by (cases c)
  obtain ns l' where a: "pbuf_alloc L (of_nat (length f)) l = (Some ns, l')"
    using assms by (cases "pbuf_alloc L (of_nat (length f)) l") (metis fst_conv option.exhaust)
  obtain err out l'' where i: "ethernet_input L (chain ns f) l' = (err, out, l'')" using prod_cases3 by blast
  have "snd (deliver L f c) = log @ [Some f]" by (simp add: c deliver_def a i)
  then show ?case by (simp add: Cons.IH c)
qed simp

text \<open>The buffers lwIP has given for a frame, if any, filled with the frame.\<close>

lemma low_level_input_head:
  assumes ring: "rx_ring (d # q) e" and L: "lwip_ok L"
    and a: "pbuf_alloc L (of_nat (length d - 4)) (lwip e) = (lens, l)"
  shows "low_level_input L e = Some (map_option (\<lambda>ns. chain ns (without_crc d)) lens, resume_rx (rx_release l e))"
    "lens = Some ns \<Longrightarrow> sum_list ns = length d - 4"
proof -
  let ?g = "DMARxDescToGet e"
  have g: "?g < 4" "length (DMARxDscrTab e) = 4" "length (Rx_Buff e) = 6080" using ring by (auto simp: rx_ring_def rx_table_def)
  have d: "4 \<le> length d" "length d \<le> 1520" "take (length d) (drop (?g * 1520) (Rx_Buff e)) = d"
    using rx_ring_head [OF ring] by (auto simp: rx_holds_def good_frame_def)
  have tail: "idx (DMARxDscrTab e) ?g = Some (DMARxDscrTab e ! ?g)" "upd (DMARxDscrTab e) ?g x = Some ((DMARxDscrTab e)[?g := x])" for x
    using g by (simp_all add: idx_def upd_def)
  note len = frame_length_u16 [OF d(1,2)]
  have n: "sum_list ns = length d - 4" if "lens = Some ns" for ns
    using L a that len(2) unfolding lwip_ok_def by metis
  then show "lens = Some ns \<Longrightarrow> sum_list ns = length d - 4" .
  show "low_level_input L e = Some (map_option (\<lambda>ns. chain ns (without_crc d)) lens, resume_rx (rx_release l e))"
  proof (cases lens)
    case None
    with a tail len(1) RxPkt_head [OF ring] show ?thesis by (simp add: low_level_input_def rx_release_def Let_def)
  next
    case (Some ns)
    have le: "sum_list ns \<le> length d - 4" "?g * 1520 + sum_list ns \<le> length (Rx_Buff e)" using g d n [OF Some] by auto
    have "chain ns (without_crc d) = chain ns d" using le(1) by (simp add: without_crc_def chain_take)
    also have "\<dots> = chain ns (drop (?g * 1520) (Rx_Buff e))"
      using chain_take [of ns "length d" "drop (?g * 1520) (Rx_Buff e)"] le(1) d(3) by simp
    finally have "copy_in ns (?g * 1520) (Rx_Buff e) = Some (chain ns (without_crc d))" using copy_in_Some [OF le(2)] by simp
    with a tail Some len(1) RxPkt_head [OF ring] show ?thesis by (simp add: low_level_input_def rx_release_def Let_def)
  qed
qed

lemma LwIP_Pkt_Handle_head:
  assumes ring: "rx_ring (d # q) e" and tx: "tx_ring e" and L: "lwip_ok L"
  shows "\<exists>t. LwIP_Pkt_Handle L e = Some t \<and> rx_ring q t \<and> tx_ring t \<and>
    (lwip t, lwip_in t) = deliver L (without_crc d) (lwip e, lwip_in e) \<and> DMASR t AND DMA_IT_R = DMASR e AND DMA_IT_R"
proof -
  have d: "length (without_crc d) = length d - 4" by (simp add: without_crc_def)
  obtain lens l where a: "pbuf_alloc L (of_nat (length d - 4)) (lwip e) = (lens, l)" by force
  define u where "u = resume_rx (rx_release l e)"
  have p: "low_level_input L e = Some (map_option (\<lambda>ns. chain ns (without_crc d)) lens, u)"
    unfolding u_def by (rule low_level_input_head [OF ring L a])
  have u: "rx_ring q u" "tx_ring u" "lwip_in u = lwip_in e" "lwip u = l" "DMASR u AND DMA_IT_R = DMASR e AND DMA_IT_R"
    using rx_ring_cong [OF rx_release_ring [OF ring, of l], of u] tx_ring_cong [OF tx, of u]
    by (simp_all add: u_def resume_rx_fields rx_release_def)
  show ?thesis
  proof (cases lens)
    case None
    let ?t = "u\<lparr>lwip_in := lwip_in e @ [None]\<rparr>"
    have "LwIP_Pkt_Handle L e = Some ?t" using p None u(3) by (simp add: LwIP_Pkt_Handle_def ethernetif_input_def)
    moreover have "rx_ring q ?t" by (rule rx_ring_cong [OF u(1)]) simp_all
    moreover have "tx_ring ?t" by (rule tx_ring_cong [OF u(2)]) simp_all
    moreover have "(lwip ?t, lwip_in ?t) = deliver L (without_crc d) (lwip e, lwip_in e)"
      using a None u(4) d by (simp add: deliver_def)
    ultimately show ?thesis using u(5) by (intro exI [of _ ?t]) simp
  next
    case (Some ns)
    let ?ps = "chain ns (without_crc d)"
    have c: "concat ?ps = without_crc d" using low_level_input_head(2) [OF ring L a Some] d by (simp add: concat_chain)
    obtain err out l' where i: "ethernet_input L ?ps l = (err, out, l')" using prod_cases3 by blast
    have "list_all (\<lambda>q. length (concat q) \<le> 1520) (fst (snd (ethernet_input L ?ps l)))" using L by (simp add: lwip_ok_def)
    with i have out: "list_all (\<lambda>q. length (concat q) \<le> 1520) out" by simp
    let ?v = "u\<lparr>lwip := l', lwip_in := lwip_in e @ [Some (without_crc d)]\<rparr>"
    have "tx_ring ?v" by (rule tx_ring_cong [OF u(2)]) simp_all
    from output_all_only [OF this out] obtain v where v: "output_all out ?v = Some v" "tx_ring v" "tx_only ?v v" by blast
    note g = tx_only_fields [OF v(3)]
    define t where "t = (if err \<noteq> ERR_OK then v\<lparr>lwip := pbuf_free L ?ps (lwip v)\<rparr> else v)"
    have "LwIP_Pkt_Handle L e = Some t"
      using p Some i v(1) u(3,4) c by (simp add: LwIP_Pkt_Handle_def ethernetif_input_def t_def)
    moreover have "rx_ring q t" using rx_ring_cong [OF u(1), of t] g by (simp add: t_def)
    moreover have "tx_ring t" using tx_ring_cong [OF v(2), of t] by (simp add: t_def)
    moreover have "(lwip t, lwip_in t) = deliver L (without_crc d) (lwip e, lwip_in e)"
      using a Some i d g by (simp add: deliver_def t_def)
    moreover have "DMASR t AND DMA_IT_R = DMASR e AND DMA_IT_R" using g u(5) by (simp add: t_def)
    ultimately show ?thesis by blast
  qed
qed

section \<open>Refinement\<close>

type_synonym rx_spec = "rx_pc \<times> bool \<times> u8 list list \<times> u8 list list"

fun fifo_step :: "rx_event \<Rightarrow> rx_spec \<Rightarrow> rx_spec" where
  "fifo_step (Dma st data) (pc, irq, q, out) = (if length q < 4 then (pc, True, q @ [data], out) else (pc, irq, q, out))"
| "fifo_step Cpu (Rx_Idle, irq, q, out) = (if irq then Rx_Loop else Rx_Idle, irq, q, out)"
| "fifo_step Cpu (Rx_Loop, irq, [], out) = (Rx_Clear, irq, [], out)"
| "fifo_step Cpu (Rx_Loop, irq, d # q, out) = (Rx_Loop, irq, q, out @ [without_crc d])"
| "fifo_step Cpu (Rx_Clear, irq, q, out) = (Rx_Idle, False, q, out)"

definition fifo_run :: "rx_event list \<Rightarrow> rx_spec \<Rightarrow> rx_spec" where
  "fifo_run = fold fifo_step"

definition good_event :: "rx_event \<Rightarrow> bool" where
  "good_event ev \<longleftrightarrow> (case ev of Dma st data \<Rightarrow> good_frame st data | Cpu \<Rightarrow> True)"

text \<open>The frames taken from the queue have been delivered, one after the other, and nothing else has
  happened to lwIP since the state \<open>c0\<close> of lwIP and of the record of what it was given.\<close>

definition rx_abs :: "'l lwip_ops \<Rightarrow> 'l \<times> u8 list option list \<Rightarrow> rx_spec \<Rightarrow> rx_pc \<times> 'l eth \<Rightarrow> bool" where
  "rx_abs L c0 a c \<longleftrightarrow> (case (a, c) of ((pc, irq, q, out), (pc', e)) \<Rightarrow> pc = pc' \<and> rx_ring q e \<and> tx_ring e \<and>
     (DMASR e AND DMA_IT_R \<noteq> 0) = irq \<and> (lwip e, lwip_in e) = fold (deliver L) out c0)"

lemma rx_step_refines:
  assumes L: "lwip_ok L" and a: "rx_abs L c0 a c" and ev: "good_event ev"
  shows "\<exists>c'. rx_step L ev c = Some c' \<and> rx_abs L c0 (fifo_step ev a) c'"
proof -
  obtain pc irq q out e where ac: "a = (pc, irq, q, out)" "c = (pc, e)" using a by (cases a; cases c) (auto simp: rx_abs_def)
  have r: "rx_ring q e" "tx_ring e" "(DMASR e AND DMA_IT_R \<noteq> 0) = irq"
    "(lwip e, lwip_in e) = fold (deliver L) out c0"
    using a by (auto simp: ac rx_abs_def)
  show ?thesis
  proof (cases ev)
    case (Dma st data)
    with ev have "good_frame st data" by (simp add: good_event_def)
    from dma_receive_ring [OF r(1) this] r ac Dma show ?thesis by (auto simp: rx_abs_def)
  next
    case Cpu
    show ?thesis
    proof (cases pc)
      case Rx_Idle
      with r ac Cpu show ?thesis by (simp add: rx_abs_def)
    next
      case Rx_Loop
      show ?thesis
      proof (cases q)
        case Nil
        with r(1) have "ETH_GetRxPktSize e = Some 0" using rx_ring_empty_size by blast
        with Nil r ac Cpu Rx_Loop show ?thesis by (simp add: rx_abs_def)
      next
        case (Cons d q')
        from rx_ring_size r(1) Cons obtain n where n: "ETH_GetRxPktSize e = Some n" "n \<noteq> 0" by blast
        from LwIP_Pkt_Handle_head [OF _ r(2) L] r(1) Cons obtain t where t: "LwIP_Pkt_Handle L e = Some t" "rx_ring q' t"
          "tx_ring t" "(lwip t, lwip_in t) = deliver L (without_crc d) (lwip e, lwip_in e)"
          "DMASR t AND DMA_IT_R = DMASR e AND DMA_IT_R" by blast
        have "(lwip t, lwip_in t) = fold (deliver L) (out @ [without_crc d]) c0" using t(4) r(4) by simp
        with n t r ac Cpu Rx_Loop Cons show ?thesis by (simp add: rx_abs_def)
      qed
    next
      case Rx_Clear
      let ?t = "ETH_DMAClearITPendingBit DMA_IT_NIS (ETH_DMAClearITPendingBit DMA_IT_R e)"
      have f: "DMARxDscrTab ?t = DMARxDscrTab e" "Rx_Buff ?t = Rx_Buff e" "DMARxDescToGet ?t = DMARxDescToGet e"
        "hw_RxDesc ?t = hw_RxDesc e" "DMATxDscrTab ?t = DMATxDscrTab e" "Tx_Buff ?t = Tx_Buff e"
        "DMATxDescToSet ?t = DMATxDescToSet e" "lwip_in ?t = lwip_in e" "lwip ?t = lwip e" "DMASR ?t AND DMA_IT_R = 0"
        by (simp_all add: ETH_DMAClearITPendingBit_def write_DMASR_def and.assoc)
      have "rx_ring q ?t" "tx_ring ?t"
        using rx_ring_cong [OF r(1) f(1-4)] tx_ring_cong [OF r(2) f(5-7)] by simp_all
      note this f(8-10)
      with r(3,4) ac Cpu Rx_Clear show ?thesis by (simp add: rx_abs_def)
    qed
  qed
qed

lemma rx_run_refines:
  "lwip_ok L \<Longrightarrow> rx_abs L c0 a c \<Longrightarrow> list_all good_event evs \<Longrightarrow> \<exists>c'. rx_run L evs c = Some c' \<and> rx_abs L c0 (fifo_run evs a) c'"
proof (induction evs arbitrary: a c)
  case (Cons ev evs)
  then have "good_event ev" by simp
  from rx_step_refines [OF Cons.prems(1,2) this] obtain c' where c': "rx_step L ev c = Some c'" "rx_abs L c0 (fifo_step ev a) c'" by blast
  from Cons.IH [OF Cons.prems(1) c'(2)] Cons.prems(3) c'(1) show ?case by (simp add: fifo_run_def)
qed (simp add: fifo_run_def)

section \<open>The rings after start-up\<close>

text \<open>The arrays as they are declared.\<close>

definition eth_arrays :: "'l eth \<Rightarrow> bool" where
  "eth_arrays e \<longleftrightarrow> length (DMATxDscrTab e) = 2 \<and> length (DMARxDscrTab e) = 4 \<and> length (Tx_Buff e) = 3040 \<and>
     length (Rx_Buff e) = 6080 \<and> length (MACaddr e) = 6 \<and> length (hwaddr e) = 6"

lemma update_all_Suc:
  "k < n \<Longrightarrow> n = length xs \<Longrightarrow> (map (\<lambda>i. if i < k then f i (xs ! i) else xs ! i) [0..<n])[k := f k (xs ! k)] =
     map (\<lambda>i. if i < Suc k then f i (xs ! i) else xs ! i) [0..<n]"
  by (rule nth_equalityI) (auto simp: nth_list_update less_Suc_eq)

lemma for_up_rx_table:
  assumes "n = length (DMARxDscrTab e)"
  shows "for_up 0 n (\<lambda>i e. do { d \<leftarrow> idx (DMARxDscrTab e) i; tab \<leftarrow> upd (DMARxDscrTab e) i (f i d); Some (e\<lparr>DMARxDscrTab := tab\<rparr>) }) e =
     Some (e\<lparr>DMARxDscrTab := map (\<lambda>i. f i (DMARxDscrTab e ! i)) [0..<n]\<rparr>)"
proof -
  let ?tab = "\<lambda>k. map (\<lambda>i. if i < k then f i (DMARxDscrTab e ! i) else DMARxDscrTab e ! i) [0..<n]"
  let ?body = "\<lambda>i e. do { d \<leftarrow> idx (DMARxDscrTab e) i; tab \<leftarrow> upd (DMARxDscrTab e) i (f i d); Some (e\<lparr>DMARxDscrTab := tab\<rparr>) }"
  have "\<exists>s'. for_up 0 n ?body e = Some s' \<and> s' = e\<lparr>DMARxDscrTab := ?tab n\<rparr>"
  proof (rule for_up_rule [where P = "\<lambda>k t. t = e\<lparr>DMARxDscrTab := ?tab k\<rparr>"])
    have "?tab 0 = DMARxDscrTab e" using assms by (simp add: map_nth)
    then show "e = e\<lparr>DMARxDscrTab := ?tab 0\<rparr>" by simp
  qed (use update_all_Suc [of _ n "DMARxDscrTab e" f] assms in \<open>simp_all add: idx_def upd_def\<close>)
  then show ?thesis by (simp cong: map_cong)
qed

lemma for_up_tx_table:
  assumes "n = length (DMATxDscrTab e)"
  shows "for_up 0 n (\<lambda>i e. do { d \<leftarrow> idx (DMATxDscrTab e) i; tab \<leftarrow> upd (DMATxDscrTab e) i (f i d); Some (e\<lparr>DMATxDscrTab := tab\<rparr>) }) e =
     Some (e\<lparr>DMATxDscrTab := map (\<lambda>i. f i (DMATxDscrTab e ! i)) [0..<n]\<rparr>)"
proof -
  let ?tab = "\<lambda>k. map (\<lambda>i. if i < k then f i (DMATxDscrTab e ! i) else DMATxDscrTab e ! i) [0..<n]"
  let ?body = "\<lambda>i e. do { d \<leftarrow> idx (DMATxDscrTab e) i; tab \<leftarrow> upd (DMATxDscrTab e) i (f i d); Some (e\<lparr>DMATxDscrTab := tab\<rparr>) }"
  have "\<exists>s'. for_up 0 n ?body e = Some s' \<and> s' = e\<lparr>DMATxDscrTab := ?tab n\<rparr>"
  proof (rule for_up_rule [where P = "\<lambda>k t. t = e\<lparr>DMATxDscrTab := ?tab k\<rparr>"])
    have "?tab 0 = DMATxDscrTab e" using assms by (simp add: map_nth)
    then show "e = e\<lparr>DMATxDscrTab := ?tab 0\<rparr>" by simp
  qed (use update_all_Suc [of _ n "DMATxDscrTab e" f] assms in \<open>simp_all add: idx_def upd_def\<close>)
  then show ?thesis by (simp cong: map_cong)
qed

lemma next_desc_mod: "i < n \<Longrightarrow> next_desc n i = Suc i mod n"
  by (auto simp: next_desc_def mod_Suc)

lemma Suc_mod_2: "i < 2 \<Longrightarrow> Suc i mod 2 = Suc 0 - i"
  by (auto simp: less_2_cases_iff)

lemma low_level_init_rings:
  assumes "eth_arrays e"
  shows "\<exists>t. low_level_init e = Some t \<and> rx_ring [] t \<and> tx_ring t \<and> (\<forall>i < 2. Status (DMATxDscrTab t ! i) AND DESC_OWN = 0) \<and>
    lwip_in t = lwip_in e \<and> DMASR t = DMASR e"
proof -
  define a where "a = e\<lparr>hwaddr_len := 6, hwaddr := MACaddr e, netif_mtu := 1500, netif_flags := 0x32\<rparr>"
  define ftx where "ftx = (\<lambda>i (d::ETH_DMADESCTypeDef). d\<lparr>Status := 0x00100000, Buffer1Addr := i * ETH_MAX_PACKET_SIZE, Buffer2NextDescAddr := next_desc 2 i\<rparr>)"
  define frx where "frx = (\<lambda>i (d::ETH_DMADESCTypeDef). d\<lparr>Status := DESC_OWN, ControlBufferSize := 0x4000 OR of_nat ETH_MAX_PACKET_SIZE,
            Buffer1Addr := i * ETH_MAX_PACKET_SIZE, Buffer2NextDescAddr := next_desc 4 i\<rparr>)"
  define b where "b = a\<lparr>DMATxDescToSet := 0, DMATxDscrTab := map (\<lambda>i. ftx i (DMATxDscrTab e ! i)) [0..<2], hw_TxDesc := 0\<rparr>"
  define c where "c = b\<lparr>DMARxDescToGet := 0, DMARxDscrTab := map (\<lambda>i. frx i (DMARxDscrTab e ! i)) [0..<4], hw_RxDesc := 0\<rparr>"
  define it where "it = (\<lambda>(i::nat) (d::ETH_DMADESCTypeDef). d\<lparr>ControlBufferSize := ControlBufferSize d AND NOT 0x80000000\<rparr>)"
  define cs where "cs = (\<lambda>(i::nat) (d::ETH_DMADESCTypeDef). d\<lparr>Status := Status d OR 0x00C00000\<rparr>)"
  define d where "d = c\<lparr>DMARxDscrTab := map (\<lambda>i. it i (DMARxDscrTab c ! i)) [0..<4]\<rparr>"
  define f where "f = d\<lparr>DMATxDscrTab := map (\<lambda>i. cs i (DMATxDscrTab d ! i)) [0..<2]\<rparr>"
  have len: "length (DMATxDscrTab e) = 2" "length (DMARxDscrTab e) = 4" using assms by (auto simp: eth_arrays_def)
  have "memcpy (hwaddr e) 0 (MACaddr e) 6 = Some (MACaddr e)" using assms by (simp add: eth_arrays_def memcpy_def)
  moreover have "ETH_DMATxDescChainInit 2 a = Some b"
    using for_up_tx_table [of 2 "a\<lparr>DMATxDescToSet := 0\<rparr>" ftx] len
    by (simp add: ETH_DMATxDescChainInit_def b_def a_def ftx_def)
  moreover have "ETH_DMARxDescChainInit 4 b = Some c"
    using for_up_rx_table [of 4 "b\<lparr>DMARxDescToGet := 0\<rparr>" frx] len
    by (simp add: ETH_DMARxDescChainInit_def c_def b_def a_def frx_def)
  moreover have "for_up 0 4 (\<lambda>i. ETH_DMARxDescReceiveITConfig i True) c = Some d"
  proof -
    have "(\<lambda>i. ETH_DMARxDescReceiveITConfig i True) = (\<lambda>i (e :: 'a eth). do { d \<leftarrow> idx (DMARxDscrTab e) i;
        tab \<leftarrow> upd (DMARxDscrTab e) i (it i d); Some (e\<lparr>DMARxDscrTab := tab\<rparr>) })"
      by (intro ext) (simp add: ETH_DMARxDescReceiveITConfig_def it_def)
    moreover have "4 = length (DMARxDscrTab c)" by (simp add: c_def)
    ultimately show ?thesis using for_up_rx_table [of 4 c it] by (simp add: d_def)
  qed
  moreover have "for_up 0 2 (\<lambda>i. ETH_DMATxDescChecksumInsertionConfig i 0x00C00000) d = Some f"
  proof -
    have "(\<lambda>i. ETH_DMATxDescChecksumInsertionConfig i 0x00C00000) = (\<lambda>i (e :: 'a eth). do { d \<leftarrow> idx (DMATxDscrTab e) i;
        tab \<leftarrow> upd (DMATxDscrTab e) i (cs i d); Some (e\<lparr>DMATxDscrTab := tab\<rparr>) })"
      by (intro ext) (simp add: ETH_DMATxDescChecksumInsertionConfig_def cs_def)
    moreover have "2 = length (DMATxDscrTab d)" by (simp add: d_def c_def b_def)
    ultimately show ?thesis using for_up_tx_table [of 2 d cs] by (simp add: f_def)
  qed
  ultimately have r: "low_level_init e = Some (ETH_Start f)"
    by (simp add: low_level_init_def a_def [symmetric])
  define t where "t = ETH_Start f"
  have t: "DMARxDscrTab t = DMARxDscrTab f" "DMATxDscrTab t = DMATxDscrTab f" "Tx_Buff t = Tx_Buff e" "Rx_Buff t = Rx_Buff e"
    "DMATxDescToSet t = 0" "DMARxDescToGet t = 0" "hw_RxDesc t = 0" "lwip_in t = lwip_in e" "DMASR t = DMASR e"
    by (simp_all add: t_def ETH_Start_def Let_def ETH_MACTransmissionCmd_def ETH_FlushTransmitFIFO_def ETH_MACReceptionCmd_def
        ETH_DMATransmissionCmd_def ETH_DMAReceptionCmd_def f_def d_def c_def b_def a_def)
  have tabs: "length (DMARxDscrTab f) = 4" "length (DMATxDscrTab f) = 2"
    "i < 4 \<Longrightarrow> Status (DMARxDscrTab f ! i) = DESC_OWN \<and> Buffer1Addr (DMARxDscrTab f ! i) = i * 1520 \<and> Buffer2NextDescAddr (DMARxDscrTab f ! i) = Suc i mod 4"
    "i < 2 \<Longrightarrow> Status (DMATxDscrTab f ! i) = 0x00D00000 \<and> Buffer1Addr (DMATxDscrTab f ! i) = i * 1520 \<and> Buffer2NextDescAddr (DMATxDscrTab f ! i) = 1 - i" for i
    by (auto simp: f_def d_def c_def b_def it_def cs_def frx_def ftx_def next_desc_mod Suc_mod_2)
  have "rx_ring [] t" using t tabs assms by (simp add: rx_ring_def rx_table_def rx_slot_def eth_arrays_def)
  moreover have "tx_ring t" using t tabs assms by (simp add: tx_ring_def eth_arrays_def)
  ultimately show ?thesis using r t tabs(4) by (simp add: t_def)
qed

lemma for_up_keeps:
  assumes "for_up lo hi body e = Some t" "\<And>i e t. body i e = Some t \<Longrightarrow> f t = f e"
  shows "f t = f e"
  using assms(1)
proof (induction "hi - lo" arbitrary: lo e)
  case 0
  then show ?case by (simp add: for_up_stop)
next
  case (Suc n)
  then have "lo < hi" by simp
  with Suc.prems obtain u where u: "body lo e = Some u" "for_up (Suc lo) hi body u = Some t"
    by (auto simp: for_up_step dest: bind_eq_SomeD)
  have "n = hi - Suc lo" using Suc.hyps(2) by simp
  from Suc.hyps(1) [OF this u(2)] assms(2) [OF u(1)] show ?case by simp
qed

text \<open>Starting the interface does not touch lwIP.\<close>

lemma low_level_init_lwip:
  assumes "low_level_init e = Some t"
  shows "lwip t = lwip e"
proof -
  have tx: "lwip v = lwip u" if "ETH_DMATxDescChainInit n u = Some v" for n and u v :: "'a eth"
    using that by (auto simp: ETH_DMATxDescChainInit_def dest!: bind_eq_SomeD for_up_keeps [where f = lwip])
  have rx: "lwip v = lwip u" if "ETH_DMARxDescChainInit n u = Some v" for n and u v :: "'a eth"
    using that by (auto simp: ETH_DMARxDescChainInit_def dest!: bind_eq_SomeD for_up_keeps [where f = lwip])
  have it: "lwip v = lwip u" if "for_up 0 n (\<lambda>i. ETH_DMARxDescReceiveITConfig i True) u = Some v" for n and u v :: "'a eth"
    using that by (rule for_up_keeps) (auto simp: ETH_DMARxDescReceiveITConfig_def dest!: bind_eq_SomeD)
  have cs: "lwip v = lwip u" if "for_up 0 n (\<lambda>i. ETH_DMATxDescChecksumInsertionConfig i c) u = Some v" for n c and u v :: "'a eth"
    using that by (rule for_up_keeps) (auto simp: ETH_DMATxDescChecksumInsertionConfig_def dest!: bind_eq_SomeD)
  have st: "lwip (ETH_Start u) = lwip u" for u :: "'a eth"
    by (simp add: ETH_Start_def Let_def ETH_MACTransmissionCmd_def ETH_FlushTransmitFIFO_def ETH_MACReceptionCmd_def
        ETH_DMATransmissionCmd_def ETH_DMAReceptionCmd_def)
  show ?thesis
    using assms by (auto simp: low_level_init_def st dest!: bind_eq_SomeD tx rx it cs)
qed

section \<open>Reception in order\<close>

text \<open>C12. From the start of the interface on, under any interleaving of frames received without error and steps
  of the interrupt handler, every access is defined and the ring of descriptors is a queue of at
  most four frames: the frames taken from it are delivered in order, once each, without their
  checksum, and lwIP sees nothing else. To deliver a frame is to ask lwIP for buffers and to call
  \<open>ethernet_input\<close> with the frame in them; only when lwIP refuses the buffers is the frame lost, so
  an lwIP that never refuses is called with exactly the frames taken from the queue.\<close>

theorem reception_is_a_queue:
  assumes "lwip_ok L" "eth_arrays e" "lwip_in e = []" "DMASR e AND DMA_IT_R = 0" "list_all good_event evs"
    "low_level_init e = Some t" "fifo_run evs (Rx_Idle, False, [], []) = (pc, irq, q, out)"
  shows "\<exists>u. rx_run L evs (Rx_Idle, t) = Some (pc, u) \<and> (lwip u, lwip_in u) = fold (deliver L) out (lwip e, []) \<and>
    ((\<forall>len l. fst (pbuf_alloc L len l) \<noteq> None) \<longrightarrow> lwip_in u = map Some out) \<and>
    rx_ring q u \<and> tx_ring u \<and> (DMASR u AND DMA_IT_R \<noteq> 0) = irq"
proof -
  from low_level_init_rings [OF assms(2)] assms(6) have "rx_ring [] t" "tx_ring t" "lwip_in t = []" "DMASR t AND DMA_IT_R = 0"
    using assms(3,4) by auto
  then have "rx_abs L (lwip e, []) (Rx_Idle, False, [], []) (Rx_Idle, t)"
    using low_level_init_lwip [OF assms(6)] by (simp add: rx_abs_def)
  from rx_run_refines [OF assms(1) this assms(5)] assms(7) obtain u where
    u: "rx_run L evs (Rx_Idle, t) = Some (pc, u)" "(lwip u, lwip_in u) = fold (deliver L) out (lwip e, [])"
    "rx_ring q u" "tx_ring u" "(DMASR u AND DMA_IT_R \<noteq> 0) = irq" by (auto simp: rx_abs_def)
  have "lwip_in u = map Some out" if "\<forall>len l. fst (pbuf_alloc L len l) \<noteq> None"
    using fold_deliver_log [OF that, of out "(lwip e, [])"] u(2) by (metis append_Nil snd_conv)
  with u show ?thesis by blast
qed

text \<open>An interrupt handler that is left alone empties the ring and returns.\<close>

lemma rx_loop_empties:
  "lwip_ok L \<Longrightarrow> rx_ring q e \<Longrightarrow> tx_ring e \<Longrightarrow>
     \<exists>t. rx_loop L e = Some t \<and> rx_ring [] t \<and> tx_ring t \<and>
       (lwip t, lwip_in t) = fold (deliver L) (map without_crc q) (lwip e, lwip_in e)"
proof (induction q arbitrary: e)
  case Nil
  then have "rx_loop L e = Some e" using rx_ring_empty_size [of e] by (subst rx_loop.simps) simp
  with Nil show ?case by simp
next
  case (Cons d q)
  from rx_ring_size [OF Cons.prems(2)] obtain n where n: "ETH_GetRxPktSize e = Some n" "n \<noteq> 0" by blast
  from LwIP_Pkt_Handle_head [OF Cons.prems(2,3,1)] obtain t where t: "LwIP_Pkt_Handle L e = Some t" "rx_ring q t" "tx_ring t"
    "(lwip t, lwip_in t) = deliver L (without_crc d) (lwip e, lwip_in e)" by blast
  from Cons.IH [OF Cons.prems(1) t(2,3)] obtain u where u: "rx_loop L t = Some u" "rx_ring [] u" "tx_ring u"
    "(lwip u, lwip_in u) = fold (deliver L) (map without_crc q) (lwip t, lwip_in t)" by blast
  have "rx_loop L e = Some u" using n t(1) u(1) by (subst rx_loop.simps) simp
  with u t(4) show ?case by simp
qed

text \<open>C32. Called with any number of received frames in the ring, the interrupt handler ends; it delivers all of
  them in order, once each (an lwIP that never refuses the buffers is called with exactly these
  frames, without their checksums), leaves every descriptor to the DMA and the interrupt cleared.\<close>

theorem ETH_IRQHandler_ends:
  assumes "lwip_ok L" "rx_ring q e" "tx_ring e"
  shows "\<exists>t. ETH_IRQHandler L e = Some t \<and> rx_ring [] t \<and>
    (lwip t, lwip_in t) = fold (deliver L) (map without_crc q) (lwip e, lwip_in e) \<and>
    ((\<forall>len l. fst (pbuf_alloc L len l) \<noteq> None) \<longrightarrow> lwip_in t = lwip_in e @ map (\<lambda>d. Some (without_crc d)) q) \<and>
    DMASR t AND (DMA_IT_R OR DMA_IT_NIS) = 0"
proof -
  obtain t where t: "rx_loop L e = Some t" "rx_ring [] t"
    "(lwip t, lwip_in t) = fold (deliver L) (map without_crc q) (lwip e, lwip_in e)"
    using rx_loop_empties [OF assms] by blast
  have log: "lwip_in t = lwip_in e @ map (\<lambda>d. Some (without_crc d)) q" if "\<forall>len l. fst (pbuf_alloc L len l) \<noteq> None"
    using fold_deliver_log [OF that, of "map without_crc q" "(lwip e, lwip_in e)"] t(3) [symmetric] by (simp add: comp_def)
  let ?u = "ETH_DMAClearITPendingBit DMA_IT_NIS (ETH_DMAClearITPendingBit DMA_IT_R t)"
  have f: "DMARxDscrTab ?u = DMARxDscrTab t" "Rx_Buff ?u = Rx_Buff t" "DMARxDescToGet ?u = DMARxDescToGet t"
    "hw_RxDesc ?u = hw_RxDesc t" "lwip ?u = lwip t" "lwip_in ?u = lwip_in t" "DMASR ?u AND (DMA_IT_R OR DMA_IT_NIS) = 0"
    by (simp_all add: ETH_DMAClearITPendingBit_def write_DMASR_def and.assoc)
  have "ETH_IRQHandler L e = Some ?u" using t(1) by (simp add: ETH_IRQHandler_def)
  with t(3) log f(5-7) rx_ring_cong [OF t(2) f(1-4)] show ?thesis by (intro exI [of _ ?u]) simp
qed

section \<open>A lost interrupt\<close>

text \<open>C31. A frame that arrives after the handler has seen the ring empty and before it clears the interrupt
  flag stays in the ring: the handler is not entered again until another frame arrives.\<close>

theorem interrupt_lost:
  assumes "lwip_ok L" "rx_ring [] e" "tx_ring e" "DMASR e AND DMA_IT_R = 0" "good_frame st1 d1" "good_frame st2 d2"
  shows "\<exists>t. rx_run L ([Dma st1 d1, Cpu, Cpu, Cpu, Dma st2 d2, Cpu] @ replicate n Cpu) (Rx_Idle, e) = Some (Rx_Idle, t) \<and>
    rx_ring [d2] t \<and> length (lwip_in t) = Suc (length (lwip_in e))"
proof -
  let ?evs = "[Dma st1 d1, Cpu, Cpu, Cpu, Dma st2 d2, Cpu]"
  have idle: "fifo_run (replicate n Cpu) (Rx_Idle, False, q, out) = (Rx_Idle, False, q, out)" for q out
    by (induction n) (simp_all add: fifo_run_def)
  have "fifo_run ?evs (Rx_Idle, False, [], []) = (Rx_Idle, False, [d2], [without_crc d1])"
    by (simp add: fifo_run_def)
  then have f: "fifo_run (?evs @ replicate n Cpu) (Rx_Idle, False, [], []) = (Rx_Idle, False, [d2], [without_crc d1])"
    using idle by (simp add: fifo_run_def)
  let ?c0 = "(lwip e, lwip_in e)"
  have "rx_abs L ?c0 (Rx_Idle, False, [], []) (Rx_Idle, e)" using assms by (simp add: rx_abs_def)
  moreover have "list_all good_event (?evs @ replicate n Cpu)" using assms(5,6) by (simp add: good_event_def list_all_iff)
  ultimately obtain c where c: "rx_run L (?evs @ replicate n Cpu) (Rx_Idle, e) = Some c"
    "rx_abs L ?c0 (Rx_Idle, False, [d2], [without_crc d1]) c"
    using rx_run_refines [OF assms(1)] f by metis
  obtain pc t where t: "c = (pc, t)" by (cases c)
  have "length (lwip_in t) = length (snd (deliver L (without_crc d1) ?c0))"
    using c(2) unfolding t rx_abs_def by (simp del: deliver_length) (metis snd_conv)
  with c show ?thesis unfolding t by (auto simp: rx_abs_def deliver_length)
qed

section \<open>Reception that has stopped for good\<close>

text \<open>The descriptor whose turn it is holds a frame the driver does not take: one with an error, or only
  a part of a frame, which is what the DMA makes of a frame longer than a buffer.\<close>

definition bad_status :: "u32 \<Rightarrow> bool" where
  "bad_status st \<longleftrightarrow> st AND DESC_OWN = 0 \<and> (st AND RX_ES \<noteq> 0 \<or> st AND RX_LS = 0 \<or> st AND RX_FS = 0)"

definition rx_stuck :: "'l eth \<Rightarrow> bool" where
  "rx_stuck e \<longleftrightarrow> rx_table e \<and> bad_status (Status (DMARxDscrTab e ! DMARxDescToGet e))"

definition short_event :: "rx_event \<Rightarrow> bool" where
  "short_event ev \<longleftrightarrow> (case ev of Dma st data \<Rightarrow> length data \<le> 1520 | Cpu \<Rightarrow> True)"

lemma rx_stuck_size: "rx_stuck e \<Longrightarrow> ETH_GetRxPktSize e = Some 0"
  by (auto simp: rx_stuck_def bad_status_def rx_table_def ETH_GetRxPktSize_def idx_def)

lemma dma_receive_stuck:
  assumes "rx_stuck e" "length data \<le> 1520"
  shows "\<exists>t. dma_receive st data e = Some t \<and> rx_stuck t \<and> lwip_in t = lwip_in e"
proof (cases "Status (DMARxDscrTab e ! hw_RxDesc e) AND DESC_OWN = 0")
  case True
  have "rx_table e" using assms(1) by (simp add: rx_stuck_def)
  from dma_receive_busy [OF this True, of st data] assms(1) show ?thesis by (simp add: rx_stuck_def rx_table_def)
next
  case False
  have tab: "rx_table e" using assms(1) by (simp add: rx_stuck_def)
  have "hw_RxDesc e \<noteq> DMARxDescToGet e" using False assms(1) by (auto simp: rx_stuck_def bad_status_def)
  moreover have "hw_RxDesc e < 4" "length (Rx_Buff e) = 6080" using tab by (auto simp: rx_table_def)
  moreover from this have "hw_RxDesc e * 1520 + length data \<le> 6080" using assms(2) by auto
  ultimately show ?thesis
    using dma_receive_own [OF tab False assms(2), of st] assms(1)
    by (auto simp: rx_stuck_def rx_table_def nth_list_update)
qed

lemma rx_step_stuck:
  assumes "rx_stuck e" "short_event ev"
  shows "\<exists>pc' t. rx_step L ev (pc, e) = Some (pc', t) \<and> rx_stuck t \<and> lwip_in t = lwip_in e"
proof (cases ev)
  case (Dma st data)
  with assms(2) have "length data \<le> 1520" by (simp add: short_event_def)
  from dma_receive_stuck [OF assms(1) this, of st] obtain t where "dma_receive st data e = Some t" "rx_stuck t"
    "lwip_in t = lwip_in e" by blast
  with Dma show ?thesis by simp
next
  case Cpu
  with assms(1) rx_stuck_size [OF assms(1)] show ?thesis
    by (cases pc) (simp_all add: ETH_DMAClearITPendingBit_def write_DMASR_def rx_stuck_def rx_table_def)
qed

lemma rx_run_stuck:
  "rx_stuck e \<Longrightarrow> list_all short_event evs \<Longrightarrow> \<exists>pc' t. rx_run L evs (pc, e) = Some (pc', t) \<and> rx_stuck t \<and> lwip_in t = lwip_in e"
proof (induction evs arbitrary: pc e)
  case (Cons ev evs)
  then obtain pc' t where t: "rx_step L ev (pc, e) = Some (pc', t)" "rx_stuck t" "lwip_in t = lwip_in e"
    using rx_step_stuck [of e ev L pc] by auto
  from Cons.IH [OF t(2), of pc'] Cons.prems(2) t show ?case by simp
qed simp

text \<open>C13. One frame that the DMA spreads over two descriptors or marks as faulty, arriving while the ring is
  empty, ends reception for good: whatever arrives and however often the handler runs afterwards,
  no frame reaches lwIP any more.\<close>

theorem oversized_frame_stops_reception:
  assumes "rx_ring [] e" "bad_status st" "length data \<le> 1520" "list_all short_event evs"
  shows "\<exists>pc' t. rx_run L (Dma st data # evs) (pc, e) = Some (pc', t) \<and> lwip_in t = lwip_in e"
proof -
  have tab: "rx_table e" and h: "hw_RxDesc e = DMARxDescToGet e" using assms(1) by (auto simp: rx_ring_def rx_table_def rx_slot_def)
  have "rx_slot e 0 = DMARxDescToGet e" using tab by (simp add: rx_table_def rx_slot_def)
  then have own: "Status (DMARxDscrTab e ! hw_RxDesc e) AND DESC_OWN \<noteq> 0" using assms(1) h by (auto simp: rx_ring_def dest: spec [of _ 0])
  have "hw_RxDesc e < 4" "length (Rx_Buff e) = 6080" "length (DMARxDscrTab e) = 4" using tab by (auto simp: rx_table_def)
  moreover from this have "hw_RxDesc e * 1520 + length data \<le> 6080" using assms(3) by auto
  ultimately obtain t where t: "dma_receive st data e = Some t" "rx_stuck t" "lwip_in t = lwip_in e"
    using dma_receive_own [OF tab own assms(3), of st] assms(2) tab h by (auto simp: rx_stuck_def rx_table_def nth_list_update)
  from rx_run_stuck [OF t(2) assms(4), of L pc] t(3) obtain pc' u where
    "rx_run L evs (pc, t) = Some (pc', u)" "lwip_in u = lwip_in e" by auto
  with t(1) show ?thesis by simp
qed

section \<open>Concrete instances\<close>

text \<open>An lwIP that sends back every frame.\<close>

definition echo_lwip :: "unit lwip_ops" where
  "echo_lwip = \<lparr>lwip_start = id, ethernetif_alloc = Pair True, netif_up = Pair [], pbuf_alloc = \<lambda>n. Pair (Some [unat n]),
     pbuf_free = \<lambda>p. id, ethernet_input = \<lambda>p l. (ERR_OK, if length (concat p) \<le> 1520 then [p] else [], l),
     tcp_tmr = Pair [], etharp_tmr = Pair []\<rparr>"

lemma echo_lwip_ok: "lwip_ok echo_lwip"
  by (simp add: lwip_ok_def echo_lwip_def)

lemma echo_lwip_allocates: "\<forall>len l. fst (pbuf_alloc echo_lwip len l) \<noteq> None"
  by (simp add: echo_lwip_def)

definition sample_frame :: "u8 list" where
  "sample_frame = [1, 2, 3, 4, 0, 0, 0, 0]"

lemma sample_frame_good: "good_frame 0x00080300 sample_frame"
  by (simp add: good_frame_def sample_frame_def)

lemma reset_eth_fields: "eth_arrays (reset_eth up l)" "lwip_in (reset_eth up l) = []" "DMASR (reset_eth up l) = 0"
  by (simp_all add: eth_arrays_def reset_eth_def)

lemma started_state:
  obtains e where "low_level_init (reset_eth True ()) = Some e" "rx_ring [] e" "tx_ring e"
    "\<forall>i < 2. Status (DMATxDscrTab e ! i) AND DESC_OWN = 0" "lwip_in e = []" "DMASR e AND DMA_IT_R = 0"
  using low_level_init_rings [OF reset_eth_fields(1) [of True "()"]] reset_eth_fields [of True "()"] by auto

theorem reception_is_a_queue_witness:
  "\<exists>t u. low_level_init (reset_eth True ()) = Some t \<and>
     rx_run echo_lwip [Dma 0x00080300 sample_frame, Cpu, Cpu] (Rx_Idle, t) = Some (Rx_Loop, u) \<and>
     lwip_in u = [Some [1, 2, 3, 4]]"
proof -
  obtain t where t: "low_level_init (reset_eth True ()) = Some t" by (rule started_state)
  have evs: "list_all good_event [Dma 0x00080300 sample_frame, Cpu, Cpu]" using sample_frame_good by (simp add: good_event_def)
  have run: "fifo_run [Dma 0x00080300 sample_frame, Cpu, Cpu] (Rx_Idle, False, [], []) = (Rx_Loop, True, [], [[1, 2, 3, 4]])"
    by (simp add: fifo_run_def without_crc_def sample_frame_def)
  have "DMASR (reset_eth True ()) AND DMA_IT_R = 0" using reset_eth_fields(3) [of True "()"] by simp
  from reception_is_a_queue [OF echo_lwip_ok reset_eth_fields(1,2) this evs t run] t echo_lwip_allocates
  show ?thesis by auto
qed

theorem ETH_IRQHandler_ends_witness:
  "\<exists>e t. rx_ring [sample_frame] e \<and> ETH_IRQHandler echo_lwip e = Some t \<and> rx_ring [] t \<and>
     lwip_in t = lwip_in e @ [Some [1, 2, 3, 4]]"
proof -
  obtain e where e: "rx_ring [] (e :: unit eth)" "tx_ring e" by (rule started_state)
  from dma_receive_ring [OF e(1) sample_frame_good] e(2) obtain t :: "unit eth" where t: "rx_ring [sample_frame] t" "tx_ring t" by auto
  have "map (\<lambda>d. Some (without_crc d)) [sample_frame] = [Some [1, 2, 3, 4]]" by (simp add: without_crc_def sample_frame_def)
  with ETH_IRQHandler_ends [OF echo_lwip_ok t] t(1) echo_lwip_allocates show ?thesis by metis
qed

theorem interrupt_lost_witness:
  "\<exists>e t. rx_run echo_lwip ([Dma 0x00080300 sample_frame, Cpu, Cpu, Cpu, Dma 0x00080300 sample_frame, Cpu] @ replicate 100 Cpu)
     (Rx_Idle, e) = Some (Rx_Idle, t) \<and> rx_ring [sample_frame] t"
proof -
  obtain e where e: "rx_ring [] (e :: unit eth)" "tx_ring e" "DMASR e AND DMA_IT_R = 0" by (rule started_state)
  from interrupt_lost [OF echo_lwip_ok e sample_frame_good sample_frame_good, of 100] show ?thesis by blast
qed

theorem oversized_frame_stops_reception_witness:
  "\<exists>e pc t. rx_ring [] e \<and> rx_run echo_lwip [Dma 0x05F00200 (replicate 1520 0), Dma 0x06000100 [0, 0],
     Dma 0x00080300 sample_frame, Cpu, Cpu, Cpu] (Rx_Idle, e) = Some (pc, t) \<and> lwip_in t = []"
proof -
  obtain e where e: "rx_ring [] (e :: unit eth)" "lwip_in e = []" by (rule started_state)
  have "bad_status 0x05F00200" by (simp add: bad_status_def)
  moreover have "list_all short_event [Dma 0x06000100 [0, 0], Dma 0x00080300 sample_frame, Cpu, Cpu, Cpu]"
    by (simp add: short_event_def sample_frame_def)
  ultimately show ?thesis
    using oversized_frame_stops_reception [OF e(1), of "0x05F00200" "replicate 1520 0"] e by fastforce
qed

end
