(* ===== verification/Host.thy ===== *)
theory Host
  imports System EthRx
begin

text \<open>
  The main loop together with the network: the loop of main.c with its Ethernet branch, one call at
  a time. The state of the application (\<open>fw\<close>) and that of the network interface (\<open>eth\<close>) are
  disjoint. The calls of lwIP that the UDP client makes are modelled on the application's side only,
  by lwIP's answers; the frames they lead to are not followed into the interface here.
\<close>

section \<open>The loop, one call at a time\<close>

text \<open>The Ethernet branch of a pass: it ends with the number of the next call, 1 (\<open>udp_client_process\<close>)
  when the network was up at the start of the pass, otherwise 3 (\<open>sec_process\<close>).\<close>

definition host_network :: "'l lwip_ops \<Rightarrow> fw \<Rightarrow> 'l eth \<Rightarrow> (nat \<times> 'l eth) option" where
  "host_network L s e =
     (if isHost s \<noteq> 0 then
        if EthInitStatus e = 0 then do {
          e \<leftarrow> Ethernet_Configuration e;
          if EthInitStatus e \<noteq> 0 then map_option (Pair 3) (LwIP_Init L (mac_addr s) e) else Some (3, e)
        }
        else map_option (Pair 1) (LwIP_Periodic_Handle L (LocalTime s) e)
      else Some (3, e))"

text \<open>What the processor does next: 0 is the Ethernet branch, 1 to 9 are the nine calls of
  \<open>main_call\<close>, \<open>Modbus_RTU_Comm_Process\<close> being number 4. Calls 1 and 2 are reached only on a host
  whose network is up.\<close>

definition host_step :: "'l lwip_ops \<Rightarrow> nat \<times> fw \<times> 'l eth \<Rightarrow> (nat \<times> fw \<times> 'l eth) option" where
  "host_step L = (\<lambda>(pc, s, e).
     if pc = 0 then do { (pc, e) \<leftarrow> host_network L s e; Some (pc, s, e) }
     else do { s \<leftarrow> main_call True (pc - 1) s; Some (if pc = 9 then 0 else Suc pc, s, e) })"

text \<open>A run from \<open>c\<close>, with the number of calls of \<open>Modbus_RTU_Comm_Process\<close> it has made: before every
  call, and between the calls, the interrupt handlers may run and the inputs may change. They do
  not touch the management interface; the Ethernet interrupt does not come before reception is
  started.\<close>

inductive host_run :: "'l lwip_ops \<Rightarrow> nat \<times> fw \<times> 'l eth \<Rightarrow> nat \<Rightarrow> nat \<times> fw \<times> 'l eth \<Rightarrow> bool" for L c where
  host_start: "host_run L c 0 c"
| host_call: "host_run L c m (pc, s, e) \<Longrightarrow> \<not> sys_reset s \<Longrightarrow> host_step L (pc, s, e) = Some c' \<Longrightarrow>
    host_run L c (if pc = 4 then Suc m else m) c'"
| host_interrupt: "host_run L c m (pc, s, e) \<Longrightarrow> (\<forall>eth. ev \<noteq> Main_Call eth) \<Longrightarrow> benign ev s \<Longrightarrow> step (0, s) ev (0, t) \<Longrightarrow>
    host_run L c m (pc, t, e)"

section \<open>A host without a network\<close>

lemma ran_stable: "ran s t \<Longrightarrow> sys_ok t \<and> isHost t = isHost s"
  using ran_ok by (auto simp: ran_def safe_def stable_def)

lemma main_call_ran:
  assumes "sys_ok s"
  shows "returns (main_call eth k s) (ran s)"
proof (cases "k = 3")
  case True
  then show ?thesis using returns_mono [OF Comm_Process_sends [OF assms] sends_ran] by (simp add: main_call_def)
qed (use returns_ran [OF main_call_ok(1) [OF assms]] in blast)

lemma interrupt_keeps:
  assumes "step (k, s) ev (k', t)" "sys_ok s" "benign ev s" "\<forall>eth. ev \<noteq> Main_Call eth"
  shows "sys_ok t \<and> isHost t = isHost s"
proof -
  have "isHost t = isHost s"
    using assms(1)
  proof (cases rule: step.cases)
    case systick
    then show ?thesis using Time_Update_ok [OF assms(2)] by (auto simp: SysTick_Handler_def returns_def scanned_def)
  next
    case (usart DR)
    then show ?thesis using usart_good [OF assms(2), of DR] assms(3) by (auto simp: returns_def good_def stable_def)
  next
    case (can r)
    then show ?thesis using can_bus_frame_receive_ok [OF assms(2), of "CAN_Receive r"] assms(3)
      by (auto simp: CAN1_RX0_IRQHandler_def returns_def safe_def stable_def)
  next
    case (udp port ip payload)
    then show ?thesis using callback_good [OF assms(2), of payload port ip] assms(3)
      by (auto simp: returns_def good_def stable_def)
  qed (use assms(4) in simp_all)
  with step_keeps [OF assms(1-3)] show ?thesis by (simp add: step_keeps_def)
qed

text \<open>The PHY never reports a link; the controller's reset ends, and its management interface works.\<close>

definition no_link :: "'l eth \<Rightarrow> bool" where
  "no_link e \<longleftrightarrow> EthInitStatus e = ETH_ERROR \<and> (\<forall>n. \<exists>m \<ge> n. \<not> hw_SWR e m) \<and> mii_answers e \<and>
     (\<forall>n. hw_PHY e n PHY_BSR AND 0x0004 = 0)"

lemma host_network_no_link:
  assumes "isHost s \<noteq> 0" "no_link e"
  shows "\<exists>u. host_network L s e = Some (3, u) \<and> no_link u \<and> phy_accesses u = phy_accesses e + 0x50000 \<and>
    phy_writes u = phy_writes e @ [(1, 0, 0x8000)]"
proof -
  obtain m where m: "m \<ge> swr_reads e" "\<not> hw_SWR e m" using assms(2) unfolding no_link_def by blast
  have "mii_answers e" "\<forall>n. hw_PHY e n PHY_BSR AND 0x0004 = 0" using assms(2) by (simp_all add: no_link_def)
  from ethernet_without_link [OF m this] obtain u where u: "Ethernet_Configuration e = Some u" "EthInitStatus u = ETH_ERROR"
    "phy_accesses u = phy_accesses e + 0x50000" "phy_writes u = phy_writes e @ [(1, 0, 0x8000)]"
    "hw_SWR u = hw_SWR e" "hw_PHY u = hw_PHY e" "hw_MB u = hw_MB e" by blast
  have "host_network L s e = Some (3, u)" using u(1,2) assms by (simp add: host_network_def no_link_def)
  moreover have "no_link u" using assms(2) u by (simp add: no_link_def mii_answers_def)
  ultimately show ?thesis using u(3,4) by blast
qed

text \<open>\<open>net_passes\<close>: how often the Ethernet branch has run when the next call is \<open>pc\<close> and
  \<open>Modbus_RTU_Comm_Process\<close> has been called \<open>m\<close> times.\<close>

definition net_passes :: "nat \<Rightarrow> nat \<Rightarrow> nat" where
  "net_passes pc m = (if pc = 3 \<or> pc = 4 then Suc m else m)"

definition polling :: "'l eth \<Rightarrow> nat \<Rightarrow> nat \<times> fw \<times> 'l eth \<Rightarrow> bool" where
  "polling e m = (\<lambda>(pc, t, u). (pc = 0 \<or> 3 \<le> pc \<and> pc \<le> 9) \<and> sys_ok t \<and> isHost t \<noteq> 0 \<and> no_link u \<and>
     phy_accesses u = phy_accesses e + net_passes pc m * 0x50000 \<and>
     phy_writes u = phy_writes e @ replicate (net_passes pc m) (1, 0, 0x8000))"

lemma host_step_polling:
  assumes "polling e m (pc, t, u)"
  shows "\<exists>c. host_step L (pc, t, u) = Some c \<and> polling e (if pc = 4 then Suc m else m) c"
proof (cases "pc = 0")
  case True
  have h: "isHost t \<noteq> 0" "no_link u" using assms by (simp_all add: polling_def)
  obtain v where v: "host_network L t u = Some (3, v)" "no_link v" "phy_accesses v = phy_accesses u + 0x50000"
    "phy_writes v = phy_writes u @ [(1, 0, 0x8000)]" using host_network_no_link [OF h] by blast
  then have "host_step L (pc, t, u) = Some (3, t, v)" using True by (simp add: host_step_def)
  moreover have "polling e m (3, t, v)"
    using v assms True by (simp add: polling_def net_passes_def replicate_append_same [symmetric])
  ultimately show ?thesis using True by simp
next
  case False
  have p: "3 \<le> pc" "pc \<le> 9" "sys_ok t" using assms False by (auto simp: polling_def)
  obtain t' where t: "main_call True (pc - 1) t = Some t'" "ran t t'"
    using main_call_ran [OF p(3), of True "pc - 1"] by (auto simp: returns_def)
  have "net_passes (if pc = 9 then 0 else Suc pc) (if pc = 4 then Suc m else m) = net_passes pc m"
    using p by (auto simp: net_passes_def)
  then have "polling e (if pc = 4 then Suc m else m) (if pc = 9 then 0 else Suc pc, t', u)"
    using assms p ran_stable [OF t(2)] by (simp add: polling_def)
  with t(1) False show ?thesis by (simp add: host_step_def)
qed

lemma host_run_polling:
  assumes "host_run L c m c'" "polling e 0 c"
  shows "polling e m c'"
  using assms
proof (induction rule: host_run.induct)
  case (host_call m pc s u c')
  then have "polling e m (pc, s, u)" by simp
  from host_step_polling [OF this, of L] host_call.hyps(3) show ?case by auto
next
  case (host_interrupt m pc s u ev t)
  then have p: "polling e m (pc, s, u)" by simp
  then have "sys_ok s" by (simp add: polling_def)
  from interrupt_keeps [OF host_interrupt.hyps(4) this host_interrupt.hyps(3,2)] p show ?case by (simp add: polling_def)
qed simp

text \<open>C15. A host whose PHY reports no link, its main loop interleaved with the interrupts (the peers keep
  the bounds of \<open>benign\<close>): whenever the turn comes to \<open>Modbus_RTU_Comm_Process\<close>, which sends the
  commands, stops included, after \<open>m\<close> earlier calls of it, the Ethernet branch has run \<open>m + 1\<close>
  times, and each time it has reset the PHY by one write and then read its status register 327679
  times in vain. The network is never up, and no call is undefined.\<close>

theorem host_without_link_polls:
  assumes "sys_ok s" "isHost s \<noteq> 0" "no_link e" "host_run L (0, s, e) m (pc, t, u)"
  shows "EthInitStatus u = ETH_ERROR \<and> (\<exists>c. host_step L (pc, t, u) = Some c) \<and>
    (pc = 4 \<longrightarrow> phy_writes u = phy_writes e @ replicate (m + 1) (1, 0, 0x8000) \<and>
       phy_accesses u = phy_accesses e + (m + 1) * (1 + 327679))"
proof -
  have "polling e 0 (0, s, e)" using assms(1-3) by (simp add: polling_def net_passes_def)
  from host_run_polling [OF assms(4) this] have p: "polling e m (pc, t, u)" .
  then have "EthInitStatus u = ETH_ERROR" by (simp add: polling_def no_link_def)
  moreover have "\<exists>c. host_step L (pc, t, u) = Some c" using host_step_polling [OF p] by blast
  moreover have "phy_writes u = phy_writes e @ replicate (m + 1) (1, 0, 0x8000) \<and>
      phy_accesses u = phy_accesses e + (m + 1) * (1 + 327679)" if "pc = 4"
    using p that by (simp add: polling_def net_passes_def)
  ultimately show ?thesis by blast
qed

lemma reset_eth_no_link: "no_link (reset_eth False l)"
proof -
  have "\<exists>m \<ge> n. m \<noteq> 0" for n :: nat by (rule exI [of _ "Suc n"]) simp
  then show ?thesis using reset_eth_answers [of False l] unfolding no_link_def reset_eth_hw by (auto simp: reset_eth_def)
qed

text \<open>A host that has just started comes to its first Modbus call.\<close>

theorem host_without_link_polls_witness:
  "\<exists>s t u. isHost s = 1 \<and> host_run echo_lwip (0, s, reset_eth False ()) 0 (4, t, u) \<and> phy_accesses u = 327680"
proof -
  obtain s0 where s0: "sys_ok s0" "\<not> sys_reset s0"
    using main_init_ok [OF power_up_power_on, of "\<lambda>_ _. 0" 0 0 0] by (auto simp: returns_def)
  define s where "s = s0\<lparr>isHost := 1\<rparr>"
  have s: "sys_ok s" "isHost s \<noteq> 0" "\<not> sys_reset s" "isHost s = 1" using s0 by (simp_all add: s_def)
  let ?e = "reset_eth False ()"
  note e = reset_eth_no_link [of "()"]
  obtain u where u: "host_network echo_lwip s ?e = Some (3, u)" using host_network_no_link [OF s(2) e] by blast
  have r3: "host_run echo_lwip (0, s, ?e) 0 (3, s, u)"
    using host_call [OF host_start s(3), of echo_lwip 0 ?e "(3, s, u)"] u by (simp add: host_step_def)
  obtain t where t: "sec_process s = Some t" using sec_process_good [OF s(1)] by (auto simp: returns_def)
  have r4: "host_run echo_lwip (0, s, ?e) 0 (4, t, u)"
    using host_call [OF r3 s(3), of "(4, t, u)"] t by (simp add: host_step_def main_call_def)
  from host_without_link_polls [OF s(1,2) e r4] have "phy_accesses u = 327680" by (simp add: reset_eth_hw)
  with r4 s(4) show ?thesis by blast
qed

section \<open>A host with a network\<close>

text \<open>With the memory for it, \<open>LwIP_Init\<close> sets the station address and starts the interface with
  empty rings.\<close>

lemma LwIP_Init_starts:
  assumes "eth_arrays e" "length mac = 6" "ethernetif_alloc L (lwip_start L (lwip e)) = (True, l)"
    "list_all (\<lambda>p. length (concat p) \<le> 1520) (fst (netif_up L l))"
  shows "\<exists>t. LwIP_Init L mac e = Some t \<and> rx_ring [] t \<and> tx_ring t \<and> lwip_in t = lwip_in e"
proof -
  obtain h lo where a: "Set_MAC_Address mac (e\<lparr>lwip := lwip_start L (lwip e)\<rparr>) =
      Some (e\<lparr>lwip := lwip_start L (lwip e), MACaddr := mac, MACA0HR := h, MACA0LR := lo\<rparr>)"
    using assms(1,2) by (simp add: Set_MAC_Address_def ETH_MACAddressConfig_def memcpy_def idx_def eth_arrays_def)
  let ?e = "e\<lparr>MACaddr := mac, MACA0HR := h, MACA0LR := lo, lwip := l\<rparr>"
  have "eth_arrays ?e" using assms(1,2) by (simp add: eth_arrays_def)
  from low_level_init_rings [OF this] obtain t where t: "low_level_init ?e = Some t" "rx_ring [] t" "tx_ring t" "lwip_in t = lwip_in e"
    by auto
  have k: "lwip t = l" using low_level_init_lwip [OF t(1)] by simp
  obtain out l' where n: "netif_up L l = (out, l')" by force
  have tx: "tx_ring (t\<lparr>lwip := l'\<rparr>)" by (rule tx_ring_cong [OF t(3)]) simp_all
  have rx: "rx_ring [] (t\<lparr>lwip := l'\<rparr>)" by (rule rx_ring_cong [OF t(2)]) simp_all
  from output_all_only [OF tx, of out] assms(4) n obtain u where u: "output_all out (t\<lparr>lwip := l'\<rparr>) = Some u" "tx_ring u"
    "tx_only (t\<lparr>lwip := l'\<rparr>) u" by auto
  note g = tx_only_fields [OF u(3)]
  have "ethernetif_init L (e\<lparr>lwip := lwip_start L (lwip e), MACaddr := mac, MACA0HR := h, MACA0LR := lo\<rparr>) = Some (ERR_OK, t)"
    using assms(3) t(1) by (simp add: ethernetif_init_def)
  then have "LwIP_Init L mac e = Some u" using a n k u(1) by (simp add: LwIP_Init_def)
  with u(2) rx_ring_cong [OF rx, of u] g t(4) show ?thesis by simp
qed

text \<open>The timers of lwIP leave the rings alone, and run only when their interval has passed on the
  32-bit clock, across its overflow.\<close>

lemma LwIP_Periodic_keeps:
  assumes "rx_ring q e" "tx_ring e" "\<forall>l. list_all (\<lambda>p. length (concat p) \<le> 1520) (fst (tcp_tmr L l))"
    "\<forall>l. list_all (\<lambda>p. length (concat p) \<le> 1520) (fst (etharp_tmr L l))"
  shows "\<exists>t. LwIP_Periodic_Handle L now e = Some t \<and> rx_ring q t \<and> tx_ring t \<and> lwip_in t = lwip_in e \<and>
    (now - TCPTimer e < TCP_TMR_INTERVAL \<and> now - ARPTimer e < ARP_TMR_INTERVAL \<longrightarrow> t = e)"
proof -
  have sent: "\<exists>v. output_all out u = Some v \<and> rx_ring q v \<and> tx_ring v \<and> lwip_in v = lwip_in u"
    if r: "rx_ring q u" "tx_ring u" "list_all (\<lambda>p. length (concat p) \<le> 1520) out" for out and u :: "'a eth"
  proof -
    from output_all_only [OF r(2,3)] obtain v where v: "output_all out u = Some v" "tx_ring v" "tx_only u v" by blast
    with tx_only_fields [OF v(3)] rx_ring_cong [OF r(1), of v] show ?thesis by simp
  qed
  obtain u where u: "(if now - TCPTimer e \<ge> TCP_TMR_INTERVAL then do {
         let (out, l) = tcp_tmr L (lwip e);
         output_all out (e\<lparr>TCPTimer := now, lwip := l\<rparr>) } else Some e) = Some u"
    "rx_ring q u" "tx_ring u" "lwip_in u = lwip_in e" "now - TCPTimer e < TCP_TMR_INTERVAL \<longrightarrow> u = e"
  proof (cases "now - TCPTimer e \<ge> TCP_TMR_INTERVAL")
    case True
    obtain out l where o: "tcp_tmr L (lwip e) = (out, l)" by force
    have "list_all (\<lambda>p. length (concat p) \<le> 1520) out" using assms(3) o by (metis fst_conv)
    moreover have "rx_ring q (e\<lparr>TCPTimer := now, lwip := l\<rparr>)" by (rule rx_ring_cong [OF assms(1)]) simp_all
    moreover have "tx_ring (e\<lparr>TCPTimer := now, lwip := l\<rparr>)" by (rule tx_ring_cong [OF assms(2)]) simp_all
    ultimately show thesis using sent [of "e\<lparr>TCPTimer := now, lwip := l\<rparr>" out] True o that by auto
  qed (use assms that in auto)
  have "\<exists>t. (if now - ARPTimer u \<ge> ARP_TMR_INTERVAL then do {
         let (out, l) = etharp_tmr L (lwip u);
         output_all out (u\<lparr>ARPTimer := now, lwip := l\<rparr>) } else Some u) = Some t \<and>
    rx_ring q t \<and> tx_ring t \<and> lwip_in t = lwip_in u \<and> (now - ARPTimer u < ARP_TMR_INTERVAL \<longrightarrow> t = u)"
  proof (cases "now - ARPTimer u \<ge> ARP_TMR_INTERVAL")
    case True
    obtain out l where o: "etharp_tmr L (lwip u) = (out, l)" by force
    have "list_all (\<lambda>p. length (concat p) \<le> 1520) out" using assms(4) o by (metis fst_conv)
    moreover have "rx_ring q (u\<lparr>ARPTimer := now, lwip := l\<rparr>)" by (rule rx_ring_cong [OF u(2)]) simp_all
    moreover have "tx_ring (u\<lparr>ARPTimer := now, lwip := l\<rparr>)" by (rule tx_ring_cong [OF u(3)]) simp_all
    ultimately show ?thesis using sent [of "u\<lparr>ARPTimer := now, lwip := l\<rparr>" out] True o by auto
  qed (use u in auto)
  then show ?thesis using u by (auto simp: LwIP_Periodic_Handle_def)
qed

end
