(* ===== verification/Spec2Isabelle.thy ===== *)
theory Spec2Isabelle
  imports System Preempt Startup Host
begin

text \<open>
  The firmware of the conveyor controller (EXP_IOT_CTRL_PROJECT/Project/src, for an STM32F107).
  A station drives up to ten conveyor belts through inverters on an RS-485 line (Modbus RTU),
  reads start, stop, emergency, reset, stream and photo inputs, exchanges status and parameters
  with the other stations on a CAN bus, and station 1, the host, with a server over UDP. In the
  paths below src/ stands for the Project directory and its libraries.

  \<^bold>\<open>How the program runs, and its model.\<close> \<open>main\<close> sets the board up, initialises the queues,
  reads the address switches, the MAC address and the parameters in flash, and then calls nine
  functions in a loop. Interrupts come between: the tick (\<open>Time_Update\<close>: counters,
  \<open>InputScanProc\<close>, linkage, jam detection, reset), the serial receiver and the CAN receiver;
  lwIP delivers datagrams through a callback. Nearly all communication goes through the
  globals and four circular queues: inverter commands, module status, messages to the server, CAN
  frames. The globals of all files are the record \<open>fw\<close> (State), a C function is a HOL function
  on it, and undefined behaviour (an array index outside its array, a wait that never ends) is
  \<open>None\<close>. Machine integers keep their width (Prelude), structs keep their byte image (Types).

  \<^bold>\<open>Theories.\<close>
  \<^item> Prelude: integer types, checked array access, counted loops, \<open>memcpy\<close>, half-words.
  \<^item> Types, State: the structs of the headers as records, with their bytes; the globals.
  \<^item> Drivers: the GPIO and flash functions of the peripheral library, the input and output macros.
  \<^item> Ring, Queues: the interface \<open>bounded_fifo\<close> of a queue and what follows from it; the four
    queues of fun.c, logic_ctrl.c and can_bus.c (\<open>enQueue\<close>, \<open>outQueue\<close>, ...) as its
    interpretations.
  \<^item> Checksum, Crc: the interface \<open>checksum\<close> of a bytewise checksum; \<open>get_CRC\<close> of modbus_rtu.c
    with its two tables, equal to the bit-serial CRC-16.
  \<^item> Logic: logic_ctrl.c from \<open>Speed_Ctrl_Process\<close> on: start, stop and emergency, linkage of the
    belts and of the stations, jam detection, reset and restart.
  \<^item> Params: \<open>read_user_paras\<close>, \<open>write_user_paras\<close>.
  \<^item> Inv: the invariant \<open>sys_ok\<close> of the running firmware, and that belt control keeps it.
  \<^item> CanSend, CanRecv: can_bus.c with \<open>CAN_Transmit\<close> and \<open>CAN_Receive\<close>: segmentation,
    reassembly and the handlers of the messages.
  \<^item> Inputs: \<open>InputScanProc\<close>, with the debounce filter.
  \<^item> Modbus: modbus_rtu.c: requests, answers, time-outs, the transaction state machine.
  \<^item> Server: fun.c: messages of the server and replies. Udp: udpclient.c.
  \<^item> MainLoop: main.c: start-up after \<open>System_Setup\<close>, \<open>Time_Update\<close>, the functions of the main
    loop.
  \<^item> System: all of it together as a step relation.
  \<^item> Preempt: two queue operations split into memory accesses, with interrupts in between.
  \<^item> Clock, Board: \<open>System_Setup\<close> of stm32f107.c with all it calls: clock tree, pins, serial
    line, CAN controller, interrupt priorities, encoder timer, tick. These registers are not
    touched again later, so they are a record \<open>board\<close> of their own. Startup: \<open>System_Setup\<close>
    and the initialisation of \<open>main\<close> put together; the output registers are handed over.
  \<^item> EthDrv: the Ethernet set-up: \<open>Ethernet_Configuration\<close>, \<open>ETH_Init\<close> and the PHY accesses.
    EthIf: the network interface (ethernetif.c of the lwIP port, netconf.c, the descriptor
    functions of stm32_eth.c, \<open>ETH_IRQHandler\<close>), on a record \<open>eth\<close>. EthRx: reception as
    steps of the handler and of the DMA. Host: the main loop with its Ethernet branch, one call
    at a time, with interrupts in between.

  \<^bold>\<open>What is proved.\<close> About the whole: in every state reachable from power-up, under any
  interleaving of calls, interrupts, datagrams and input changes with peers that keep their bounds,
  the invariant holds and every call is defined (\<open>invariant_always_holds\<close>, \<open>no_undefined_behaviour\<close>). The emergency stop as a
  chain: the accepted level is the debounce specification of the inputs of all ticks
  (\<open>emergency_follows_input\<close>), its change flushes the queue down to stop commands
  (\<open>emergency_change_flushes_queue\<close>), and while it lasts no frame that could start a belt
  leaves on the inverter line (\<open>emergency_keeps_belts_stopped\<close>). About the components: each
  operation on every branch, round trips (parameters through flash, messages through segmentation
  and reassembly, checksums), refinement of the debounce filter and of the checksum, bounded time
  of a transaction with a silent inverter, end and result of start-up and of the clock set-up, and
  the errors the code has: overflows by unchecked lengths, messages it can never receive,
  uninitialised values sent out. About the network: the ring of receive descriptors, filled while
  the handler empties it, refines a queue of four frames, each delivered to lwIP once unless lwIP
  refuses the buffers (\<open>reception_is_a_queue\<close>), the handler
  ends (\<open>ETH_IRQHandler_ends\<close>), a frame is sent or lost as \<open>low_level_output_result\<close> says; and
  what goes wrong: one oversized frame ends reception (\<open>oversized_frame_stops_reception\<close>), an
  interrupt can be lost (\<open>interrupt_lost\<close>), sending from the main loop is not safe against the
  handler (\<open>preempted_output_sends_stale_data\<close>), and a host without a link polls the PHY 327679
  times before every Modbus call (\<open>host_without_link_polls\<close>).

  \<^bold>\<open>Assumptions, bounds and fuel.\<close> Handlers and calls of the main loop are atomic in System:
  an interrupt comes between two calls. The three handlers do not interrupt each other
  (\<open>system_setup_timing\<close>), but they do interrupt the main loop, which does not lock them out:
  Preempt shows that taking a command is as good as atomic (\<open>take_command_atomic\<close>) and that
  adding one is not (\<open>stop_undone_by_preemption\<close>). The safety of the reachable states assumes the bounds \<open>benign\<close> that the
  code relies on without testing them: at most 50 bytes of an answer, a CAN message about at most
  ten belts, a datagram of at most 300 bytes; the error theorems show what happens beyond.
  Uninitialised locals, lwIP's answers, the flash controller and the CAN mailboxes are fields that
  the environment sets. Loops are structural recursion or counted, with the bound of the C code:
  twenty rounds of the switch scan, the time-outs of the flash, CAN and PHY accesses. The waits for
  an oscillator and for the reset of the Ethernet controller have none, and neither has the loop of
  the Ethernet interrupt handler: they are partial functions. No other fuel is used. lwIP is a
  record of functions (\<open>lwip_ops\<close>) whose promises are the predicate \<open>lwip_ok\<close>; the Ethernet
  DMA is the event \<open>Dma\<close> with any status and bytes, restricted to frames received without error
  where a theorem needs it. The step relation of System takes \<open>EthInitStatus\<close> as a parameter of
  a call and does not contain the network interface, whose state is disjoint from \<open>fw\<close>; Host
  joins the two. Start-up is one step without interrupts, although \<open>System_Setup\<close> enables them a few
  instructions before the queues are initialised.

  \<^bold>\<open>Not modelled.\<close> The inside of lwIP (third-party), and the way of a datagram of the UDP client
  through it into the interface; the functions of the vendor's Ethernet driver that the firmware
  does not call; the reset of the CAN and Ethernet controllers' registers; the delays of \<open>ETH_Init\<close>,
  which change no state; the wait for the serial transmitter in \<open>uart1_send\<close> (taken to end); \<open>Delay\<close>, which
  waits for an interrupt; the exception handlers, which are empty or endless loops; the file
  system and the evaluation-board code, which this firmware does not call; the hardware behind the
  registers of \<open>board\<close>.
\<close>

end
